(* ===== verification/Mkq_Prelude.thy ===== *)
theory Mkq_Prelude
  imports Main "HOL-Library.Signed_Division" "HOL-Library.State_Monad"
begin

text \<open>
  The prelude of the development: what the Go code of the repository takes from its
  language and standard library.  It holds

  \<^item> 64-bit signed integers as \<open>int\<close> with the wrap-around written out (\<open>wrap64\<close>),
    and \<open>time.Duration\<close> arithmetic on them;
  \<^item> \<open>strconv.ParseInt\<close>, \<open>strconv.Atoi\<close>, \<open>strconv.FormatInt\<close>;
  \<^item> Go errors as trees of wrapped errors with \<open>errors.Is\<close> and \<open>errors.As\<close>;
  \<^item> Go functions that may panic as values of type \<open>outcome\<close>;
  \<^item> the codec contract (a locale) that the round-trip lemmas of the components share;
  \<^item> the bounded loop combinator and its contract (a locale), which the loops of the code
    (\<open>for { ... }\<close>) instantiate.
\<close>

named_theorems go_arith \<open>facts on 64-bit integers and durations\<close>

section \<open>64-bit integers and durations\<close>

type_synonym duration = int \<comment> \<open>nanoseconds, a Go \<open>int64\<close>\<close>
type_synonym hash = "(string \<times> string) list" \<comment> \<open>a Redis HASH or a Go \<open>map[string]string\<close>\<close>

definition wrap64 :: "int \<Rightarrow> int" where
  "wrap64 x = (x + 2 ^ 63) mod 2 ^ 64 - 2 ^ 63"

definition is_int64 :: "int \<Rightarrow> bool" where
  "is_int64 x \<longleftrightarrow> - (2 ^ 63) \<le> x \<and> x < 2 ^ 63"

definition MaxInt64 :: int where
  "MaxInt64 = 2 ^ 63 - 1"

definition MinInt64 :: int where
  "MinInt64 = - (2 ^ 63)"

definition Millisecond :: duration where
  "Millisecond = 1000000"

definition Second :: duration where
  "Second = 1000000000"

text \<open>\<open>time.Duration.Milliseconds\<close>: integer division, truncating towards zero.\<close>

definition Milliseconds :: "duration \<Rightarrow> int" where
  "Milliseconds d = d sdiv Millisecond"

lemma is_int64_wrap64 [go_arith, simp]: "is_int64 (wrap64 x)"
  by (simp add: is_int64_def wrap64_def)

lemma wrap64_id [go_arith]: "is_int64 x \<Longrightarrow> wrap64 x = x"
  by (simp add: is_int64_def wrap64_def)

lemma sdiv_pos_nonneg [go_arith]: "0 \<le> a \<Longrightarrow> 0 < b \<Longrightarrow> a sdiv b = a div b" for a b :: int
  by (cases "a = 0") (simp_all add: signed_divide_int_def sgn_if)

lemma sdiv_pos_neg [go_arith]: "a < 0 \<Longrightarrow> 0 < b \<Longrightarrow> a sdiv b = - (- a div b)" for a b :: int
  by (simp add: signed_divide_int_def sgn_if)

lemma Milliseconds_nonneg: "0 \<le> d \<Longrightarrow> Milliseconds d = d div 1000000"
  by (simp add: Milliseconds_def Millisecond_def go_arith)

lemma Milliseconds_sign: "Milliseconds d \<le> 0" if "d \<le> 0"
  using that by (cases "d = 0") (simp_all add: Milliseconds_def Millisecond_def go_arith
      pos_imp_zdiv_nonneg_iff signed_divide_int_def)

lemma Milliseconds_pos: "0 < Milliseconds d \<longleftrightarrow> Millisecond \<le> d"
proof (cases "d \<le> 0")
  case True
  then show ?thesis using Milliseconds_sign [OF True] by (simp add: Millisecond_def)
next
  case False
  then show ?thesis by (simp add: Milliseconds_nonneg Millisecond_def pos_imp_zdiv_pos_iff)
qed

lemma Milliseconds_whole: "0 \<le> m \<Longrightarrow> Milliseconds (m * Millisecond) = m"
  by (simp add: Milliseconds_def Millisecond_def go_arith)

section \<open>Decimal text\<close>

text \<open>\<open>strconv.FormatInt(n, 10)\<close>.\<close>

fun fmt_nat :: "nat \<Rightarrow> string" where
  "fmt_nat n = (if n < 10 then [char_of (48 + n)] else fmt_nat (n div 10) @ [char_of (48 + n mod 10)])"

declare fmt_nat.simps [simp del]

definition FormatInt :: "int \<Rightarrow> string" where
  "FormatInt n = (if n < 0 then CHR ''-'' # fmt_nat (nat (- n)) else fmt_nat (nat n))"

definition digit_val :: "char \<Rightarrow> nat option" where
  "digit_val c = (let n = of_char c in if 48 \<le> n \<and> n \<le> 57 then Some (n - 48) else None)"

fun digits_val :: "nat \<Rightarrow> string \<Rightarrow> nat option" where
  "digits_val acc [] = Some acc"
| "digits_val acc (c # cs) =
     (case digit_val c of None \<Rightarrow> None | Some d \<Rightarrow> digits_val (acc * 10 + d) cs)"

text \<open>
  \<open>strconv.ParseInt(s, 10, 64)\<close>: an optional sign and at least one decimal digit.  The
  second component is \<open>err != nil\<close>.  A syntax error yields 0; a value out of range
  yields the nearest bound, and both with an error.
\<close>

definition split_sign :: "string \<Rightarrow> bool \<times> string" where
  "split_sign s = (case s of
       [] \<Rightarrow> (False, [])
     | c # cs \<Rightarrow> if c = CHR ''-'' then (True, cs) else if c = CHR ''+'' then (False, cs) else (False, s))"

definition ParseInt :: "string \<Rightarrow> int \<times> bool" where
  "ParseInt s =
     (let (neg, ds) = split_sign s
      in if ds = [] then (0, True)
         else case digits_val 0 ds of
             None \<Rightarrow> (0, True)
           | Some n \<Rightarrow>
               if neg then (if int n > 2 ^ 63 then (MinInt64, True) else (- int n, False))
               else (if int n \<ge> 2 ^ 63 then (MaxInt64, True) else (int n, False)))"

text \<open>\<open>strconv.Atoi\<close> on a 64-bit platform has the same value and error.\<close>

definition Atoi :: "string \<Rightarrow> int \<times> bool" where
  "Atoi = ParseInt"

lemma digit_val_char_of [simp]: "d < 10 \<Longrightarrow> digit_val (char_of (48 + d)) = Some d"
  by (simp add: digit_val_def)

lemma digits_val_append:
  "digits_val acc (xs @ ys) = (case digits_val acc xs of None \<Rightarrow> None | Some a \<Rightarrow> digits_val a ys)"
  by (induction acc xs rule: digits_val.induct) (auto split: option.splits)

lemma digits_val_fmt_nat: "\<exists>k. \<forall>acc. digits_val acc (fmt_nat n) = Some (acc * 10 ^ k + n)"
proof (induction n rule: fmt_nat.induct)
  case (1 n)
  show ?case
  proof (cases "n < 10")
    case True
    then show ?thesis by (intro exI [of _ 1]) (simp add: fmt_nat.simps [of n])
  next
    case False
    with 1 obtain k where k: "\<And>acc. digits_val acc (fmt_nat (n div 10)) = Some (acc * 10 ^ k + n div 10)"
      by blast
    have "digits_val acc (fmt_nat n) = Some (acc * 10 ^ Suc k + n)" for acc
      using False by (simp add: fmt_nat.simps [of n] digits_val_append k algebra_simps)
    then show ?thesis by blast
  qed
qed

lemma digits_val_fmt_nat_0 [simp]: "digits_val 0 (fmt_nat n) = Some n"
  using digits_val_fmt_nat [of n] by (metis mult_0 add_0)

lemma fmt_nat_nonempty [simp]: "fmt_nat n \<noteq> []"
  by (subst fmt_nat.simps) simp

lemma set_fmt_nat: "c \<in> set (fmt_nat n) \<Longrightarrow> digit_val c \<noteq> None"
proof (induction n rule: fmt_nat.induct)
  case (1 n)
  then show ?case
    by (cases "n < 10") (auto simp: fmt_nat.simps [of n])
qed

lemma hd_fmt_nat: "hd (fmt_nat n) \<noteq> CHR ''-''" "hd (fmt_nat n) \<noteq> CHR ''+''"
  using set_fmt_nat [of "hd (fmt_nat n)" n] by (auto simp: digit_val_def)

lemma split_sign_FormatInt: "split_sign (FormatInt n) = (n < 0, fmt_nat (nat \<bar>n\<bar>))"
  using hd_fmt_nat [of "nat n"] fmt_nat_nonempty [of "nat n"]
  by (cases "fmt_nat (nat n)") (auto simp: split_sign_def FormatInt_def)

lemma ParseInt_FormatInt: "is_int64 n \<Longrightarrow> ParseInt (FormatInt n) = (n, False)"
  by (auto simp: ParseInt_def split_sign_FormatInt is_int64_def)

lemma ParseInt_int64 [go_arith]: "is_int64 (fst (ParseInt s))"
  by (auto simp: ParseInt_def is_int64_def MinInt64_def MaxInt64_def Let_def
      split: prod.split option.split)

section \<open>Calls that may panic\<close>

text \<open>
  A user callback or a slice expression either returns or panics.  Where the code recovers
  the panic, the model reads it off the value.
\<close>

datatype 'a outcome = Returns 'a | Panics string

text \<open>The Go slice expression \<open>s[i:j]\<close> on a string.\<close>

definition go_slice :: "string \<Rightarrow> int \<Rightarrow> int \<Rightarrow> string outcome" where
  "go_slice s i j =
     (if 0 \<le> i \<and> i \<le> j \<and> j \<le> int (length s) then Returns (take (nat (j - i)) (drop (nat i) s))
      else Panics ''slice bounds out of range'')"

definition HasPrefix :: "string \<Rightarrow> string \<Rightarrow> bool" where
  "HasPrefix s p \<longleftrightarrow> take (length p) s = p"

definition HasSuffix :: "string \<Rightarrow> string \<Rightarrow> bool" where
  "HasSuffix s p \<longleftrightarrow> length p \<le> length s \<and> drop (length s - length p) s = p"

fun Contains :: "string \<Rightarrow> string \<Rightarrow> bool" where
  "Contains [] t \<longleftrightarrow> t = []"
| "Contains (c # cs) t \<longleftrightarrow> HasPrefix (c # cs) t \<or> Contains cs t"

lemma HasPrefix_iff: "HasPrefix s p \<longleftrightarrow> (\<exists>r. s = p @ r)"
  by (auto simp: HasPrefix_def) (metis append_take_drop_id)

lemma HasSuffix_iff: "HasSuffix s p \<longleftrightarrow> (\<exists>r. s = r @ p)"
  by (auto simp: HasSuffix_def) (metis append_take_drop_id)

lemma sep_append_inj:
  "c \<notin> set xs \<Longrightarrow> c \<notin> set ys \<Longrightarrow> xs @ c # us = ys @ c # vs \<longleftrightarrow> xs = ys \<and> us = vs"
proof (induction xs arbitrary: ys)
  case Nil
  then show ?case by (cases ys) auto
next
  case (Cons x xs)
  then show ?case by (cases ys) auto
qed

section \<open>Go maps and Redis hashes\<close>

text \<open>
  A \<open>map[string]string\<close> read with \<open>m[k]\<close> yields the zero value when the key is absent;
  the two-value form also says whether it is present.
\<close>

definition hlookup :: "hash \<Rightarrow> string \<Rightarrow> string" where
  "hlookup m k = (case map_of m k of None \<Rightarrow> [] | Some v \<Rightarrow> v)"

fun hset :: "('k \<times> 'v) list \<Rightarrow> 'k \<Rightarrow> 'v \<Rightarrow> ('k \<times> 'v) list" where
  "hset [] k v = [(k, v)]"
| "hset ((k', v') # m) k v = (if k' = k then (k, v) # m else (k', v') # hset m k v)"

lemma map_of_hset [simp]: "map_of (hset m k v) = (map_of m)(k \<mapsto> v)"
  by (induction m k v rule: hset.induct) auto

lemma keys_hset: "set (map fst (hset m k v)) = insert k (set (map fst m))"
  by (induction m k v rule: hset.induct) auto

lemma distinct_hset: "distinct (map fst m) \<Longrightarrow> distinct (map fst (hset m k v))"
proof (induction m k v rule: hset.induct)
  case (2 k' v' m k v)
  then show ?case by (cases "k' = k") (simp_all add: keys_hset del: set_map)
qed simp

lemma hlookup_hset [simp]: "hlookup (hset m k v) k' = (if k' = k then v else hlookup m k')"
  by (simp add: hlookup_def)

section \<open>The codec contract\<close>

text \<open>
  An encoder, the decoder the other side runs, and the values for which the round trip is
  promised.  The key builder, the decimal formatter and the wire encoders interpret it.
\<close>

locale codec =
  fixes enc :: "'a \<Rightarrow> 'b" and dec :: "'b \<Rightarrow> 'a option" and ok :: "'a \<Rightarrow> bool"
  assumes dec_enc: "ok x \<Longrightarrow> dec (enc x) = Some x"
begin

lemma enc_inj_on: "inj_on enc {x. ok x}"
  by (rule inj_onI) (metis dec_enc mem_Collect_eq option.inject)

lemma enc_eq_iff: "ok x \<Longrightarrow> ok y \<Longrightarrow> enc x = enc y \<longleftrightarrow> x = y"
  by (metis dec_enc option.inject)

lemma dec_enc_list: "list_all ok xs \<Longrightarrow> those (map dec (map enc xs)) = Some xs"
  by (induction xs) (simp_all add: dec_enc)

end

definition parse_decimal :: "string \<Rightarrow> int option" where
  "parse_decimal s = (case ParseInt s of (n, err) \<Rightarrow> if err then None else Some n)"

interpretation decimal: codec FormatInt parse_decimal is_int64
  by unfold_locales (simp add: parse_decimal_def ParseInt_FormatInt)

section \<open>Loops\<close>

text \<open>
  A Go \<open>for\<close> loop over loop-local state: one run of the body either goes round again with
  new local state (\<open>Inl\<close>) or leaves the loop with a result (\<open>Inr\<close>).  The fuel bounds
  the number of rounds; running out is \<open>None\<close>.
\<close>

fun loop :: "nat \<Rightarrow> ('l \<Rightarrow> ('w, 'l + 'r) state) \<Rightarrow> 'l \<Rightarrow> ('w, 'r option) state" where
  "loop 0 body l = State_Monad.return None"
| "loop (Suc n) body l = do {
     r \<leftarrow> body l;
     (case r of Inl l' \<Rightarrow> loop n body l' | Inr x \<Rightarrow> State_Monad.return (Some x))
   }"

lemma loop_fuel_mono:
  "run_state (loop n body l) w = (Some r, w') \<Longrightarrow> n \<le> m \<Longrightarrow> run_state (loop m body l) w = (Some r, w')"
proof (induction n arbitrary: m l w)
  case 0
  then show ?case by simp
next
  case (Suc n)
  then obtain m' where m: "m = Suc m'" "n \<le> m'"
    by (metis Suc_le_D Suc_le_mono)
  obtain x w1 where b: "run_state (body l) w = (x, w1)" by fastforce
  show ?case
    using Suc b m by (cases x) (auto)
qed

lemma loop_invariant:
  assumes body: "\<And>l w r w'. I l w \<Longrightarrow> run_state (body l) w = (r, w') \<Longrightarrow>
      (case r of Inl l' \<Rightarrow> I l' w' | Inr x \<Rightarrow> K x w')"
    and start: "I l w" and run: "run_state (loop n body l) w = (r, w')"
  shows "case r of None \<Rightarrow> \<exists>l'. I l' w' | Some x \<Rightarrow> K x w'"
  using start run
proof (induction n arbitrary: l w)
  case 0
  then show ?case by auto
next
  case (Suc n)
  obtain x w1 where b: "run_state (body l) w = (x, w1)" by fastforce
  from body [OF Suc.prems(1) b] b Suc show ?case by (cases x) auto
qed

locale bounded_loop =
  fixes body :: "'l \<Rightarrow> ('w, 'l + 'r) state"
    and inv :: "'l \<Rightarrow> 'w \<Rightarrow> bool"
    and meas :: "'l \<Rightarrow> nat"
  assumes again: "inv l w \<Longrightarrow> run_state (body l) w = (Inl l', w') \<Longrightarrow> inv l' w' \<and> meas l' < meas l"
begin

lemma loop_returns: "inv l w \<Longrightarrow> meas l < n \<Longrightarrow> \<exists>r w'. run_state (loop n body l) w = (Some r, w')"
proof (induction n arbitrary: l w)
  case 0
  then show ?case by simp
next
  case (Suc n)
  obtain x w1 where b: "run_state (body l) w = (x, w1)" by fastforce
  show ?case
  proof (cases x)
    case (Inl l')
    with b again Suc.prems have "inv l' w1" "meas l' < n" by fastforce+
    then show ?thesis using Suc.IH b Inl by fastforce
  next
    case (Inr r)
    with b show ?thesis by simp
  qed
qed

lemma loop_stable:
  assumes "inv l w" "meas l < n" "meas l < m"
  shows "run_state (loop n body l) w = run_state (loop m body l) w"
proof -
  obtain r w' where "run_state (loop (min n m) body l) w = (Some r, w')"
    using loop_returns [of l w "min n m"] assms by auto
  then show ?thesis
    by (metis loop_fuel_mono min.cobounded1 min.cobounded2)
qed

end

end
