(* ===== verification/Errors.thy ===== *)
theory Errors
  imports Mkq_Prelude
begin

text \<open>
  Go errors as the code of the repository builds and inspects them: the sentinels of
  \<open>errors.go\<close> and \<open>queue_metrics.go\<close>, \<open>DelayedError\<close>, the context and driver errors the
  code tests for, and \<open>fmt.Errorf\<close> with \<open>%w\<close>.  An error is a tree: \<open>errors.Is\<close> and
  \<open>errors.As\<close> walk it in pre-order, as the standard library does.
\<close>

datatype sentinel =
    ErrPriorityWithDelay
  | ErrUnrecoverable
  | ErrJobNotFound
  | ErrJobDetached
  | ErrJobActive
  | ErrJobIsScheduler
  | ErrJobNotInDelayed
  | ErrJobNotInExpectedState
  | ErrDuplicateJob
  | ErrInvalidMetricsBucket

text \<open>
  \<open>ServerErr\<close> is an error reply of Redis (a \<open>redis.Error\<close>), \<open>PlainErr\<close> any other error
  that wraps nothing, \<open>Wrapped\<close> an error that wraps the listed ones (\<open>fmt.Errorf\<close> with
  \<open>%w\<close>, \<open>errors.Join\<close>), with its own text.
\<close>

datatype goerr =
    Sentinel sentinel
  | Canceled
  | DeadlineExceeded
  | RedisNil
  | DelayedError duration
  | ServerErr string
  | PlainErr string
  | Wrapped string "goerr list"

fun sentinel_text :: "sentinel \<Rightarrow> string" where
  "sentinel_text ErrPriorityWithDelay = ''mkq: WithPriority cannot be combined with WithDelay''"
| "sentinel_text ErrUnrecoverable = ''mkq: unrecoverable error (skip retry)''"
| "sentinel_text ErrJobNotFound = ''mkq: job not found''"
| "sentinel_text ErrJobDetached = ''mkq: job has no queue back-pointer (constructed outside mkq?)''"
| "sentinel_text ErrJobActive = ''mkq: job is active (locked) and cannot be removed''"
| "sentinel_text ErrJobIsScheduler = ''mkq: job is owned by a scheduler; use RemoveSchedule''"
| "sentinel_text ErrJobNotInDelayed = ''mkq: job is not in the delayed state''"
| "sentinel_text ErrJobNotInExpectedState =
     ''mkq: job is not in the expected source state for retry''"
| "sentinel_text ErrDuplicateJob = ''mkq: job suppressed by deduplication; existing job returned''"
| "sentinel_text ErrInvalidMetricsBucket =
     ''mkq: GetMetrics kind must be JobBucketCompleted or JobBucketFailed''"

text \<open>
  \<open>time.Duration.String\<close>: a fraction without trailing zeros, in the unit below a second, or
  hours, minutes and seconds.
\<close>

definition fmtFrac :: "nat \<Rightarrow> nat \<Rightarrow> string" where
  "fmtFrac v prec =
     (let ds = map (\<lambda>i. char_of (48 + v div 10 ^ (prec - Suc i) mod 10)) [0..<prec];
          ds = rev (dropWhile (\<lambda>c. c = CHR ''0'') (rev ds))
      in if ds = [] then [] else CHR ''.'' # ds)"

definition duration_string :: "duration \<Rightarrow> string" where
  "duration_string d =
     (let u = nat \<bar>d\<bar>;
          body =
            (if u = 0 then ''0s''
             else if u < 1000 then fmt_nat u @ ''ns''
             else if u < 1000000 then fmt_nat (u div 1000) @ fmtFrac u 3 @ [CHR 0xC2, CHR 0xB5] @ ''s''
             else if u < 1000000000 then fmt_nat (u div 1000000) @ fmtFrac u 6 @ ''ms''
             else let s = u div 1000000000; m = s div 60; h = m div 60
                  in (if h > 0 then fmt_nat h @ ''h'' else []) @
                     (if m > 0 then fmt_nat (m mod 60) @ ''m'' else []) @
                     fmt_nat (s mod 60) @ fmtFrac u 9 @ ''s'')
      in if d < 0 then CHR ''-'' # body else body)"

text \<open>The \<open>Error\<close> method.\<close>

fun err_text :: "goerr \<Rightarrow> string" where
  "err_text (Sentinel s) = sentinel_text s"
| "err_text Canceled = ''context canceled''"
| "err_text DeadlineExceeded = ''context deadline exceeded''"
| "err_text RedisNil = ''redis: nil''"
| "err_text (DelayedError d) = ''mkq: job delayed for '' @ duration_string d"
| "err_text (ServerErr m) = m"
| "err_text (PlainErr m) = m"
| "err_text (Wrapped m _) = m"

definition Delay :: "duration \<Rightarrow> goerr" where
  "Delay d = DelayedError d"

text \<open>\<open>fmt.Errorf(msg + ": %w", err)\<close>, with the text up to the verb as first argument.\<close>

definition errorf :: "string \<Rightarrow> goerr \<Rightarrow> goerr" where
  "errorf msg e = Wrapped (msg @ err_text e) [e]"

text \<open>\<open>errors.Is(err, target)\<close> for a target that is compared by identity.\<close>

fun errors_Is :: "goerr \<Rightarrow> goerr \<Rightarrow> bool"
  and errors_Is_any :: "goerr list \<Rightarrow> goerr \<Rightarrow> bool" where
  "errors_Is (Wrapped m es) t = errors_Is_any es t"
| "errors_Is e t = (e = t)"
| "errors_Is_any [] t = False"
| "errors_Is_any (e # es) t = (errors_Is e t \<or> errors_Is_any es t)"

text \<open>\<open>errors.As(err, &delayed)\<close>: the first \<open>*DelayedError\<close> in pre-order.\<close>

fun errors_As_Delayed :: "goerr \<Rightarrow> duration option"
  and errors_As_Delayed_any :: "goerr list \<Rightarrow> duration option" where
  "errors_As_Delayed (DelayedError d) = Some d"
| "errors_As_Delayed (Wrapped m es) = errors_As_Delayed_any es"
| "errors_As_Delayed e = None"
| "errors_As_Delayed_any [] = None"
| "errors_As_Delayed_any (e # es) =
     (case errors_As_Delayed e of Some d \<Rightarrow> Some d | None \<Rightarrow> errors_As_Delayed_any es)"

text \<open>\<open>errors.As(err, &rerr)\<close> for the \<open>redis.Error\<close> interface; \<open>redis.Nil\<close> implements it too.\<close>

fun errors_As_Server :: "goerr \<Rightarrow> string option"
  and errors_As_Server_any :: "goerr list \<Rightarrow> string option" where
  "errors_As_Server (ServerErr m) = Some m"
| "errors_As_Server RedisNil = Some ''redis: nil''"
| "errors_As_Server (Wrapped m es) = errors_As_Server_any es"
| "errors_As_Server e = None"
| "errors_As_Server_any [] = None"
| "errors_As_Server_any (e # es) =
     (case errors_As_Server e of Some d \<Rightarrow> Some d | None \<Rightarrow> errors_As_Server_any es)"

section \<open>Lemmas\<close>

lemma errors_Is_errorf [simp]: "errors_Is (errorf m e) t = errors_Is e t"
  by (simp add: errorf_def)

lemma errors_As_Delayed_errorf [simp]: "errors_As_Delayed (errorf m e) = errors_As_Delayed e"
  by (simp add: errorf_def split: option.splits)

lemma errors_Is_any_iff: "errors_Is_any es t \<longleftrightarrow> (\<exists>e \<in> set es. errors_Is e t)"
  by (induction es) auto

lemma sentinel_text_inj: "sentinel_text a = sentinel_text b \<Longrightarrow> a = b"
  by (cases a; cases b) simp_all

end
