(* ===== verification/Go_Float.thy ===== *)
theory Go_Float
  imports Complex_Main Mkq_Prelude
begin

text \<open>
  The \<open>float64\<close> arithmetic the code uses (jitter, durations in seconds).  A \<open>float64\<close> is the
  real number it denotes and every operation rounds its exact result to 53 significant bits,
  ties to even (\<open>fl64\<close>).  Subnormal results, infinities and NaN are outside the model, and
  so is the fusing of a multiplication with an addition that Go permits on some platforms.  The
  conversion to \<open>int64\<close> truncates; out of range it yields the least integer, as on amd64.
\<close>

definition rne :: "real \<Rightarrow> int" where
  "rne x = (let f = \<lfloor>x\<rfloor>; d = x - of_int f
            in if d < 1 / 2 then f else if 1 / 2 < d then f + 1 else if even f then f else f + 1)"

definition fl64 :: "real \<Rightarrow> real" where
  "fl64 x =
     (if x = 0 then 0
      else let e = \<lfloor>log 2 \<bar>x\<bar>\<rfloor> - 52 in of_int (rne (x / 2 powr of_int e)) * 2 powr of_int e)"

definition trunc :: "real \<Rightarrow> int" where
  "trunc x = (if 0 \<le> x then \<lfloor>x\<rfloor> else \<lceil>x\<rceil>)"

definition int64_of_float :: "real \<Rightarrow> int" where
  "int64_of_float x = (if is_int64 (trunc x) then trunc x else MinInt64)"

text \<open>\<open>time.Duration.Seconds\<close>, and \<open>int(d.Seconds())\<close> as the retention options use it.\<close>

definition Seconds :: "duration \<Rightarrow> real" where
  "Seconds d = fl64 (fl64 (of_int (d sdiv Second)) + fl64 (fl64 (of_int (d smod Second)) / 1000000000))"

definition wholeSeconds :: "duration \<Rightarrow> int" where
  "wholeSeconds d = int64_of_float (Seconds d)"

text \<open>Both functions compute on rational arguments: the exponent is found by halving.\<close>

fun flog2 :: "nat \<Rightarrow> nat" where
  "flog2 n = (if n < 2 then 0 else Suc (flog2 (n div 2)))"

declare flog2.simps [simp del]

definition exp2 :: "real \<Rightarrow> int" where
  "exp2 x = (if 1 \<le> x then int (flog2 (nat \<lfloor>x\<rfloor>)) else - int (Suc (flog2 (nat \<lceil>1 / x\<rceil> - 1))))"

definition pow2 :: "int \<Rightarrow> real" where
  "pow2 e = (if 0 \<le> e then 2 ^ nat e else 1 / 2 ^ nat (- e))"

lemma pow2_powr: "2 powr of_int e = pow2 e"
  by (simp add: pow2_def powr_real_of_int inverse_eq_divide)

lemma flog2_bounds: "0 < n \<Longrightarrow> 2 ^ flog2 n \<le> n \<and> n < 2 ^ Suc (flog2 n)"
proof (induction n rule: flog2.induct)
  case (1 n)
  show ?case
  proof (cases "n < 2")
    case True
    with 1 show ?thesis by (simp add: flog2.simps [of n])
  next
    case False
    with 1 have "2 ^ flog2 (n div 2) \<le> n div 2 \<and> n div 2 < 2 ^ Suc (flog2 (n div 2))" by simp
    then show ?thesis using False by (simp add: flog2.simps [of n]) linarith
  qed
qed

lemma exp2_log: assumes "0 < x" shows "\<lfloor>log 2 x\<rfloor> = exp2 x"
proof (cases "1 \<le> x")
  case True
  define n where "n = nat \<lfloor>x\<rfloor>"
  have "0 < n" "real n \<le> x" "x < real n + 1" using True by (auto simp: n_def le_floor_iff)
  moreover have "2 ^ flog2 n \<le> n" "Suc n \<le> 2 ^ Suc (flog2 n)" using flog2_bounds [OF \<open>0 < n\<close>] by simp_all
  then have "(2::real) ^ flog2 n \<le> real n" "real n + 1 \<le> 2 ^ Suc (flog2 n)"
    by (metis of_nat_le_iff of_nat_numeral of_nat_power, metis of_nat_Suc of_nat_le_iff of_nat_numeral of_nat_power add.commute)
  ultimately have "(2::real) ^ flog2 n \<le> x" "x < 2 ^ Suc (flog2 n)" by linarith+
  then show ?thesis
    using True by (subst floor_log_eq_powr_iff) (simp_all add: exp2_def n_def [symmetric] powr_realpow powr_add)
next
  case False
  define n where "n = nat \<lceil>1 / x\<rceil> - 1"
  define k where "k = Suc (flog2 n)"
  have y: "1 < 1 / x" using False assms by simp
  then have "2 \<le> \<lceil>1 / x\<rceil>" by linarith
  then have n: "0 < n" "real n < 1 / x" "1 / x \<le> real n + 1" by (auto simp: n_def) linarith+
  have "2 ^ flog2 n \<le> n" "Suc n \<le> 2 ^ Suc (flog2 n)" using flog2_bounds [OF n(1)] by simp_all
  then have "(2::real) ^ flog2 n \<le> real n" "real n + 1 \<le> 2 ^ k"
    unfolding k_def by (metis of_nat_le_iff of_nat_numeral of_nat_power, metis of_nat_Suc of_nat_le_iff of_nat_numeral of_nat_power add.commute)
  then have "1 / x \<le> 2 ^ k" "2 ^ flog2 n < 1 / x" using n by linarith+
  then have "1 / 2 ^ k \<le> x" "x < 1 / 2 ^ flog2 n" using assms by (simp_all add: field_simps)
  then show ?thesis
    using False assms
    by (subst floor_log_eq_powr_iff)
      (simp_all add: exp2_def n_def k_def powr_minus_divide powr_realpow powr_diff powr_add)
qed

lemma fl64_code [code]:
  "fl64 x = (if x = 0 then 0 else let e = exp2 \<bar>x\<bar> - 52 in of_int (rne (x / pow2 e)) * pow2 e)"
  by (simp add: fl64_def exp2_log pow2_powr Let_def)

lemma rne_error: "\<bar>of_int (rne x) - x\<bar> \<le> 1 / 2"
  unfolding rne_def Let_def by (auto simp: abs_if) linarith+

lemma rne_of_int [simp]: "rne (of_int n) = n"
  by (simp add: rne_def)

lemma fl64_0 [simp]: "fl64 0 = 0"
  by (simp add: fl64_def)

lemma fl64_error: "\<bar>fl64 x - x\<bar> \<le> \<bar>x\<bar> / 2 ^ 53"
proof (cases "x = 0")
  case False
  define e where "e = \<lfloor>log 2 \<bar>x\<bar>\<rfloor> - 52"
  define p :: real where "p = 2 powr of_int e"
  have p: "p > 0" by (simp add: p_def)
  have "of_int (e + 52) \<le> log 2 \<bar>x\<bar>" by (simp add: e_def)
  then have "2 powr of_int (e + 52) \<le> \<bar>x\<bar>"
    using False by (simp add: le_log_iff)
  then have px: "p * 2 ^ 52 \<le> \<bar>x\<bar>"
    by (simp add: p_def powr_add)
  have "fl64 x - x = (of_int (rne (x / p)) - x / p) * p"
    using p False by (simp add: fl64_def e_def p_def Let_def algebra_simps)
  then have "\<bar>fl64 x - x\<bar> = \<bar>of_int (rne (x / p)) - x / p\<bar> * p"
    using p by (simp add: abs_mult)
  also have "\<dots> \<le> 1 / 2 * p"
    using rne_error p by (intro mult_right_mono) auto
  also have "\<dots> \<le> \<bar>x\<bar> / 2 ^ 53" using px by simp
  finally show ?thesis .
qed simp

lemma fl64_lower: "0 \<le> x \<Longrightarrow> x * (1 - 1 / 2 ^ 53) \<le> fl64 x"
  and fl64_upper: "0 \<le> x \<Longrightarrow> fl64 x \<le> x * (1 + 1 / 2 ^ 53)"
  using fl64_error [of x] by (auto simp: field_simps abs_if split: if_splits)

lemma fl64_nonneg: "0 \<le> x \<Longrightarrow> 0 \<le> fl64 x"
proof -
  assume "0 \<le> x"
  then have "0 \<le> x * (1 - 1 / 2 ^ 53)" by simp
  with fl64_lower \<open>0 \<le> x\<close> show ?thesis by (blast intro: order_trans)
qed

lemma fl64_of_int: "\<bar>n\<bar> < 2 ^ 53 \<Longrightarrow> fl64 (of_int n) = of_int n"
proof (cases "n = 0")
  case False
  assume n: "\<bar>n\<bar> < 2 ^ 53"
  define e where "e = \<lfloor>log 2 \<bar>real_of_int n\<bar>\<rfloor> - 52"
  have "log 2 \<bar>real_of_int n\<bar> < 53"
    using False n by (subst log_less_iff) (simp_all add: powr_numeral flip: of_int_abs)
  then have e: "e \<le> 0" by (simp add: e_def floor_le_iff)
  have pw: "2 powr - real_of_int e = 2 ^ nat (- e)"
    using e powr_real_of_int [of 2 "- e"] by simp
  have "real_of_int n / 2 powr of_int e = real_of_int n * 2 powr - of_int e"
    by (simp add: powr_minus divide_inverse)
  also have "\<dots> = of_int (n * 2 ^ nat (- e))"
    by (simp add: pw)
  finally have "rne (real_of_int n / 2 powr of_int e) = n * 2 ^ nat (- e)"
    by (metis rne_of_int)
  then have "fl64 (of_int n) = of_int (n * 2 ^ nat (- e)) * 2 powr of_int e"
    using False by (simp add: fl64_def e_def Let_def)
  also have "\<dots> = of_int n * (2 powr - of_int e * 2 powr of_int e)"
    by (simp add: pw)
  also have "\<dots> = of_int n" by (simp flip: powr_add)
  finally show ?thesis .
qed simp

lemma trunc_of_int [simp]: "trunc (of_int n) = n"
  by (simp add: trunc_def)

lemma wholeSeconds_exact:
  assumes "\<bar>s\<bar> < 2 ^ 33"
  shows "wholeSeconds (s * Second) = s"
proof -
  have "s * Second sdiv Second = s" "s * Second smod Second = 0"
    by (auto simp: Second_def signed_divide_int_def signed_modulo_int_def abs_mult sgn_mult sgn_if)
  moreover have "is_int64 s" using assms by (auto simp: is_int64_def)
  ultimately show ?thesis using assms
    by (simp add: wholeSeconds_def Seconds_def fl64_of_int int64_of_float_def)
qed

lemma wholeSeconds_subsecond:
  assumes "0 \<le> d" "d < Second"
  shows "wholeSeconds d = 0"
proof -
  have q: "d sdiv Second = 0" "d smod Second = d"
    using assms by (auto simp: Second_def signed_divide_int_def signed_modulo_int_def sgn_if)
  have d: "fl64 (of_int d) = of_int d" "real_of_int d \<le> 999999999"
    using assms by (auto intro!: fl64_of_int simp: Second_def)
  let ?x = "fl64 (real_of_int d / 1000000000)"
  have "?x \<le> real_of_int d / 1000000000 * (1 + 1 / 2 ^ 53)"
    by (rule fl64_upper) (use assms in simp)
  then have "?x * (1 + 1 / 2 ^ 53) < 1" "0 \<le> ?x"
    using d(2) assms by (auto intro!: fl64_nonneg)
  then have "0 \<le> fl64 ?x" "fl64 ?x < 1"
    using fl64_upper [of ?x] by (auto intro!: fl64_nonneg)
  then have "trunc (fl64 ?x) = 0" by (simp add: trunc_def floor_eq_iff)
  then show ?thesis
    by (simp add: wholeSeconds_def Seconds_def q d int64_of_float_def is_int64_def)
qed

end
