(* ===== verification/Backoff.thy ===== *)
theory Backoff
  imports Errors Go_Float
begin

text \<open>
  \<open>backoff.go\<close>: the retry backoff strategies, the un-jittered delay of the built-in ones
  (\<open>computeBackoffDelay\<close>) at its 64-bit width, and the jitter formula (\<open>applyJitter\<close>) in
  \<open>float64\<close> arithmetic.
\<close>

record BackoffStrategy =
  bs_Type :: string
  bs_Delay :: duration
  bs_Jitter :: real

record BackoffContext =
  bc_JobID :: string
  bc_Name :: string
  bc_AttemptsMade :: int
  bc_Err :: goerr
  bc_BackoffType :: string

type_synonym CustomBackoffFunc = "int \<Rightarrow> duration outcome"
type_synonym BackoffFunc = "BackoffContext \<Rightarrow> duration outcome"
type_synonym RetryDelayFunc = "BackoffContext \<Rightarrow> (duration \<times> bool) outcome"

definition FixedBackoff :: "duration \<Rightarrow> BackoffStrategy" where
  "FixedBackoff d = \<lparr>bs_Type = ''fixed'', bs_Delay = d, bs_Jitter = 0\<rparr>"

definition FixedBackoffWithJitter :: "duration \<Rightarrow> real \<Rightarrow> BackoffStrategy" where
  "FixedBackoffWithJitter d jitter = \<lparr>bs_Type = ''fixed'', bs_Delay = d, bs_Jitter = jitter\<rparr>"

definition ExponentialBackoff :: "duration \<Rightarrow> BackoffStrategy" where
  "ExponentialBackoff d = \<lparr>bs_Type = ''exponential'', bs_Delay = d, bs_Jitter = 0\<rparr>"

definition ExponentialBackoffWithJitter :: "duration \<Rightarrow> real \<Rightarrow> BackoffStrategy" where
  "ExponentialBackoffWithJitter d jitter =
     \<lparr>bs_Type = ''exponential'', bs_Delay = d, bs_Jitter = jitter\<rparr>"

definition CustomBackoff :: BackoffStrategy where
  "CustomBackoff = \<lparr>bs_Type = ''custom'', bs_Delay = 0, bs_Jitter = 0\<rparr>"

definition computeBackoffDelay :: "BackoffStrategy option \<Rightarrow> int \<Rightarrow> duration" where
  "computeBackoffDelay b attemptsMade =
     (case b of None \<Rightarrow> 0 | Some b \<Rightarrow>
       if attemptsMade < 1 then 0
       else if bs_Type b = ''fixed'' then bs_Delay b
       else if bs_Type b = ''exponential'' then
         (let shift = nat (attemptsMade - 1)
          in if shift \<ge> 63 then MaxInt64
             else let mult = 2 ^ shift
                  in if mult \<noteq> 0 \<and> bs_Delay b > MaxInt64 sdiv mult then MaxInt64
                     else wrap64 (bs_Delay b * mult))
       else 0)"

definition applyJitter :: "duration \<Rightarrow> real \<Rightarrow> real \<Rightarrow> duration" where
  "applyJitter base jitter r =
     (if jitter \<le> 0 then base
      else let jitter = (if jitter > 1 then 1 else jitter);
               minDelay = fl64 (fl64 (of_int base) * fl64 (1 - jitter))
           in int64_of_float (fl64 (fl64 (fl64 (r * fl64 (of_int base)) * jitter) + minDelay)))"

section \<open>Lemmas: the exponential curve\<close>

lemma computeBackoffDelay_fixed:
  "bs_Type b = ''fixed'' \<Longrightarrow> 1 \<le> n \<Longrightarrow> computeBackoffDelay (Some b) n = bs_Delay b"
  by (simp add: computeBackoffDelay_def)

lemma mul_pow_overflow_iff:
  fixes d :: int
  shows "d > MaxInt64 div 2 ^ k \<longleftrightarrow> d * 2 ^ k > MaxInt64"
  by (smt (verit) minus_mod_eq_div_mult mod_int_pos_iff mult_right_mono nonzero_mult_div_cancel_right
      pos_imp_zdiv_pos_iff zdiv_mono1 zero_less_power)

lemma computeBackoffDelay_exponential:
  assumes "bs_Type b = ''exponential''" "0 < bs_Delay b" "1 \<le> n"
  shows "computeBackoffDelay (Some b) n = min MaxInt64 (bs_Delay b * 2 ^ nat (n - 1))"
proof (cases "nat (n - 1) \<ge> 63")
  case True
  then have "(2::int) ^ 63 \<le> 2 ^ nat (n - 1)" by (intro power_increasing) simp_all
  then have "MaxInt64 \<le> bs_Delay b * 2 ^ nat (n - 1)"
    using assms(2) mult_mono [of 1 "bs_Delay b" "2 ^ 63" "2 ^ nat (n - 1)"]
    by (simp add: MaxInt64_def)
  then show ?thesis using assms True by (simp add: computeBackoffDelay_def)
next
  case False
  let ?p = "bs_Delay b * 2 ^ nat (n - 1)"
  have d: "MaxInt64 sdiv 2 ^ nat (n - 1) = MaxInt64 div 2 ^ nat (n - 1)"
    by (simp add: go_arith MaxInt64_def)
  have "0 \<le> ?p" using assms(2) by simp
  then have "wrap64 ?p = ?p" if "?p \<le> MaxInt64"
    using that by (intro wrap64_id) (simp only: is_int64_def MaxInt64_def, linarith)
  then show ?thesis
    using assms False mul_pow_overflow_iff [of "nat (n - 1)" "bs_Delay b"]
    by (auto simp: computeBackoffDelay_def Let_def d min_def)
qed

lemma computeBackoffDelay_int64:
  "is_int64 (bs_Delay b) \<Longrightarrow> is_int64 (computeBackoffDelay (Some b) n)"
  by (simp add: computeBackoffDelay_def Let_def) (simp add: is_int64_def MaxInt64_def)

section \<open>Lemmas: jitter\<close>

lemma jitter_sum_bounds:
  fixes B j r u :: real
  defines "u \<equiv> 1 / 2 ^ 53"
  assumes B: "0 \<le> B" and j: "0 \<le> j" "j \<le> 1" and r: "0 \<le> r" "r \<le> 1"
  defines "m \<equiv> fl64 (B * fl64 (1 - j))"
  defines "t \<equiv> fl64 (fl64 (r * B) * j)"
  shows "fl64 (t + m) \<le> B * (1 + u) ^ 3" "B * (1 - j) * (1 - u) ^ 3 \<le> fl64 (t + m)"
proof -
  note up = fl64_upper [folded u_def] and lo = fl64_lower [folded u_def]
  have u: "0 \<le> u" "u \<le> 1" by (simp_all add: u_def)
  have j1: "fl64 (1 - j) \<le> (1 - j) * (1 + u)" "(1 - j) * (1 - u) \<le> fl64 (1 - j)" "0 \<le> fl64 (1 - j)"
    using up lo fl64_nonneg j by simp_all
  have rB: "fl64 (r * B) \<le> r * B * (1 + u)" "0 \<le> fl64 (r * B)"
    using up fl64_nonneg B r by simp_all
  have "t \<le> fl64 (r * B) * j * (1 + u)"
    unfolding t_def using up rB j by simp
  also have "\<dots> \<le> r * B * (1 + u) * j * (1 + u)"
    using rB j u by (intro mult_right_mono) auto
  also have "\<dots> \<le> B * j * (1 + u) ^ 2"
    using mult_right_mono [of r 1 "B * j * (1 + u) ^ 2"] r B j u
    by (simp add: power2_eq_square mult_ac)
  finally have t: "t \<le> B * j * (1 + u) ^ 2" .
  have t0: "0 \<le> t" unfolding t_def using rB j by (intro fl64_nonneg) simp
  have "m \<le> B * fl64 (1 - j) * (1 + u)"
    unfolding m_def using up B j1 by simp
  also have "\<dots> \<le> B * ((1 - j) * (1 + u)) * (1 + u)"
    using j1 B u by (intro mult_right_mono mult_left_mono) auto
  finally have m: "m \<le> B * (1 - j) * (1 + u) ^ 2" by (simp add: power2_eq_square mult_ac)
  have m0: "0 \<le> m" unfolding m_def using B j1 by (intro fl64_nonneg) simp
  have "B * ((1 - j) * (1 - u)) * (1 - u) \<le> B * fl64 (1 - j) * (1 - u)"
    using j1 B u by (intro mult_right_mono mult_left_mono) auto
  also have "\<dots> \<le> m" unfolding m_def using lo B j1 by simp
  finally have ml: "B * (1 - j) * (1 - u) ^ 2 \<le> m" by (simp add: power2_eq_square mult_ac)
  have "fl64 (t + m) \<le> (t + m) * (1 + u)" using up t0 m0 by simp
  also have "\<dots> \<le> (B * (1 + u) ^ 2) * (1 + u)"
    using t m u by (intro mult_right_mono) (auto simp: algebra_simps)
  finally show "fl64 (t + m) \<le> B * (1 + u) ^ 3" by (simp add: power2_eq_square power3_eq_cube mult_ac)
  have "B * (1 - j) * (1 - u) ^ 2 * (1 - u) \<le> (t + m) * (1 - u)"
    using ml t0 u by (intro mult_right_mono) auto
  also have "\<dots> \<le> fl64 (t + m)" using lo t0 m0 by simp
  finally show "B * (1 - j) * (1 - u) ^ 3 \<le> fl64 (t + m)"
    by (simp add: power2_eq_square power3_eq_cube mult_ac)
qed

lemma jitter_margin:
  fixes B :: real
  assumes "0 \<le> B" "B \<le> 2 ^ 51"
  shows "B * (1 + 1 / 2 ^ 53) ^ 3 < B + 1" "0 \<le> x \<Longrightarrow> x \<le> B \<Longrightarrow> x - 1 < x * (1 - 1 / 2 ^ 53) ^ 3"
proof -
  have "B * ((1 + 1 / 2 ^ 53) ^ 3 - 1) \<le> 2 ^ 51 * ((1 + 1 / 2 ^ 53) ^ 3 - 1)"
    using assms by (intro mult_right_mono) simp_all
  also have "\<dots> < 1" by (simp add: power3_eq_cube)
  finally show "B * (1 + 1 / 2 ^ 53) ^ 3 < B + 1" by (simp add: right_diff_distrib)
  assume x: "0 \<le> x" "x \<le> B"
  have "x * (1 - (1 - 1 / 2 ^ 53) ^ 3) \<le> 2 ^ 51 * (1 - (1 - 1 / 2 ^ 53) ^ 3)"
    using assms x by (intro mult_right_mono) (simp_all add: power_le_one)
  also have "\<dots> < 1" by (simp add: power3_eq_cube)
  finally show "x - 1 < x * (1 - 1 / 2 ^ 53) ^ 3" by (simp add: right_diff_distrib)
qed

lemma applyJitter_bounds:
  assumes base: "0 \<le> base" "base \<le> 2 ^ 51" and j: "0 < jitter" and r: "0 \<le> r" "r < 1"
  shows "applyJitter base jitter r \<le> base"
    "0 \<le> applyJitter base jitter r"
    "of_int base * (1 - min jitter 1) - 2 < real_of_int (applyJitter base jitter r)"
proof -
  define j' where "j' = min jitter 1"
  define B :: real where "B = of_int base"
  have B: "fl64 (of_int base) = B" "0 \<le> B" "B \<le> 2 ^ 51"
    using base by (simp_all add: B_def fl64_of_int)
  have j': "0 \<le> j'" "j' \<le> 1" using j by (simp_all add: j'_def)
  define x where "x = fl64 (fl64 (fl64 (r * B) * j') + fl64 (B * fl64 (1 - j')))"
  have x: "x \<le> B * (1 + 1 / 2 ^ 53) ^ 3" "B * (1 - j') * (1 - 1 / 2 ^ 53) ^ 3 \<le> x"
    using jitter_sum_bounds [of B j' r] B j' r unfolding x_def by simp_all
  have "0 \<le> B * (1 - j') * (1 - 1 / 2 ^ 53) ^ 3" using B j' by simp
  with x have x0: "0 \<le> x" by linarith
  have lt: "x < B + 1" using x(1) jitter_margin(1) [of B] B by linarith
  have "B * (1 - j') \<le> B" using B j' by (simp add: mult_left_le)
  then have gt: "B * (1 - j') - 1 < x"
    using x(2) jitter_margin(2) [of B "B * (1 - j')"] B j' by simp
  have tr: "trunc x = \<lfloor>x\<rfloor>" "0 \<le> \<lfloor>x\<rfloor>" using x0 by (simp_all add: trunc_def)
  have le: "\<lfloor>x\<rfloor> \<le> base" using lt by (simp add: B_def floor_le_iff)
  then have "is_int64 \<lfloor>x\<rfloor>" using tr(2) base by (simp only: is_int64_def) (simp, linarith)
  moreover have "applyJitter base jitter r = int64_of_float x"
    using j by (simp add: applyJitter_def B x_def j'_def min_def Let_def)
  ultimately have eq: "applyJitter base jitter r = \<lfloor>x\<rfloor>"
    by (simp add: int64_of_float_def tr)
  show "applyJitter base jitter r \<le> base" "0 \<le> applyJitter base jitter r" using eq le tr by simp_all
  show "of_int base * (1 - min jitter 1) - 2 < real_of_int (applyJitter base jitter r)"
    unfolding eq using gt by (simp add: B_def j'_def) linarith
qed

text \<open>The value of \<open>fl64\<close> in a known binade, and at the top of the range of a duration.\<close>

lemma fl64_at:
  assumes "2 powr of_int k \<le> x" "x < 2 powr of_int (k + 1)"
  shows "fl64 x = of_int (rne (x / 2 powr of_int (k - 52))) * 2 powr of_int (k - 52)"
proof -
  have "0 < x" using assms(1) by (rule less_le_trans [rotated]) simp
  moreover have "\<lfloor>log 2 x\<rfloor> = k" using \<open>0 < x\<close> assms by (simp add: floor_log_eq_powr_iff)
  ultimately show ?thesis by (simp add: fl64_def)
qed

lemma fl64_MaxInt64: "fl64 (of_int MaxInt64) = 2 ^ 63"
proof -
  have "fl64 (of_int MaxInt64) = of_int (rne (of_int MaxInt64 / 2 ^ 10)) * 2 ^ 10"
    using fl64_at [of 62 "of_int MaxInt64"] by (simp add: MaxInt64_def)
  also have "rne (of_int MaxInt64 / 2 ^ 10) = 2 ^ 53"
  proof -
    have "\<lfloor>of_int MaxInt64 / 2 ^ 10 :: real\<rfloor> = 2 ^ 53 - 1" by (simp add: MaxInt64_def floor_eq_iff)
    then show ?thesis by (simp add: rne_def Let_def MaxInt64_def)
  qed
  finally show ?thesis by simp
qed

lemma fl64_below_one: "fl64 (1 - 1 / 2 ^ 60) = 1"
proof -
  have "fl64 (1 - 1 / 2 ^ 60) = of_int (rne ((1 - 1 / 2 ^ 60) * 2 ^ 53)) / 2 ^ 53"
    using fl64_at [of "-1" "1 - 1 / 2 ^ 60"] by (simp add: powr_minus_divide)
  also have "rne ((1 - 1 / 2 ^ 60) * 2 ^ 53) = 2 ^ 53"
  proof -
    have "\<lfloor>(1 - 1 / 2 ^ 60) * 2 ^ 53 :: real\<rfloor> = 2 ^ 53 - 1" by (simp add: floor_eq_iff)
    then show ?thesis by (simp add: rne_def Let_def)
  qed
  finally show ?thesis by simp
qed

lemma fl64_pow63: "fl64 (2 ^ 63) = 2 ^ 63"
  using fl64_at [of 63 "2 ^ 63"] rne_of_int [of "2 ^ 52"] by simp

section \<open>Properties\<close>

text \<open>
  C31: The exponential backoff of a positive delay is the delay doubled once per earlier attempt,
  for every attempt number, and stays at the largest 64-bit value from the first attempt at which
  that product no longer fits.
\<close>

theorem exponential_backoff_saturates:
  assumes "0 < d" "1 \<le> attemptsMade"
  shows "computeBackoffDelay (Some (ExponentialBackoff d)) attemptsMade = min MaxInt64 (d * 2 ^ nat (attemptsMade - 1))"
  by (rule computeBackoffDelay_exponential [of "ExponentialBackoff d", simplified ExponentialBackoff_def, simplified,
        folded ExponentialBackoff_def]) (use assms in simp_all)

theorem exponential_backoff_saturates_witness:
  "computeBackoffDelay (Some (ExponentialBackoff Second)) 40 = min MaxInt64 (Second * 2 ^ nat (40 - 1))"
  by (rule exponential_backoff_saturates) (simp_all add: Second_def)

text \<open>
  C32: With jitter, a backoff of up to 2 to the power 51 nanoseconds (26 days) never grows, never
  becomes negative, and is not cut below the share that the jitter fraction leaves, up to two
  nanoseconds of rounding; fractions above one count as one.
\<close>

theorem jitter_stays_in_range:
  assumes "0 \<le> base" "base \<le> 2 ^ 51" "0 < jitter" "0 \<le> r" "r < 1"
  shows "applyJitter base jitter r \<le> base \<and> 0 \<le> applyJitter base jitter r \<and>
    of_int base * (1 - min jitter 1) - 2 < real_of_int (applyJitter base jitter r)"
  using applyJitter_bounds [OF assms] by simp

theorem jitter_stays_in_range_witness:
  "applyJitter (3 * Second) (1 / 2) (1 / 4) \<le> 3 * Second \<and> 0 \<le> applyJitter (3 * Second) (1 / 2) (1 / 4) \<and>
    of_int (3 * Second) * (1 - min (1 / 2) 1) - 2 < real_of_int (applyJitter (3 * Second) (1 / 2) (1 / 4))"
  by (rule jitter_stays_in_range) (simp_all add: Second_def)

text \<open>
  Beyond that range the jitter can turn a delay around: the largest duration, to which the
  exponential backoff saturates, becomes \<open>2 ^ 63\<close> as a \<open>float64\<close>, and with a tiny fraction the sum is
  converted back to the least \<open>int64\<close>, a negative delay, which the retry path takes for a request
  to stop.  And the truncation can leave a nanosecond less than the share.
\<close>

lemma saturated_jitter_is_negative:
  "computeBackoffDelay (Some (ExponentialBackoffWithJitter Second (1 / 2 ^ 60))) 64 = MaxInt64"
  "applyJitter MaxInt64 (1 / 2 ^ 60) 0 = MinInt64"
proof -
  show "computeBackoffDelay (Some (ExponentialBackoffWithJitter Second (1 / 2 ^ 60))) 64 = MaxInt64"
    by (simp add: computeBackoffDelay_def ExponentialBackoffWithJitter_def wrap64_def MaxInt64_def go_arith)
  have "int64_of_float (2 ^ 63) = MinInt64" using trunc_of_int [of "2 ^ 63"] by (simp add: int64_of_float_def is_int64_def)
  then show "applyJitter MaxInt64 (1 / 2 ^ 60) 0 = MinInt64"
    using fl64_MaxInt64 fl64_below_one fl64_pow63 by (simp add: applyJitter_def Let_def)
qed
lemma jitter_truncates: "applyJitter 3 (1 / 2) 0 = 1"
  by code_simp

text \<open>
  A zero delay stays zero while the shift is below 63 and jumps to the largest 64-bit value after
  that, about 292 years: the shift is tested before the delay is looked at.
\<close>

theorem zero_delay_backoff_jumps:
  "computeBackoffDelay (Some (ExponentialBackoff 0)) 63 = 0 \<and> computeBackoffDelay (Some (ExponentialBackoff 0)) 64 = MaxInt64"
  by (simp add: computeBackoffDelay_def ExponentialBackoff_def wrap64_def MaxInt64_def go_arith)

end
