(* ===== verification/Json.thy ===== *)
theory Json
  imports Mkq_Prelude Go_Float
begin

text \<open>
  The part of \<open>encoding/json\<close> the code relies on: a parser for JSON text (on bytes, with the
  replacement of invalid UTF-8 and the nesting limit), the decoding of a value into the Go types
  the code uses as targets, and the encoder for strings and for slices of strings and integers.

  The parser takes fuel; \<open>json_parse\<close> gives it more than the length of the text, and the lemma
  \<open>jvalue_fuel\<close> shows that this is enough: more fuel never changes the answer.
\<close>

section \<open>Values and text\<close>

text \<open>A number keeps its literal, as \<open>json.Number\<close> and the integer decoders need it.\<close>

datatype json =
    JNull
  | JBool bool
  | JNum string
  | JStr string
  | JArr "json list"
  | JObj "(string \<times> json) list"

abbreviation byte :: "char \<Rightarrow> nat" where
  "byte c \<equiv> of_char c"

definition is_ws :: "char \<Rightarrow> bool" where
  "is_ws c \<longleftrightarrow> byte c \<in> {9, 10, 13, 32}"

definition skip_ws :: "string \<Rightarrow> string" where
  "skip_ws s = dropWhile is_ws s"

definition is_digit :: "char \<Rightarrow> bool" where
  "is_digit c \<longleftrightarrow> 48 \<le> byte c \<and> byte c \<le> 57"

text \<open>The length of the UTF-8 sequence at the head of the text; 0 when it is invalid.\<close>

definition cont :: "char \<Rightarrow> bool" where
  "cont c \<longleftrightarrow> 128 \<le> byte c \<and> byte c \<le> 191"

definition rune_len :: "string \<Rightarrow> nat" where
  "rune_len s = (case s of [] \<Rightarrow> 0 | c0 # r0 \<Rightarrow>
     let b0 = byte c0 in
     if b0 < 128 then 1
     else case r0 of [] \<Rightarrow> 0 | c1 # r1 \<Rightarrow>
       let b1 = byte c1 in
       if 194 \<le> b0 \<and> b0 \<le> 223 then (if cont c1 then 2 else 0)
       else case r1 of [] \<Rightarrow> 0 | c2 # r2 \<Rightarrow>
         if 224 \<le> b0 \<and> b0 \<le> 239 then
           (if cont c1 \<and> cont c2 \<and> (b0 = 224 \<longrightarrow> 160 \<le> b1) \<and> (b0 = 237 \<longrightarrow> b1 \<le> 159) then 3 else 0)
         else case r2 of [] \<Rightarrow> 0 | c3 # r3 \<Rightarrow>
           if 240 \<le> b0 \<and> b0 \<le> 244 then
             (if cont c1 \<and> cont c2 \<and> cont c3 \<and> (b0 = 240 \<longrightarrow> 144 \<le> b1) \<and> (b0 = 244 \<longrightarrow> b1 \<le> 143)
              then 4 else 0)
           else 0)"

definition replacement :: string where
  "replacement = [CHR 0xEF, CHR 0xBF, CHR 0xBD]"

definition utf8_encode :: "nat \<Rightarrow> string" where
  "utf8_encode r =
     (if r < 128 then [char_of r]
      else if r < 2048 then [char_of (192 + r div 64), char_of (128 + r mod 64)]
      else if 55296 \<le> r \<and> r < 57344 \<or> 1114112 \<le> r then replacement
      else if r < 65536 then
        [char_of (224 + r div 4096), char_of (128 + r div 64 mod 64), char_of (128 + r mod 64)]
      else [char_of (240 + r div 262144), char_of (128 + r div 4096 mod 64),
            char_of (128 + r div 64 mod 64), char_of (128 + r mod 64)])"

section \<open>Lexing\<close>

definition hex_val :: "char \<Rightarrow> nat option" where
  "hex_val c = (let b = byte c in
     if 48 \<le> b \<and> b \<le> 57 then Some (b - 48)
     else if 97 \<le> b \<and> b \<le> 102 then Some (b - 87)
     else if 65 \<le> b \<and> b \<le> 70 then Some (b - 55) else None)"

fun hex4 :: "string \<Rightarrow> (nat \<times> string) option" where
  "hex4 (a # b # c # d # r) =
     (case (hex_val a, hex_val b, hex_val c, hex_val d) of
        (Some a, Some b, Some c, Some d) \<Rightarrow> Some (((a * 16 + b) * 16 + c) * 16 + d, r)
      | _ \<Rightarrow> None)"
| "hex4 _ = None"

text \<open>After \<open>\u\<close>: a code unit, joined with a low surrogate that follows it.\<close>

definition lex_unicode :: "string \<Rightarrow> (string \<times> string) option" where
  "lex_unicode s = (case hex4 s of None \<Rightarrow> None | Some (u, r) \<Rightarrow>
     if 55296 \<le> u \<and> u < 57344 then
       (case r of
          a # b # r' \<Rightarrow>
            if a = CHR 0x5C \<and> b = CHR ''u'' then
              (case hex4 r' of
                 Some (v, r'') \<Rightarrow>
                   if u < 56320 \<and> 56320 \<le> v \<and> v < 57344
                   then Some (utf8_encode ((u - 55296) * 1024 + (v - 56320) + 65536), r'')
                   else Some (replacement, r)
               | None \<Rightarrow> Some (replacement, r))
            else Some (replacement, r)
        | _ \<Rightarrow> Some (replacement, r))
     else Some (utf8_encode u, r))"

definition simple_escape :: "char \<Rightarrow> char option" where
  "simple_escape c =
     map_of [(CHR 0x22, CHR 0x22), (CHR 0x5C, CHR 0x5C), (CHR ''/'', CHR ''/''), (CHR ''b'', CHR 0x08),
             (CHR ''f'', CHR 0x0C), (CHR ''n'', CHR 0x0A), (CHR ''r'', CHR 0x0D), (CHR ''t'', CHR 0x09)] c"

text \<open>One item of a string literal: the bytes it denotes and the rest of the text.\<close>

definition lex_char :: "string \<Rightarrow> (string \<times> string) option" where
  "lex_char s = (case s of [] \<Rightarrow> None | c # cs \<Rightarrow>
     if c = CHR 0x5C then
       (case cs of [] \<Rightarrow> None | e # r \<Rightarrow>
          if e = CHR ''u'' then lex_unicode r
          else case simple_escape e of Some x \<Rightarrow> Some ([x], r) | None \<Rightarrow> None)
     else if byte c < 32 then None
     else let n = rune_len s in if n = 0 then Some (replacement, cs) else Some (take n s, drop n s))"

lemma hex4_shorter: "hex4 s = Some (u, r) \<Longrightarrow> length r < length s"
  by (cases s rule: hex4.cases) (auto split: option.splits)

lemma lex_unicode_shorter: "lex_unicode s = Some (x, r) \<Longrightarrow> length r < length s"
  by (auto simp: lex_unicode_def split: option.splits prod.splits if_splits list.splits
      dest!: hex4_shorter)

lemma lex_char_shorter: "lex_char s = Some (x, r) \<Longrightarrow> length r < length s"
  by (auto simp: lex_char_def Let_def split: list.splits if_splits option.splits
      dest!: lex_unicode_shorter)

text \<open>The body of a string literal, after its opening quote.\<close>

function lex_string :: "string \<Rightarrow> (string \<times> string) option" where
  "lex_string s = (case s of [] \<Rightarrow> None | c # cs \<Rightarrow>
     if c = CHR 0x22 then Some ([], cs)
     else case lex_char s of None \<Rightarrow> None
       | Some (x, r) \<Rightarrow> map_option (\<lambda>(y, r'). (x @ y, r')) (lex_string r))"
  by pat_completeness auto
termination
  by (relation "measure length") (auto dest: lex_char_shorter)

declare lex_string.simps [simp del]

lemma lex_string_Nil [simp]: "lex_string [] = None"
  by (simp add: lex_string.simps)

lemma lex_string_quote [simp]: "lex_string (CHR 0x22 # cs) = Some ([], cs)"
  by (simp add: lex_string.simps)

lemma lex_string_char:
  "c \<noteq> CHR 0x22 \<Longrightarrow> lex_string (c # cs) = (case lex_char (c # cs) of None \<Rightarrow> None
     | Some (x, r) \<Rightarrow> map_option (\<lambda>(y, r'). (x @ y, r')) (lex_string r))"
  by (simp add: lex_string.simps [of "c # cs"])

lemma lex_string_shorter: "lex_string s = Some (x, r) \<Longrightarrow> length r < length s"
proof (induction s arbitrary: x r rule: lex_string.induct)
  case (1 s)
  show ?case
  proof (cases s)
    case Nil
    with "1.prems" show ?thesis by simp
  next
    case (Cons c cs)
    show ?thesis
    proof (cases "c = CHR 0x22")
      case True
      with "1.prems" Cons show ?thesis by simp
    next
      case False
      with "1.prems" Cons obtain a b y where
        lc: "lex_char s = Some (a, b)" and ls: "lex_string b = Some (y, r)"
        by (auto simp: lex_string_char split: option.splits)
      have "length r < length b" using "1.IH" [OF Cons False lc _ ls] by simp
      with lex_char_shorter [OF lc] show ?thesis by simp
    qed
  qed
qed

text \<open>The longest prefix that is a JSON number, in three parts.\<close>

definition lex_digits :: "string \<Rightarrow> string \<times> string" where
  "lex_digits s = (takeWhile is_digit s, dropWhile is_digit s)"

definition lex_int :: "string \<Rightarrow> (string \<times> string) option" where
  "lex_int s = (case s of [] \<Rightarrow> None | c # cs \<Rightarrow>
     if c = CHR ''0'' then Some ([c], cs)
     else if is_digit c then Some (lex_digits s) else None)"

definition lex_frac :: "string \<Rightarrow> (string \<times> string) option" where
  "lex_frac s = (case s of [] \<Rightarrow> Some ([], s) | c # cs \<Rightarrow>
     if c = CHR ''.'' then
       (case lex_digits cs of (ds, r) \<Rightarrow> if ds = [] then None else Some (c # ds, r))
     else Some ([], s))"

definition lex_exp :: "string \<Rightarrow> (string \<times> string) option" where
  "lex_exp s = (case s of [] \<Rightarrow> Some ([], s) | c # cs \<Rightarrow>
     if c = CHR ''e'' \<or> c = CHR ''E'' then
       (let (sg, cs) = (case cs of [] \<Rightarrow> ([], []) | d # ds \<Rightarrow>
              if d = CHR ''+'' \<or> d = CHR ''-'' then ([d], ds) else ([], cs))
        in case lex_digits cs of (ds, r) \<Rightarrow> if ds = [] then None else Some (c # sg @ ds, r))
     else Some ([], s))"

definition lex_number :: "string \<Rightarrow> (string \<times> string) option" where
  "lex_number s =
     (let (sg, r0) = (case s of c # cs \<Rightarrow> if c = CHR ''-'' then ([c], cs) else ([], s) | [] \<Rightarrow> ([], []))
      in case lex_int r0 of None \<Rightarrow> None | Some (i, r1) \<Rightarrow>
         case lex_frac r1 of None \<Rightarrow> None | Some (f, r2) \<Rightarrow>
         case lex_exp r2 of None \<Rightarrow> None | Some (x, r3) \<Rightarrow> Some (sg @ i @ f @ x, r3))"

section \<open>Parsing\<close>

definition max_depth :: nat where
  "max_depth = 10000"

fun jvalue :: "nat \<Rightarrow> nat \<Rightarrow> string \<Rightarrow> (json \<times> string) option"
  and jelems :: "nat \<Rightarrow> nat \<Rightarrow> string \<Rightarrow> (json list \<times> string) option"
  and jmembers :: "nat \<Rightarrow> nat \<Rightarrow> string \<Rightarrow> ((string \<times> json) list \<times> string) option" where
  "jvalue 0 d s = None"
| "jvalue (Suc n) d s = (case s of [] \<Rightarrow> None | c # cs \<Rightarrow>
     if c = CHR 0x22 then map_option (\<lambda>(x, r). (JStr x, r)) (lex_string cs)
     else if c = CHR ''['' then
       (if d \<ge> max_depth then None
        else let cs = skip_ws cs in
          if HasPrefix cs '']'' then Some (JArr [], tl cs)
          else map_option (\<lambda>(xs, r). (JArr xs, r)) (jelems n (Suc d) cs))
     else if c = CHR 0x7B then
       (if d \<ge> max_depth then None
        else let cs = skip_ws cs in
          if HasPrefix cs [CHR 0x7D] then Some (JObj [], tl cs)
          else map_option (\<lambda>(xs, r). (JObj xs, r)) (jmembers n (Suc d) cs))
     else if HasPrefix s ''null'' then Some (JNull, drop 4 s)
     else if HasPrefix s ''true'' then Some (JBool True, drop 4 s)
     else if HasPrefix s ''false'' then Some (JBool False, drop 5 s)
     else map_option (\<lambda>(x, r). (JNum x, r)) (lex_number s))"
| "jelems 0 d s = None"
| "jelems (Suc n) d s =
     (case jvalue n d s of None \<Rightarrow> None | Some (v, r) \<Rightarrow>
      case skip_ws r of [] \<Rightarrow> None | c # cs \<Rightarrow>
      if c = CHR '']'' then Some ([v], cs)
      else if c = CHR '','' then map_option (\<lambda>(vs, r'). (v # vs, r')) (jelems n d (skip_ws cs))
      else None)"
| "jmembers 0 d s = None"
| "jmembers (Suc n) d s =
     (case s of [] \<Rightarrow> None | q # s' \<Rightarrow>
      if q \<noteq> CHR 0x22 then None else
      case lex_string s' of None \<Rightarrow> None | Some (k, r) \<Rightarrow>
      case skip_ws r of [] \<Rightarrow> None | c # cs \<Rightarrow>
      if c \<noteq> CHR '':'' then None else
      case jvalue n d (skip_ws cs) of None \<Rightarrow> None | Some (v, r2) \<Rightarrow>
      case skip_ws r2 of [] \<Rightarrow> None | c2 # cs2 \<Rightarrow>
      if c2 = CHR 0x7D then Some ([(k, v)], cs2)
      else if c2 = CHR '','' then map_option (\<lambda>(vs, r'). ((k, v) # vs, r')) (jmembers n d (skip_ws cs2))
      else None)"

definition json_parse :: "string \<Rightarrow> json option" where
  "json_parse s = (case jvalue (2 * length s + 2) 0 (skip_ws s) of
       None \<Rightarrow> None
     | Some (v, r) \<Rightarrow> if skip_ws r = [] then Some v else None)"

section \<open>Decoding into Go values\<close>

text \<open>
  \<open>json.Unmarshal\<close> into a variable of a given type, from its old value; \<open>None\<close> is an error.
  The literal \<open>null\<close> leaves an integer, a boolean, a string or a float as it is.
\<close>

definition dec_int :: "int \<Rightarrow> json \<Rightarrow> int option" where
  "dec_int old v = (case v of JNull \<Rightarrow> Some old | JNum t \<Rightarrow> parse_decimal t | _ \<Rightarrow> None)"

definition dec_bool :: "bool \<Rightarrow> json \<Rightarrow> bool option" where
  "dec_bool old v = (case v of JNull \<Rightarrow> Some old | JBool b \<Rightarrow> Some b | _ \<Rightarrow> None)"

definition dec_string :: "string \<Rightarrow> json \<Rightarrow> string option" where
  "dec_string old v = (case v of JNull \<Rightarrow> Some old | JStr x \<Rightarrow> Some x | _ \<Rightarrow> None)"

text \<open>The value of a number literal, and \<open>strconv.ParseFloat\<close> on it.\<close>

definition num_real :: "string \<Rightarrow> real" where
  "num_real t =
     (let (neg, r0) = split_sign t;
          i = takeWhile is_digit r0; r1 = dropWhile is_digit r0;
          f = (case r1 of c # cs \<Rightarrow> if c = CHR ''.'' then takeWhile is_digit cs else [] | [] \<Rightarrow> []);
          r2 = (case r1 of c # cs \<Rightarrow> if c = CHR ''.'' then dropWhile is_digit cs else r1 | [] \<Rightarrow> []);
          e = (case r2 of [] \<Rightarrow> 0 | _ # cs \<Rightarrow>
                 let (eneg, ds) = split_sign cs; n = (case digits_val 0 ds of Some n \<Rightarrow> int n | None \<Rightarrow> 0)
                 in if eneg then - n else n);
          m = (case digits_val 0 (i @ f) of Some n \<Rightarrow> real n | None \<Rightarrow> 0);
          k = e - int (length f);
          x = (if 0 \<le> k then m * 10 ^ nat k else m / 10 ^ nat (- k))
      in if neg then - x else x)"

definition dec_float :: "real \<Rightarrow> json \<Rightarrow> real option" where
  "dec_float old v = (case v of
       JNull \<Rightarrow> Some old
     | JNum t \<Rightarrow> (let x = fl64 (num_real t) in if \<bar>x\<bar> < 2 ^ 1024 then Some x else None)
     | _ \<Rightarrow> None)"

text \<open>A pointer to an integer: \<open>null\<close> makes it nil.\<close>

definition dec_int_ptr :: "int option \<Rightarrow> json \<Rightarrow> int option option" where
  "dec_int_ptr old v = (case v of JNull \<Rightarrow> Some None | _ \<Rightarrow> map_option Some (dec_int 0 v))"

text \<open>A \<open>json.RawMessage\<close> takes any value; the model keeps the value instead of its text.\<close>

definition dec_raw :: "json option \<Rightarrow> json \<Rightarrow> json option option" where
  "dec_raw old v = Some (Some v)"

text \<open>A slice, which is nil or a list.\<close>

definition dec_slice :: "(json \<Rightarrow> 'a option) \<Rightarrow> json \<Rightarrow> 'a list option option" where
  "dec_slice elem v = (case v of
       JNull \<Rightarrow> Some None
     | JArr xs \<Rightarrow> map_option Some (those (map elem xs))
     | _ \<Rightarrow> None)"

text \<open>
  Struct fields are matched to object keys regardless of case; the two non-ASCII letters that
  fold to an ASCII one (long s and the Kelvin sign) are folded too.  Every occurrence of a key is
  decoded in turn, into the value the one before left.
\<close>

fun json_fold :: "string \<Rightarrow> string" where
  "json_fold [] = []"
| "json_fold (a # cs) =
     (if 97 \<le> byte a \<and> byte a \<le> 122 then char_of (byte a - 32) # json_fold cs
      else case cs of
          b # ds \<Rightarrow>
            if a = CHR 0xC5 \<and> b = CHR 0xBF then CHR ''S'' # json_fold ds
            else (case ds of
                c # es \<Rightarrow> if a = CHR 0xE2 \<and> b = CHR 0x84 \<and> c = CHR 0xAA then CHR ''K'' # json_fold es
                          else a # json_fold cs
              | [] \<Rightarrow> a # json_fold cs)
        | [] \<Rightarrow> [a])"

definition field_vals :: "string \<Rightarrow> (string \<times> json) list \<Rightarrow> json list" where
  "field_vals name kvs = map snd (filter (\<lambda>(k, _). json_fold k = json_fold name) kvs)"

fun dec_all :: "('a \<Rightarrow> json \<Rightarrow> 'a option) \<Rightarrow> 'a \<Rightarrow> json list \<Rightarrow> 'a option" where
  "dec_all dec old [] = Some old"
| "dec_all dec old (v # vs) = (case dec old v of None \<Rightarrow> None | Some x \<Rightarrow> dec_all dec x vs)"

definition dec_field :: "('a \<Rightarrow> json \<Rightarrow> 'a option) \<Rightarrow> 'a \<Rightarrow> string \<Rightarrow> (string \<times> json) list \<Rightarrow> 'a option" where
  "dec_field dec zero name kvs = dec_all dec zero (field_vals name kvs)"

text \<open>The members a struct target sees: those of an object, none for \<open>null\<close>, an error otherwise.\<close>

definition struct_members :: "json \<Rightarrow> (string \<times> json) list option" where
  "struct_members v = (case v of JObj kvs \<Rightarrow> Some kvs | JNull \<Rightarrow> Some [] | _ \<Rightarrow> None)"

section \<open>Encoding\<close>

definition hex_digit :: "nat \<Rightarrow> char" where
  "hex_digit n = (if n < 10 then char_of (48 + n) else char_of (87 + n))"

definition json_escape :: "char \<Rightarrow> string" where
  "json_escape c =
     (case map_of [(CHR 0x22, CHR 0x22), (CHR 0x5C, CHR 0x5C), (CHR 0x08, CHR ''b''), (CHR 0x0C, CHR ''f''),
                   (CHR 0x0A, CHR ''n''), (CHR 0x0D, CHR ''r''), (CHR 0x09, CHR ''t'')] c of
        Some e \<Rightarrow> [CHR 0x5C, e]
      | None \<Rightarrow>
          if byte c < 32 \<or> c = CHR ''<'' \<or> c = CHR ''>'' \<or> c = CHR ''&''
          then [CHR 0x5C, CHR ''u'', CHR ''0'', CHR ''0'', hex_digit (byte c div 16), hex_digit (byte c mod 16)]
          else [c])"

lemma rune_len_pos: "rune_len s \<noteq> 0 \<Longrightarrow> s \<noteq> []"
  by (auto simp: rune_len_def)

function json_body :: "string \<Rightarrow> string" where
  "json_body s = (case s of [] \<Rightarrow> [] | c # cs \<Rightarrow>
     if byte c < 128 then json_escape c @ json_body cs
     else let n = rune_len s in
       if n = 0 then CHR 0x5C # ''ufffd'' @ json_body cs
       else if take 3 s = [CHR 0xE2, CHR 0x80, CHR 0xA8] then CHR 0x5C # ''u2028'' @ json_body (drop n s)
       else if take 3 s = [CHR 0xE2, CHR 0x80, CHR 0xA9] then CHR 0x5C # ''u2029'' @ json_body (drop n s)
       else take n s @ json_body (drop n s))"
  by pat_completeness auto
termination
  by (relation "measure length") (auto dest: rune_len_pos)

declare json_body.simps [simp del]

definition json_string :: "string \<Rightarrow> string" where
  "json_string s = CHR 0x22 # json_body s @ [CHR 0x22]"

fun json_items :: "string list \<Rightarrow> string" where
  "json_items [] = []"
| "json_items [x] = x"
| "json_items (x # xs) = x @ CHR '','' # json_items xs"

definition json_slice :: "('a \<Rightarrow> string) \<Rightarrow> 'a list option \<Rightarrow> string" where
  "json_slice enc v = (case v of None \<Rightarrow> ''null'' | Some xs \<Rightarrow> ''['' @ json_items (map enc xs) @ '']'')"

section \<open>Lemmas: the fuel is enough\<close>

lemma length_skip_ws: "length (skip_ws s) \<le> length s"
  by (simp add: skip_ws_def length_dropWhile_le)

lemma lex_digits_shorter: "lex_digits s = (ds, r) \<Longrightarrow> length ds + length r = length s"
  by (auto simp: lex_digits_def simp flip: length_append)

lemma lex_int_shorter: "lex_int s = Some (x, r) \<Longrightarrow> length r < length s"
  by (auto simp: lex_int_def lex_digits_def length_dropWhile_le less_Suc_eq_le
      split: list.splits if_splits)

lemma lex_frac_shorter: "lex_frac s = Some (x, r) \<Longrightarrow> length r \<le> length s"
  by (auto simp: lex_frac_def split: list.splits if_splits prod.splits dest!: lex_digits_shorter)

lemma lex_exp_shorter: "lex_exp s = Some (x, r) \<Longrightarrow> length r \<le> length s"
  by (auto simp: lex_exp_def split: list.splits if_splits prod.splits dest!: lex_digits_shorter)

lemma lex_number_shorter: "lex_number s = Some (x, r) \<Longrightarrow> length r < length s"
  by (fastforce simp: lex_number_def split: list.splits if_splits prod.splits option.splits
      dest!: lex_int_shorter lex_frac_shorter lex_exp_shorter)

lemma HasPrefix_length: "HasPrefix s p \<Longrightarrow> length p \<le> length s"
  by (auto simp: HasPrefix_iff)

lemma jparse_shorter:
  "jvalue n d s = Some (v, r) \<Longrightarrow> length r < length s"
  "jelems n d s = Some (vs, r) \<Longrightarrow> length r < length s"
  "jmembers n d s = Some (ms, r) \<Longrightarrow> length r < length s"
proof (induction n d s and n d s and n d s arbitrary: v r and vs r and ms r
    rule: jvalue_jelems_jmembers.induct)
  case (2 n d s)
  note sh = lex_string_shorter lex_number_shorter HasPrefix_length
  obtain c cs where s: "s = c # cs" using "2.prems" by (cases s) auto
  have "length (tl (skip_ws cs)) < length s" using length_skip_ws [of cs] by (simp add: s)
  moreover have "length r < length s" if "length r < length (skip_ws cs)"
    using that length_skip_ws [of cs] by (simp add: s)
  ultimately show ?case
    using "2.prems" "2.IH" by (fastforce simp: s Let_def split: if_splits dest: sh)
next
  case (4 n d s)
  then obtain v1 r1 c cs where v: "jvalue n d s = Some (v1, r1)" and w: "skip_ws r1 = c # cs"
    by (auto split: option.splits list.splits)
  have "length r1 < length s" using "4.IH"(1) v by blast
  with w length_skip_ws [of r1] have cs: "length cs < length s" by simp
  have "length r < length s" if "length r < length (skip_ws cs)"
    using that length_skip_ws [of cs] cs by simp
  with "4.prems" "4.IH"(2) [OF v refl w] cs show ?case
    by (fastforce simp: v w split: if_splits)
next
  case (6 n d s)
  then obtain s' k r1 c cs where s: "s = CHR 0x22 # s'" and k: "lex_string s' = Some (k, r1)"
    and w: "skip_ws r1 = CHR '':'' # cs"
    by (auto split: option.splits list.splits if_splits)
  have 1: "length (skip_ws cs) < length s"
    using lex_string_shorter [OF k] length_skip_ws [of r1] length_skip_ws [of cs] by (simp add: s w)
  from "6.prems" s k w obtain v1 r2 c2 cs2 where v: "jvalue n d (skip_ws cs) = Some (v1, r2)"
    and w2: "skip_ws r2 = c2 # cs2"
    by (auto split: option.splits list.splits)
  have "length r2 < length (skip_ws cs)" using "6.IH"(1) s k w v by fastforce
  with 1 w2 length_skip_ws [of r2] have cs2: "length cs2 < length s" by simp
  have "length r < length s" if "length r < length (skip_ws cs2)"
    using that length_skip_ws [of cs2] cs2 by simp
  with "6.prems" "6.IH"(2) s k w v w2 cs2 show ?case
    by (fastforce split: if_splits)
qed simp_all

text \<open>The fuel is enough for texts of the lengths below: one more makes no difference.\<close>

definition fuel_ok :: "nat \<Rightarrow> bool" where
  "fuel_ok n \<longleftrightarrow> (\<forall>d s. 2 * length s + 1 \<le> n \<longrightarrow> jvalue (Suc n) d s = jvalue n d s) \<and>
     (\<forall>d s. 2 * length s + 2 \<le> n \<longrightarrow> jelems (Suc n) d s = jelems n d s) \<and>
     (\<forall>d s. 2 * length s + 2 \<le> n \<longrightarrow> jmembers (Suc n) d s = jmembers n d s)"

lemma fuel_okD:
  assumes "fuel_ok n"
  shows "2 * length s + 1 \<le> n \<Longrightarrow> jvalue (Suc n) d s = jvalue n d s"
    "2 * length s + 2 \<le> n \<Longrightarrow> jelems (Suc n) d s = jelems n d s"
    "2 * length s + 2 \<le> n \<Longrightarrow> jmembers (Suc n) d s = jmembers n d s"
  using assms by (simp_all add: fuel_ok_def)

lemma jvalue_fuel_Suc:
  assumes n: "fuel_ok n" and L: "2 * length s + 1 \<le> Suc n"
  shows "jvalue (Suc (Suc n)) d s = jvalue (Suc n) d s"
proof (cases s)
  case (Cons c cs)
  with L have "2 * length (skip_ws cs) + 2 \<le> n" using length_skip_ws [of cs] by simp
  note fuel_okD(2,3) [OF n this]
  then show ?thesis using Cons by (simp only: jvalue.simps list.case Let_def)
qed simp

lemma jelems_fuel_Suc:
  assumes n: "fuel_ok n" and L: "2 * length s + 2 \<le> Suc n"
  shows "jelems (Suc (Suc n)) d s = jelems (Suc n) d s"
proof -
  have v: "jvalue (Suc n) d s = jvalue n d s" using L by (intro fuel_okD(1) [OF n]) simp
  have "jelems (Suc n) d (skip_ws cs) = jelems n d (skip_ws cs)"
    if "jvalue n d s = Some (x, r)" "skip_ws r = c # cs" for x r c cs
    using jparse_shorter(1) [OF that(1)] length_skip_ws [of r] length_skip_ws [of cs] that(2) L
    by (intro fuel_okD(2) [OF n]) simp
  then show ?thesis by (simp only: jelems.simps v) (simp split: option.split list.split)
qed

lemma jmembers_fuel_Suc:
  assumes n: "fuel_ok n" and L: "2 * length s + 2 \<le> Suc n"
  shows "jmembers (Suc (Suc n)) d s = jmembers (Suc n) d s"
proof -
  have v: "jvalue (Suc n) d (skip_ws cs) = jvalue n d (skip_ws cs)"
    and m: "jvalue n d (skip_ws cs) = Some (x, r2) \<Longrightarrow> skip_ws r2 = c2 # cs2 \<Longrightarrow>
      jmembers (Suc n) d (skip_ws cs2) = jmembers n d (skip_ws cs2)"
    if "s = q # s'" "lex_string s' = Some (k, r)" "skip_ws r = c # cs" for q s' k r c cs x r2 c2 cs2
  proof -
    have cs: "length (skip_ws cs) + 2 \<le> length s"
      using lex_string_shorter [OF that(2)] length_skip_ws [of r] length_skip_ws [of cs] that(1,3) by simp
    with L show "jvalue (Suc n) d (skip_ws cs) = jvalue n d (skip_ws cs)" by (intro fuel_okD(1) [OF n]) simp
    assume "jvalue n d (skip_ws cs) = Some (x, r2)" "skip_ws r2 = c2 # cs2"
    then have "2 * length (skip_ws cs2) + 2 \<le> n"
      using jparse_shorter(1) length_skip_ws [of r2] length_skip_ws [of cs2] cs L by fastforce
    then show "jmembers (Suc n) d (skip_ws cs2) = jmembers n d (skip_ws cs2)" by (rule fuel_okD(3) [OF n])
  qed
  consider (none) "s = []" | (nolex) q s' where "s = q # s'" "lex_string s' = None"
    | (nows) q s' k r where "s = q # s'" "lex_string s' = Some (k, r)" "skip_ws r = []"
    | (colon) q s' k r c cs where "s = q # s'" "lex_string s' = Some (k, r)" "skip_ws r = c # cs"
    by (metis list.exhaust option.exhaust surj_pair)
  then show ?thesis
  proof cases
    case colon
    show ?thesis
    proof (cases "jvalue n d (skip_ws cs)")
      case None
      with colon v [OF colon] show ?thesis by (simp del: jvalue.simps)
    next
      case (Some xr)
      then obtain x r2 where xr: "jvalue n d (skip_ws cs) = Some (x, r2)" by (cases xr) auto
      with colon v [OF colon] m [OF colon xr] show ?thesis
        by (simp del: jvalue.simps jmembers.simps add: jmembers.simps(2) [of "Suc n"]
            jmembers.simps(2) [of n] split: list.split)
    qed
  qed simp_all
qed

lemma jparse_fuel: "fuel_ok n"
proof (induction n)
  case 0
  then show ?case by (simp add: fuel_ok_def)
next
  case (Suc n)
  then show ?case
    unfolding fuel_ok_def [of "Suc n"] by (blast intro: jvalue_fuel_Suc jelems_fuel_Suc jmembers_fuel_Suc)
qed

lemma jvalue_fuel:
  assumes "2 * length s + 1 \<le> n" "n \<le> m"
  shows "jvalue m d s = jvalue n d s"
  using assms(2,1)
proof (induction m rule: dec_induct)
  case (step m)
  then show ?case using jparse_fuel [of m, unfolded fuel_ok_def] by simp
qed simp

lemma jelems_fuel:
  assumes "2 * length s + 2 \<le> n" "n \<le> m"
  shows "jelems m d s = jelems n d s"
  using assms(2,1)
proof (induction m rule: dec_induct)
  case (step m)
  then show ?case using jparse_fuel [of m, unfolded fuel_ok_def] by simp
qed simp

section \<open>Lemmas: slices of integers and strings survive the round trip\<close>

declare jvalue.simps [simp del] jelems.simps [simp del] jmembers.simps [simp del]

lemma jelems_last:
  "jvalue n d s = Some (v, CHR '']'' # cs) \<Longrightarrow> jelems (Suc n) d s = Some ([v], cs)"
  by (simp add: jelems.simps skip_ws_def is_ws_def)

lemma jelems_more:
  "jvalue n d s = Some (v, CHR '','' # cs) \<Longrightarrow>
   jelems (Suc n) d s = map_option (\<lambda>(vs, r'). (v # vs, r')) (jelems n d (skip_ws cs))"
  by (simp add: jelems.simps skip_ws_def is_ws_def)

lemma jvalue_array:
  "d < max_depth \<Longrightarrow> skip_ws cs = h # t \<Longrightarrow> h \<noteq> CHR '']'' \<Longrightarrow>
   jvalue (Suc n) d (CHR ''['' # cs) = map_option (\<lambda>(xs, r). (JArr xs, r)) (jelems n (Suc d) (skip_ws cs))"
  by (simp add: jvalue.simps HasPrefix_def)

lemma is_digit_iff: "is_digit c \<longleftrightarrow> digit_val c \<noteq> None"
  by (simp add: is_digit_def digit_val_def Let_def)

lemma fmt_nat_digits: "c \<in> set (fmt_nat n) \<Longrightarrow> is_digit c"
  by (simp add: is_digit_iff set_fmt_nat)

lemma hd_fmt_nat_zero: "hd (fmt_nat n) = CHR ''0'' \<Longrightarrow> n = 0"
proof (induction n rule: fmt_nat.induct)
  case (1 n)
  show ?case
  proof (cases "n < 10")
    case True
    with "1.prems" have "of_char (char_of (48 + n) :: char) = (48 :: nat)"
      by (simp add: fmt_nat.simps [of n])
    with True show ?thesis by simp
  next
    case False
    with 1 have "n div 10 = 0" by (simp add: fmt_nat.simps [of n] hd_append)
    with False show ?thesis by simp
  qed
qed

lemma fmt_nat_0: "fmt_nat 0 = ''0''"
  by code_simp

lemma FormatInt_hd:
  obtains h t where "FormatInt x = h # t" "h = CHR ''-'' \<or> is_digit h"
proof (cases "FormatInt x")
  case Nil
  then show thesis by (simp add: FormatInt_def split: if_splits)
next
  case (Cons h t)
  then have "h = CHR ''-'' \<or> h \<in> set (fmt_nat (nat x))"
    by (auto simp: FormatInt_def split: if_splits)
  with Cons that show thesis by (blast intro: fmt_nat_digits)
qed

lemma lex_digits_fmt_nat:
  assumes "\<not> is_digit c"
  shows "lex_digits (fmt_nat n @ c # r) = (fmt_nat n, c # r)"
  using assms fmt_nat_digits by (auto simp: lex_digits_def takeWhile_append dropWhile_append)

lemma lex_int_fmt_nat:
  assumes "\<not> is_digit c"
  shows "lex_int (fmt_nat n @ c # r) = Some (fmt_nat n, c # r)"
proof (cases "n = 0")
  case True
  then show ?thesis by (simp add: lex_int_def fmt_nat_0)
next
  case False
  then obtain d ds where ds: "fmt_nat n = d # ds" "d \<noteq> CHR ''0''" "is_digit d"
    using hd_fmt_nat_zero [of n] fmt_nat_digits [of "hd (fmt_nat n)" n]
    by (cases "fmt_nat n") auto
  then have "lex_int (fmt_nat n @ c # r) = Some (lex_digits (fmt_nat n @ c # r))"
    by (simp add: lex_int_def)
  with lex_digits_fmt_nat [OF assms] show ?thesis by simp
qed

lemma lex_number_FormatInt:
  assumes "c = CHR '','' \<or> c = CHR '']''"
  shows "lex_number (FormatInt x @ c # r) = Some (FormatInt x, c # r)"
proof -
  have c: "\<not> is_digit c" "lex_frac (c # r) = Some ([], c # r)" "lex_exp (c # r) = Some ([], c # r)"
    using assms by (auto simp: is_digit_def lex_frac_def lex_exp_def)
  obtain d ds where ds: "fmt_nat (nat x) = d # ds" "d \<noteq> CHR ''-''"
    using hd_fmt_nat [of "nat x"] by (cases "fmt_nat (nat x)") auto
  show ?thesis
    using c lex_int_fmt_nat [OF c(1), of "nat x" r] lex_int_fmt_nat [OF c(1), of "nat (- x)" r]
    by (auto simp: lex_number_def FormatInt_def ds)
qed

lemma jvalue_FormatInt:
  assumes "c = CHR '','' \<or> c = CHR '']''"
  shows "jvalue (Suc n) d (FormatInt x @ c # r) = Some (JNum (FormatInt x), c # r)"
proof -
  obtain h t where h: "FormatInt x = h # t" "h = CHR ''-'' \<or> is_digit h"
    by (rule FormatInt_hd)
  then have "h \<notin> {CHR 0x22, CHR ''['', CHR 0x7B, CHR ''n'', CHR ''t'', CHR ''f''}"
    by (auto simp: is_digit_def)
  with h lex_number_FormatInt [OF assms, of x r] show ?thesis by (simp add: jvalue.simps HasPrefix_def)
qed

lemma skip_ws_no: "\<not> is_ws c \<Longrightarrow> skip_ws (c # cs) = c # cs"
  by (simp add: skip_ws_def)

text \<open>
  A slice parses when each of its items does, followed by a comma or the closing bracket, and
  starts with a character that is neither white space nor that bracket.
\<close>

lemma jelems_items:
  assumes item: "\<And>x c r n. x \<in> set xs \<Longrightarrow> c = CHR '','' \<or> c = CHR '']'' \<Longrightarrow>
      jvalue (Suc n) d (enc x @ c # r) = Some (val x, c # r)"
    and start: "\<And>x. x \<in> set xs \<Longrightarrow> \<exists>h t. enc x = h # t \<and> \<not> is_ws h \<and> h \<noteq> CHR '']''"
    and "xs \<noteq> []" "length xs < n"
  shows "jelems n d (json_items (map enc xs) @ CHR '']'' # r) = Some (map val xs, r)"
  using assms
proof (induction xs arbitrary: n rule: induct_list012)
  case (2 x)
  then obtain m where n: "n = Suc (Suc m)" by (cases n; cases "n - 1") auto
  have "jvalue (Suc m) d (enc x @ CHR '']'' # r) = Some (val x, CHR '']'' # r)"
    using "2.prems"(1) by simp
  from jelems_last [OF this] show ?case by (simp add: n)
next
  case (3 x y ys)
  then obtain m where n: "n = Suc (Suc m)" by (cases n; cases "n - 1") auto
  let ?rest = "json_items (map enc (y # ys)) @ CHR '']'' # r"
  obtain h t where "enc y = h # t" "\<not> is_ws h" using "3.prems"(2) [of y] by auto
  then have ws: "skip_ws ?rest = ?rest" by (cases ys) (simp_all add: skip_ws_no)
  have IH: "jelems (Suc m) d ?rest = Some (map val (y # ys), r)"
    using "3.prems" n by (intro "3.IH") simp_all
  have "jvalue (Suc m) d (enc x @ CHR '','' # ?rest) = Some (val x, CHR '','' # ?rest)"
    using "3.prems"(1) by simp
  from jelems_more [OF this] show ?case using IH ws by (simp add: n)
qed simp

lemma length_json_items: "length xs \<le> length (json_items (map enc xs))"
  if "\<And>x. x \<in> set xs \<Longrightarrow> enc x \<noteq> []"
  using that
proof (induction xs rule: induct_list012)
  case (2 x)
  then show ?case by (cases "enc x") auto
next
  case (3 x y ys)
  then show ?case by (cases "enc x") auto
qed simp

lemma json_parse_slice:
  assumes item: "\<And>x c r n. x \<in> set xs \<Longrightarrow> c = CHR '','' \<or> c = CHR '']'' \<Longrightarrow>
      jvalue (Suc n) 1 (enc x @ c # r) = Some (val x, c # r)"
    and start: "\<And>x. x \<in> set xs \<Longrightarrow> \<exists>h t. enc x = h # t \<and> \<not> is_ws h \<and> h \<noteq> CHR '']''"
  shows "json_parse (json_slice enc (Some xs)) = Some (JArr (map val xs))"
proof (cases "xs = []")
  case True
  moreover have "json_parse ''[]'' = Some (JArr [])" by code_simp
  ultimately show ?thesis by (simp add: json_slice_def)
next
  case False
  let ?b = "json_items (map enc xs) @ CHR '']'' # []"
  obtain x xs' where "xs = x # xs'" using False by (cases xs) auto
  then obtain h t where h: "json_items (map enc xs) = h # t" "\<not> is_ws h" "h \<noteq> CHR '']''"
    using start [of x] by (cases xs') auto
  then have ws: "skip_ws ?b = ?b" by (simp add: skip_ws_no)
  have "length xs \<le> length (json_items (map enc xs))"
    using start by (intro length_json_items) fastforce
  then have "length xs < 2 * length (CHR ''['' # ?b) + 1" by simp
  from jelems_items [OF item start False this]
  have el: "jelems (2 * length (CHR ''['' # ?b) + 1) 1 ?b = Some (map val xs, [])" by simp
  have "jvalue (Suc (2 * length (CHR ''['' # ?b) + 1)) 0 (CHR ''['' # ?b) = Some (JArr (map val xs), [])"
    using h el ws by (subst jvalue_array) (auto simp: max_depth_def)
  then show ?thesis
    by (simp add: json_parse_def json_slice_def skip_ws_def is_ws_def)
qed

lemma json_parse_ints: "json_parse (json_slice FormatInt (Some xs)) = Some (JArr (map (JNum \<circ> FormatInt) xs))"
proof (rule json_parse_slice [where val = "JNum \<circ> FormatInt"])
  fix x
  show "\<exists>h t. FormatInt x = h # t \<and> \<not> is_ws h \<and> h \<noteq> CHR '']''"
    by (rule FormatInt_hd [of x]) (auto simp: is_ws_def is_digit_def)
qed (simp add: jvalue_FormatInt)

text \<open>ASCII strings: every character is escaped to something the lexer reads back.\<close>

definition ascii :: "string \<Rightarrow> bool" where
  "ascii s \<longleftrightarrow> (\<forall>c \<in> set s. byte c < 128)"

lemma hex_val_digit: "n < 16 \<Longrightarrow> hex_val (hex_digit n) = Some n"
  by (auto simp: hex_val_def hex_digit_def Let_def)

lemma lex_unicode_ascii:
  "byte c < 128 \<Longrightarrow>
   lex_unicode (CHR ''0'' # CHR ''0'' # hex_digit (byte c div 16) # hex_digit (byte c mod 16) # r) = Some ([c], r)"
  by (simp add: lex_unicode_def hex_val_digit) (simp add: hex_val_def Let_def utf8_encode_def)

lemma lex_char_escape:
  assumes "byte c < 128"
  shows "lex_char (json_escape c @ r) = Some ([c], r)"
proof (cases "c \<in> {CHR 0x22, CHR 0x5C, CHR 0x08, CHR 0x0C, CHR 0x0A, CHR 0x0D, CHR 0x09}")
  case True
  then show ?thesis by (auto simp: json_escape_def lex_char_def simple_escape_def)
next
  case False
  then have esc: "json_escape c = (if byte c < 32 \<or> c = CHR ''<'' \<or> c = CHR ''>'' \<or> c = CHR ''&''
      then [CHR 0x5C, CHR ''u'', CHR ''0'', CHR ''0'', hex_digit (byte c div 16), hex_digit (byte c mod 16)]
      else [c])"
    by (simp add: json_escape_def)
  show ?thesis
    using False assms lex_unicode_ascii [OF assms, of r] unfolding esc
    by (auto simp: lex_char_def rune_len_def Let_def)
qed

lemma hd_json_escape: "\<exists>h t. json_escape c = h # t \<and> h \<noteq> CHR 0x22"
  by (auto simp: json_escape_def)

lemma json_body_ascii: "ascii s \<Longrightarrow> json_body s = concat (map json_escape s)"
proof (induction s)
  case Nil
  then show ?case by (simp add: json_body.simps)
next
  case (Cons c cs)
  then show ?case by (simp add: json_body.simps [of "c # cs"] ascii_def)
qed

lemma lex_string_escape:
  assumes "byte c < 128"
  shows "lex_string (json_escape c @ s) = map_option (\<lambda>(y, r'). (c # y, r')) (lex_string s)"
proof -
  obtain h t where h: "json_escape c = h # t" "h \<noteq> CHR 0x22" using hd_json_escape by blast
  with lex_char_escape [OF assms, of s] show ?thesis by (simp add: lex_string_char)
qed

lemma lex_string_body: "ascii s \<Longrightarrow> lex_string (json_body s @ CHR 0x22 # r) = Some (s, r)"
proof (induction s)
  case Nil
  then show ?case by (simp add: json_body_ascii)
next
  case (Cons c cs)
  then show ?case by (simp add: json_body_ascii ascii_def lex_string_escape)
qed

lemma json_parse_strings:
  assumes "list_all ascii xs"
  shows "json_parse (json_slice json_string (Some xs)) = Some (JArr (map JStr xs))"
proof (rule json_parse_slice)
  fix x c r n
  assume "x \<in> set xs"
  with assms have "ascii x" by (simp add: list_all_iff)
  then show "jvalue (Suc n) 1 (json_string x @ c # r) = Some (JStr x, c # r)"
    by (simp add: json_string_def jvalue.simps lex_string_body)
  show "\<exists>h t. json_string x = h # t \<and> \<not> is_ws h \<and> h \<noteq> CHR '']''"
    by (simp add: json_string_def is_ws_def)
qed

end
