(* ===== verification/JobOpts.thy ===== *)
theory JobOpts
  imports Backoff Json
begin

text \<open>
  What the worker and the inspectors read out of a job's HASH: the \<open>opts\<close> JSON
  (\<open>parseJobOpts\<close> and its polymorphic fields), the retry decision, the failure history, and the
  \<open>Job\<close> and \<open>JobState\<close> snapshots (\<open>worker.go\<close>, \<open>queue.go\<close>, \<open>job.go\<close>).
\<close>

section \<open>The opts JSON\<close>

record retentionLimit =
  rt_count :: "int option"
  rt_ageSeconds :: "int option"

record jobOpts =
  jo_attempts :: int
  jo_backoff :: "BackoffStrategy option"
  jo_lifo :: bool
  jo_removeOnComplete :: "retentionLimit option"
  jo_removeOnFail :: "retentionLimit option"

definition zero_jobOpts :: jobOpts where
  "zero_jobOpts = \<lparr>jo_attempts = 0, jo_backoff = None, jo_lifo = False, jo_removeOnComplete = None,
     jo_removeOnFail = None\<rparr>"

text \<open>A \<open>json.RawMessage\<close> field is \<open>None\<close> when the key is absent (length 0).\<close>

definition parseRemoveOpt :: "json option \<Rightarrow> retentionLimit option" where
  "parseRemoveOpt raw = (case raw of None \<Rightarrow> None | Some v \<Rightarrow>
     (if v = JNull \<or> v = JBool False then None
      else if v = JBool True then Some \<lparr>rt_count = Some 0, rt_ageSeconds = None\<rparr>
      else case dec_int 0 v of
          Some n \<Rightarrow> Some \<lparr>rt_count = Some n, rt_ageSeconds = None\<rparr>
        | None \<Rightarrow>
            (case struct_members v of None \<Rightarrow> None | Some kvs \<Rightarrow>
             case dec_field dec_int_ptr None ''count'' kvs of None \<Rightarrow> None | Some count \<Rightarrow>
             case dec_field dec_int_ptr None ''age'' kvs of None \<Rightarrow> None | Some age \<Rightarrow>
               if count \<noteq> None \<or> age \<noteq> None then Some \<lparr>rt_count = count, rt_ageSeconds = age\<rparr>
               else None)))"

definition parseBackoffOpt :: "json option \<Rightarrow> BackoffStrategy option" where
  "parseBackoffOpt raw = (case raw of None \<Rightarrow> None | Some v \<Rightarrow>
     (if v = JNull then None
      else case dec_int 0 v of
          Some ms \<Rightarrow> Some \<lparr>bs_Type = ''fixed'', bs_Delay = wrap64 (ms * Millisecond), bs_Jitter = 0\<rparr>
        | None \<Rightarrow>
            (case struct_members v of None \<Rightarrow> None | Some kvs \<Rightarrow>
             case dec_field dec_string [] ''type'' kvs of None \<Rightarrow> None | Some ty \<Rightarrow>
             case dec_field dec_int 0 ''delay'' kvs of None \<Rightarrow> None | Some ms \<Rightarrow>
             case dec_field dec_float 0 ''jitter'' kvs of None \<Rightarrow> None | Some jitter \<Rightarrow>
               if ty \<noteq> [] then
                 Some \<lparr>bs_Type = ty, bs_Delay = wrap64 (ms * Millisecond), bs_Jitter = jitter\<rparr>
               else None)))"

definition parseJobOpts :: "string \<Rightarrow> jobOpts" where
  "parseJobOpts raw =
     (if raw = [] \<or> raw = [CHR 0x7B, CHR 0x7D] then zero_jobOpts
      else case Option.bind (json_parse raw) struct_members of None \<Rightarrow> zero_jobOpts | Some kvs \<Rightarrow>
           case dec_field dec_int 0 ''attempts'' kvs of None \<Rightarrow> zero_jobOpts | Some attempts \<Rightarrow>
           case dec_field dec_bool False ''lifo'' kvs of None \<Rightarrow> zero_jobOpts | Some lifo \<Rightarrow>
           case dec_field dec_raw None ''backoff'' kvs of None \<Rightarrow> zero_jobOpts | Some backoff \<Rightarrow>
           case dec_field dec_raw None ''removeOnComplete'' kvs of None \<Rightarrow> zero_jobOpts | Some roc \<Rightarrow>
           case dec_field dec_raw None ''removeOnFail'' kvs of None \<Rightarrow> zero_jobOpts | Some rof \<Rightarrow>
             \<lparr>jo_attempts = attempts, jo_backoff = parseBackoffOpt backoff, jo_lifo = lifo,
              jo_removeOnComplete = parseRemoveOpt roc, jo_removeOnFail = parseRemoveOpt rof\<rparr>)"

section \<open>The retry decision\<close>

definition parseInt :: "string \<Rightarrow> int" where
  "parseInt s = (if s = [] then 0 else let (n, err) = Atoi s in if err then 0 else n)"

definition shouldRetry :: "jobOpts \<Rightarrow> int \<Rightarrow> goerr \<Rightarrow> bool" where
  "shouldRetry opts attemptsMade err =
     (if errors_Is err (Sentinel ErrUnrecoverable) then False
      else if jo_attempts opts \<le> 0 then False
      else wrap64 (attemptsMade + 1) < jo_attempts opts)"

section \<open>The failure history\<close>

definition attemptHistoryField :: string where
  "attemptHistoryField = ''mkqAttemptsAt''"

record failureHistory =
  fh_stacktrace :: string
  fh_attemptsAt :: string

text \<open>A Go slice that may be nil is an option of a list.\<close>

definition decodeJSONStrings :: "string \<Rightarrow> string list option" where
  "decodeJSONStrings raw =
     (if raw = [] then None
      else case Option.bind (json_parse raw) (dec_slice (dec_string [])) of None \<Rightarrow> None | Some out \<Rightarrow> out)"

definition decodeJSONInt64s :: "string \<Rightarrow> int list option" where
  "decodeJSONInt64s raw =
     (if raw = [] then None
      else case Option.bind (json_parse raw) (dec_slice (dec_int 0)) of None \<Rightarrow> None | Some out \<Rightarrow> out)"

definition slice_list :: "'a list option \<Rightarrow> 'a list" where
  "slice_list s = (case s of None \<Rightarrow> [] | Some xs \<Rightarrow> xs)"

definition go_append :: "'a list option \<Rightarrow> 'a \<Rightarrow> 'a list option" where
  "go_append s x = Some (slice_list s @ [x])"

definition buildFailureHistory :: "hash \<Rightarrow> string \<Rightarrow> failureHistory" where
  "buildFailureHistory jobMap reason =
     (let traces = go_append (decodeJSONStrings (hlookup jobMap ''stacktrace'')) reason;
          starts = decodeJSONInt64s (hlookup jobMap attemptHistoryField);
          (v, err) = ParseInt (hlookup jobMap ''processedOn'');
          starts = (if \<not> err \<and> v > 0 then go_append starts v else starts)
      in \<lparr>fh_stacktrace = json_slice json_string traces, fh_attemptsAt = json_slice FormatInt starts\<rparr>)"

section \<open>Snapshots\<close>

text \<open>
  Times are unix milliseconds; the zero \<open>time.Time\<close> is \<open>None\<close>.  The type of the payload is the
  user's: \<open>zero\<close> is its zero value and \<open>unmarshal\<close> its JSON decoder.
\<close>

record 't Job =
  j_ID :: string
  j_Name :: string
  j_Data :: 't
  j_Timestamp :: int
  j_AttemptsMade :: int
  j_AttemptsStarted :: int
  j_StalledCounter :: int
  j_ProcessedBy :: string

record JobState =
  js_ProcessedOn :: "int option"
  js_FinishedOn :: "int option"
  js_ReturnValue :: string
  js_FailedReason :: string
  js_Stacktrace :: "string list option"
  js_Progress :: string
  js_Opts :: string
  js_Delay :: int
  js_AttemptsAt :: "int list option"

definition buildJob :: "'t \<Rightarrow> (string \<Rightarrow> goerr + 't) \<Rightarrow> string \<Rightarrow> hash \<Rightarrow> goerr + 't Job" where
  "buildJob zero unmarshal jobID jobMap =
     (let raw = hlookup jobMap ''data'';
          mk = (\<lambda>data. \<lparr>j_ID = jobID, j_Name = hlookup jobMap ''name'', j_Data = data,
                 j_Timestamp = fst (ParseInt (hlookup jobMap ''timestamp'')),
                 j_AttemptsMade = parseInt (hlookup jobMap ''atm''),
                 j_AttemptsStarted = parseInt (hlookup jobMap ''ats''),
                 j_StalledCounter = parseInt (hlookup jobMap ''stc''),
                 j_ProcessedBy = hlookup jobMap ''pb''\<rparr>)
      in if raw = [] then Inr (mk zero)
         else case unmarshal raw of
             Inl err \<Rightarrow> Inl (errorf ''unmarshal data: '' err)
           | Inr data \<Rightarrow> Inr (mk data))"

definition buildJobState :: "hash \<Rightarrow> JobState" where
  "buildJobState hash =
     (let on = (\<lambda>f. let (v, err) = ParseInt (hlookup hash f) in if \<not> err \<and> v > 0 then Some v else None);
          (delay, derr) = ParseInt (hlookup hash ''delay'');
          st = hlookup hash ''stacktrace''
      in \<lparr>js_ProcessedOn = on ''processedOn'', js_FinishedOn = on ''finishedOn'',
          js_ReturnValue = hlookup hash ''returnvalue'', js_FailedReason = hlookup hash ''failedReason'',
          js_Stacktrace =
            (if st = [] then None
             else case Option.bind (json_parse st) (dec_slice (dec_string [])) of None \<Rightarrow> None | Some out \<Rightarrow> out),
          js_Progress = hlookup hash ''progress'', js_Opts = hlookup hash ''opts'',
          js_Delay = (if derr then 0 else delay),
          js_AttemptsAt = decodeJSONInt64s (hlookup hash attemptHistoryField)\<rparr>)"

section \<open>Lemmas\<close>

lemma those_map_id: "(\<And>x. x \<in> set xs \<Longrightarrow> f (g x) = Some x) \<Longrightarrow> those (map (f \<circ> g) xs) = Some xs"
  by (induction xs) simp_all

lemma json_slice_nonempty [simp]: "json_slice enc v \<noteq> []"
  by (simp add: json_slice_def split: option.split)

lemma decodeJSONStrings_slice:
  assumes "list_all ascii xs"
  shows "decodeJSONStrings (json_slice json_string (Some xs)) = Some xs"
proof -
  have "those (map (dec_string [] \<circ> JStr) xs) = Some xs"
    by (rule those_map_id) (simp add: dec_string_def)
  then show ?thesis
    using assms by (simp add: decodeJSONStrings_def json_parse_strings dec_slice_def)
qed

lemma decodeJSONInt64s_slice:
  assumes "list_all is_int64 xs"
  shows "decodeJSONInt64s (json_slice FormatInt (Some xs)) = Some xs"
proof -
  have "those (map (dec_int 0 \<circ> (JNum \<circ> FormatInt)) xs) = Some xs"
    using assms by (intro those_map_id) (simp add: dec_int_def list_all_iff decimal.dec_enc)
  then show ?thesis by (simp add: decodeJSONInt64s_def json_parse_ints dec_slice_def)
qed

lemma decodeJSONInt64s_nil: "decodeJSONInt64s (json_slice FormatInt None) = None"
proof -
  have "json_parse ''null'' = Some JNull" by code_simp
  then show ?thesis by (simp add: decodeJSONInt64s_def json_slice_def dec_slice_def)
qed

lemma those_in: "those (map f xs) = Some ys \<Longrightarrow> y \<in> set ys \<Longrightarrow> \<exists>x \<in> set xs. f x = Some y"
  by (induction xs arbitrary: ys) (auto split: option.splits)

lemma decodeJSONInt64s_int64: "x \<in> set (slice_list (decodeJSONInt64s raw)) \<Longrightarrow> is_int64 x"
proof -
  have dec: "dec_int 0 v = Some y \<Longrightarrow> is_int64 y" for v y
    using ParseInt_int64 by (auto simp: dec_int_def parse_decimal_def is_int64_def split: json.splits prod.splits if_splits)
      (metis fst_conv is_int64_def)+
  assume "x \<in> set (slice_list (decodeJSONInt64s raw))"
  then show ?thesis
    by (auto simp: decodeJSONInt64s_def slice_list_def dec_slice_def dest!: those_in intro: dec
        split: option.splits if_splits json.splits bind_splits)
qed

lemma FormatInt_nonempty [simp]: "FormatInt n \<noteq> []"
  by (simp add: FormatInt_def)

lemma parseInt_FormatInt: "is_int64 n \<Longrightarrow> parseInt (FormatInt n) = n"
  by (simp add: parseInt_def Atoi_def ParseInt_FormatInt)

lemma parseInt_int64: "is_int64 (parseInt s)"
  using ParseInt_int64 [of s] by (auto simp: parseInt_def Atoi_def is_int64_def split: prod.splits)

lemma shouldRetry_iff:
  assumes "is_int64 (n + 1)"
  shows "shouldRetry opts n err \<longleftrightarrow>
     \<not> errors_Is err (Sentinel ErrUnrecoverable) \<and> 0 < jo_attempts opts \<and> n + 1 < jo_attempts opts"
  using assms by (auto simp: shouldRetry_def wrap64_id)

section \<open>Lemmas: the failure history over several attempts\<close>

text \<open>
  One failed attempt as the hash sees it: \<open>processedOn\<close> was set when the attempt started, and the
  fields built by the worker are written back.
\<close>

definition recordFailure :: "hash \<Rightarrow> string \<times> int \<Rightarrow> hash" where
  "recordFailure h f =
     (let h = hset h ''processedOn'' (FormatInt (snd f)); hist = buildFailureHistory h (fst f)
      in hset (hset h ''stacktrace'' (fh_stacktrace hist)) attemptHistoryField (fh_attemptsAt hist))"

definition history :: "hash \<Rightarrow> string list \<times> int list" where
  "history h = (slice_list (decodeJSONStrings (hlookup h ''stacktrace'')),
     slice_list (decodeJSONInt64s (hlookup h attemptHistoryField)))"

lemma recordFailure_history:
  assumes "list_all ascii (fst (history h))" "ascii (fst f)" "0 < snd f" "is_int64 (snd f)"
  shows "history (recordFailure h f) = (fst (history h) @ [fst f], snd (history h) @ [snd f])"
proof -
  have i: "list_all is_int64 (snd (history h))"
    using decodeJSONInt64s_int64 by (auto simp: history_def list_all_iff)
  have n: "''processedOn'' \<noteq> ''stacktrace''" "''processedOn'' \<noteq> attemptHistoryField" "attemptHistoryField \<noteq> ''stacktrace''"
    by (simp_all add: attemptHistoryField_def)
  show ?thesis
    using assms i n unfolding history_def recordFailure_def buildFailureHistory_def Let_def
    by (simp add: go_append_def ParseInt_FormatInt decodeJSONStrings_slice decodeJSONInt64s_slice)
       (simp add: slice_list_def)
qed

definition failure_ok :: "string \<times> int \<Rightarrow> bool" where
  "failure_ok f \<longleftrightarrow> ascii (fst f) \<and> 0 < snd f \<and> is_int64 (snd f)"

lemma foldl_recordFailure:
  "list_all failure_ok fs \<Longrightarrow> list_all ascii (fst (history h)) \<Longrightarrow>
   history (foldl recordFailure h fs) = (fst (history h) @ map fst fs, snd (history h) @ map snd fs)"
proof (induction fs arbitrary: h)
  case (Cons f fs)
  then have "history (recordFailure h f) = (fst (history h) @ [fst f], snd (history h) @ [snd f])"
    by (intro recordFailure_history) (simp_all add: failure_ok_def)
  with Cons.IH [of "recordFailure h f"] Cons.prems show ?case by (simp add: failure_ok_def)
qed simp

lemma buildJobState_history:
  "js_Stacktrace (buildJobState h) = decodeJSONStrings (hlookup h ''stacktrace'')"
  "js_AttemptsAt (buildJobState h) = decodeJSONInt64s (hlookup h attemptHistoryField)"
  by (simp_all add: buildJobState_def decodeJSONStrings_def Let_def split: prod.split)

lemma slice_list_nonempty: "slice_list s = xs \<Longrightarrow> xs \<noteq> [] \<Longrightarrow> s = Some xs"
  by (cases s) (simp_all add: slice_list_def)

section \<open>Properties\<close>

text \<open>
  C34: Failures accumulate: whatever number of attempts fail one after the other on a job that had
  none, the worker's \<open>buildFailureHistory\<close> appends to what the earlier ones wrote, and the state
  read back by \<open>buildJobState\<close> lists every reason and every start time, in order.
\<close>

theorem failure_history_accumulates:
  assumes "hlookup h ''stacktrace'' = []" "hlookup h attemptHistoryField = []" "fs \<noteq> []" "list_all failure_ok fs"
  shows "js_Stacktrace (buildJobState (foldl recordFailure h fs)) = Some (map fst fs) \<and>
    js_AttemptsAt (buildJobState (foldl recordFailure h fs)) = Some (map snd fs)"
proof -
  have "history h = ([], [])"
    using assms(1,2) by (simp add: history_def decodeJSONStrings_def decodeJSONInt64s_def slice_list_def)
  then have "history (foldl recordFailure h fs) = (map fst fs, map snd fs)"
    using foldl_recordFailure [OF assms(4), of h] by simp
  then show ?thesis
    using assms(3) by (simp add: history_def buildJobState_history slice_list_nonempty)
qed

theorem failure_history_accumulates_witness:
  "js_Stacktrace (buildJobState (foldl recordFailure [] [(''timeout'', 5), (''refused'', 9)])) = Some [''timeout'', ''refused''] \<and>
   js_AttemptsAt (buildJobState (foldl recordFailure [] [(''timeout'', 5), (''refused'', 9)])) = Some [5, 9]"
proof -
  have "list_all failure_ok [(''timeout'', 5), (''refused'', 9)]" by code_simp
  from failure_history_accumulates [OF _ _ _ this, of "[]"] show ?thesis by (simp add: hlookup_def)
qed

text \<open>
  The retention option of foreign writers is read in every shape it comes in: \<open>true\<close> removes at
  once, \<open>false\<close> and \<open>null\<close> keep everything, a number is a count, an object gives count, age or
  both, and a string, an array or an empty object keeps everything.
\<close>

lemma parseRemoveOpt_shapes:
  assumes "is_int64 n" "is_int64 a"
  shows "parseRemoveOpt (Some (JBool True)) = Some \<lparr>rt_count = Some 0, rt_ageSeconds = None\<rparr> \<and>
    parseRemoveOpt (Some (JBool False)) = None \<and> parseRemoveOpt (Some JNull) = None \<and> parseRemoveOpt None = None \<and>
    parseRemoveOpt (Some (JNum (FormatInt n))) = Some \<lparr>rt_count = Some n, rt_ageSeconds = None\<rparr> \<and>
    parseRemoveOpt (Some (JObj [(''count'', JNum (FormatInt n)), (''age'', JNum (FormatInt a))])) =
      Some \<lparr>rt_count = Some n, rt_ageSeconds = Some a\<rparr> \<and>
    parseRemoveOpt (Some (JObj [(''age'', JNum (FormatInt a))])) = Some \<lparr>rt_count = None, rt_ageSeconds = Some a\<rparr> \<and>
    parseRemoveOpt (Some (JObj [])) = None \<and> parseRemoveOpt (Some (JStr s)) = None \<and> parseRemoveOpt (Some (JArr xs)) = None"
proof -
  have "parse_decimal (FormatInt n) = Some n" "parse_decimal (FormatInt a) = Some a"
    using assms by (simp_all add: decimal.dec_enc)
  moreover have "json_fold ''count'' \<noteq> json_fold ''age''" by code_simp
  ultimately show ?thesis
    by (simp add: parseRemoveOpt_def dec_int_def dec_int_ptr_def dec_field_def field_vals_def struct_members_def)
qed

text \<open>A backoff in milliseconds that does not fit into 64 bits of nanoseconds wraps to a negative delay.\<close>

theorem huge_backoff_wraps:
  "map_option bs_Delay (parseBackoffOpt (Some (JNum (FormatInt 9223372036855)))) = Some (- 9223372036854551616)"
proof -
  have "parse_decimal (FormatInt 9223372036855) = Some 9223372036855"
    by (rule decimal.dec_enc) (simp add: is_int64_def)
  then show ?thesis by (simp add: parseBackoffOpt_def dec_int_def wrap64_def Millisecond_def)
qed

end
