(* ===== verification/Proto.thy ===== *)
theory Proto
  imports Json Errors
begin

text \<open>
  \<open>internal/proto\<close>: the payloads handed to the Lua scripts.  A payload is a value tree
  (\<open>mval\<close>); the serialisation of a tree to bytes is the msgpack package's, so every encoder takes
  it as an argument (\<open>marshal\<close>).  A Go map is an association list built by assignments.
  \<open>pool.go\<close> is modelled with the contents of its pooled buffers.
\<close>

datatype mval =
    MNil
  | MBool bool
  | MInt int
  | MFloat real
  | MStr string
  | MArr "mval list"
  | MMap "(string \<times> mval) list"

type_synonym mmap = "(string \<times> mval) list"
type_synonym marshaller = "mval \<Rightarrow> goerr + string"

section \<open>args.go\<close>

record ParentRef =
  pr_ID :: string
  pr_QueueKey :: string

record AddArgs =
  aa_Prefix :: string
  aa_CustomID :: string
  aa_Name :: string
  aa_Timestamp :: int
  aa_ParentKey :: string
  aa_ParentDependencies :: string
  aa_Parent :: "ParentRef option"
  aa_RepeatJobKey :: string
  aa_DeduplicationKey :: string

definition nilOrString :: "string \<Rightarrow> mval" where
  "nilOrString s = (if s = [] then MNil else MStr s)"

definition parentToAny :: "ParentRef option \<Rightarrow> mval" where
  "parentToAny p = (case p of None \<Rightarrow> MNil
     | Some p \<Rightarrow> MMap [(''id'', MStr (pr_ID p)), (''queueKey'', MStr (pr_QueueKey p))])"

definition EncodeAddArgs :: "marshaller \<Rightarrow> AddArgs \<Rightarrow> goerr + string" where
  "EncodeAddArgs marshal a = marshal (MArr
     [MStr (aa_Prefix a), MStr (aa_CustomID a), MStr (aa_Name a), MInt (aa_Timestamp a),
      nilOrString (aa_ParentKey a), nilOrString (aa_ParentDependencies a), parentToAny (aa_Parent a),
      nilOrString (aa_RepeatJobKey a), nilOrString (aa_DeduplicationKey a)])"

section \<open>opts.go\<close>

record Deduplication =
  de_ID :: string
  de_TTLMillis :: int

record RetentionLimit =
  rl_Count :: "int option"
  rl_AgeSeconds :: "int option"

record PBackoff =
  pb_Type :: string
  pb_Delay :: int
  pb_Jitter :: real

record AddOpts =
  ao_Delay :: int
  ao_Priority :: int
  ao_Attempts :: int
  ao_Backoff :: "PBackoff option"
  ao_Lifo :: bool
  ao_RemoveOnComplete :: "RetentionLimit option"
  ao_RemoveOnFail :: "RetentionLimit option"
  ao_Deduplication :: "Deduplication option"

text \<open>\<open>None\<close> is the untyped nil that makes the callers omit the key.\<close>

definition encodeRetentionLimit :: "RetentionLimit option \<Rightarrow> mval option" where
  "encodeRetentionLimit r = (case r of None \<Rightarrow> None | Some r \<Rightarrow>
     (case rl_AgeSeconds r of
        Some a \<Rightarrow>
          if a \<le> 0 then map_option MInt (rl_Count r)
          else Some (MMap ((case rl_Count r of None \<Rightarrow> [] | Some c \<Rightarrow> [(''count'', MInt c)]) @ [(''age'', MInt a)]))
      | None \<Rightarrow> map_option MInt (rl_Count r)))"

definition put_if :: "bool \<Rightarrow> string \<Rightarrow> mval \<Rightarrow> mmap \<Rightarrow> mmap" where
  "put_if b k v m = (if b then hset m k v else m)"

definition put_opt :: "string \<Rightarrow> mval option \<Rightarrow> mmap \<Rightarrow> mmap" where
  "put_opt k v m = (case v of None \<Rightarrow> m | Some v \<Rightarrow> hset m k v)"

definition backoffToMap :: "PBackoff \<Rightarrow> mval" where
  "backoffToMap b = MMap (put_if (pb_Jitter b > 0) ''jitter'' (MFloat (pb_Jitter b))
     [(''type'', MStr (pb_Type b)), (''delay'', MInt (pb_Delay b))])"

definition dedupToMap :: "Deduplication option \<Rightarrow> mval option" where
  "dedupToMap d = (case d of None \<Rightarrow> None | Some d \<Rightarrow>
     if de_ID d = [] then None
     else Some (MMap (put_if (de_TTLMillis d > 0) ''ttl'' (MInt (de_TTLMillis d)) [(''id'', MStr (de_ID d))])))"

definition addOptsMap :: "AddOpts \<Rightarrow> mmap" where
  "addOptsMap opts =
     put_opt ''de'' (dedupToMap (ao_Deduplication opts))
     (put_opt ''removeOnFail'' (encodeRetentionLimit (ao_RemoveOnFail opts))
     (put_opt ''removeOnComplete'' (encodeRetentionLimit (ao_RemoveOnComplete opts))
     (put_if (ao_Lifo opts) ''lifo'' (MBool True)
     (put_opt ''backoff'' (map_option backoffToMap (ao_Backoff opts))
     (put_if (ao_Attempts opts \<noteq> 0) ''attempts'' (MInt (ao_Attempts opts))
     (put_if (ao_Priority opts \<noteq> 0) ''priority'' (MInt (ao_Priority opts))
     (put_if (ao_Delay opts \<noteq> 0) ''delay'' (MInt (ao_Delay opts)) [])))))))"

definition EncodeAddOpts :: "marshaller \<Rightarrow> AddOpts \<Rightarrow> goerr + string" where
  "EncodeAddOpts marshal opts = marshal (MMap (addOptsMap opts))"

section \<open>worker_args.go and finish_args.go\<close>

record MoveToActiveLimiter =
  li_Max :: int
  li_DurationMs :: int

record MoveToActiveOpts =
  ma_Token :: string
  ma_LockDuration :: int
  ma_Name :: string
  ma_Limiter :: "MoveToActiveLimiter option"

definition limiterToMap :: "MoveToActiveLimiter \<Rightarrow> mval" where
  "limiterToMap l = MMap [(''max'', MInt (li_Max l)), (''duration'', MInt (li_DurationMs l))]"

definition moveToActiveMap :: "MoveToActiveOpts \<Rightarrow> mmap" where
  "moveToActiveMap opts =
     put_opt ''limiter'' (map_option limiterToMap (ma_Limiter opts))
     (put_if (ma_Name opts \<noteq> []) ''name'' (MStr (ma_Name opts))
     [(''token'', MStr (ma_Token opts)), (''lockDuration'', MInt (ma_LockDuration opts))])"

definition EncodeMoveToActiveOpts :: "marshaller \<Rightarrow> MoveToActiveOpts \<Rightarrow> goerr + string" where
  "EncodeMoveToActiveOpts marshal opts = marshal (MMap (moveToActiveMap opts))"

record KeepJobs =
  kj_Count :: "int option"
  kj_Age :: int

record MoveToFinishedOpts =
  mf_Token :: string
  mf_LockDuration :: int
  mf_Attempts :: int
  mf_KeepJobs :: "KeepJobs option"
  mf_Name :: string
  mf_Limiter :: "MoveToActiveLimiter option"
  mf_MaxMetricsSize :: int

definition keepJobsMap :: "KeepJobs option \<Rightarrow> mmap" where
  "keepJobsMap k = (case k of None \<Rightarrow> [] | Some k \<Rightarrow>
     put_if (kj_Age k > 0) ''age'' (MInt (kj_Age k))
     (put_opt ''count'' (map_option MInt (kj_Count k)) []))"

definition moveToFinishedMap :: "MoveToFinishedOpts \<Rightarrow> mmap" where
  "moveToFinishedMap opts =
     (let maxMetricsSize = (if mf_MaxMetricsSize opts > 0 then FormatInt (mf_MaxMetricsSize opts) else []);
          m = [(''token'', MStr (mf_Token opts)), (''lockDuration'', MInt (mf_LockDuration opts)),
               (''attempts'', MInt (mf_Attempts opts)), (''keepJobs'', MMap (keepJobsMap (mf_KeepJobs opts))),
               (''maxMetricsSize'', MStr maxMetricsSize)];
          m = put_if (mf_Name opts \<noteq> []) ''name'' (MStr (mf_Name opts)) m
      in case mf_Limiter opts of
           Some l \<Rightarrow> put_if (li_Max l > 0 \<and> li_DurationMs l > 0) ''limiter'' (limiterToMap l) m
         | None \<Rightarrow> m)"

definition EncodeMoveToFinishedOpts :: "marshaller \<Rightarrow> MoveToFinishedOpts \<Rightarrow> goerr + string" where
  "EncodeMoveToFinishedOpts marshal opts = marshal (MMap (moveToFinishedMap opts))"

definition errOddJobFields :: goerr where
  "errOddJobFields = PlainErr ''proto: EncodeJobFields requires an even number of arguments''"

text \<open>No pairs encode to the nil slice, here the empty byte string.\<close>

definition EncodeJobFields :: "marshaller \<Rightarrow> mval list \<Rightarrow> goerr + string" where
  "EncodeJobFields marshal pairs =
     (if length pairs mod 2 \<noteq> 0 then Inl errOddJobFields
      else if pairs = [] then Inr []
      else marshal (MArr pairs))"

section \<open>schedule\_args.go\<close>

record ScheduleOpts =
  so_Name :: string
  so_EveryMs :: int
  so_Pattern :: string
  so_TZ :: string
  so_StartDate :: int
  so_EndDate :: int
  so_Limit :: int

record ScheduleTemplateOpts =
  st_RemoveOnComplete :: "RetentionLimit option"
  st_RemoveOnFail :: "RetentionLimit option"
  st_Extra :: mmap

text \<open>The fields both schedule encoders write, on top of a start map.\<close>

definition scheduleFields :: "ScheduleOpts \<Rightarrow> mmap \<Rightarrow> mmap" where
  "scheduleFields opts m =
     put_if (so_Limit opts > 0) ''limit'' (MInt (so_Limit opts))
     (put_if (so_EndDate opts > 0) ''endDate'' (MInt (so_EndDate opts))
     (put_if (so_StartDate opts > 0) ''startDate'' (MInt (so_StartDate opts))
     (put_if (so_TZ opts \<noteq> []) ''tz'' (MStr (so_TZ opts))
     (put_if (so_Pattern opts \<noteq> []) ''pattern'' (MStr (so_Pattern opts))
     (put_if (so_EveryMs opts > 0) ''every'' (MInt (so_EveryMs opts)) m)))))"

definition EncodeScheduleOpts :: "marshaller \<Rightarrow> ScheduleOpts \<Rightarrow> goerr + string" where
  "EncodeScheduleOpts marshal opts = marshal (MMap (scheduleFields opts [(''name'', MStr (so_Name opts))]))"

definition toMap :: "ScheduleTemplateOpts \<Rightarrow> mmap" where
  "toMap t = put_opt ''removeOnFail'' (encodeRetentionLimit (st_RemoveOnFail t))
     (put_opt ''removeOnComplete'' (encodeRetentionLimit (st_RemoveOnComplete t)) (st_Extra t))"

definition EncodeScheduleTemplateOpts :: "marshaller \<Rightarrow> ScheduleTemplateOpts \<Rightarrow> goerr + string" where
  "EncodeScheduleTemplateOpts marshal t = marshal (MMap (toMap t))"

definition delayedOptsMap :: "ScheduleOpts \<Rightarrow> ScheduleTemplateOpts \<Rightarrow> mmap" where
  "delayedOptsMap opts t = hset (toMap t) ''repeat'' (MMap (scheduleFields opts []))"

definition EncodeScheduleDelayedOpts ::
  "marshaller \<Rightarrow> ScheduleOpts \<Rightarrow> ScheduleTemplateOpts \<Rightarrow> goerr + string" where
  "EncodeScheduleDelayedOpts marshal opts t = marshal (MMap (delayedOptsMap opts t))"

text \<open>A decoded JSON object is a Go map: of two equal keys the later one counts.\<close>

fun hset_all :: "('k \<times> 'v) list \<Rightarrow> ('k \<times> 'v) list \<Rightarrow> ('k \<times> 'v) list" where
  "hset_all m [] = m"
| "hset_all m ((k, v) # kvs) = hset_all (hset m k v) kvs"

definition normaliseNumber :: "string \<Rightarrow> mval" where
  "normaliseNumber t = (case parse_decimal t of
       Some i \<Rightarrow> MInt i
     | None \<Rightarrow> (case dec_float 0 (JNum t) of Some f \<Rightarrow> MFloat f | None \<Rightarrow> MStr t))"

fun normaliseJSONNumbers :: "json \<Rightarrow> mval" where
  "normaliseJSONNumbers JNull = MNil"
| "normaliseJSONNumbers (JBool b) = MBool b"
| "normaliseJSONNumbers (JNum t) = normaliseNumber t"
| "normaliseJSONNumbers (JStr s) = MStr s"
| "normaliseJSONNumbers (JArr xs) = MArr (map normaliseJSONNumbers xs)"
| "normaliseJSONNumbers (JObj kvs) = MMap (hset_all [] (map (map_prod id normaliseJSONNumbers) kvs))"

text \<open>
  The decoder reads one value and does not look at what follows it.  The result is the template
  and whether an error was returned beside it.
\<close>

definition DecodeScheduleTemplateOpts :: "string \<Rightarrow> ScheduleTemplateOpts \<times> goerr option" where
  "DecodeScheduleTemplateOpts raw =
     (let zero = \<lparr>st_RemoveOnComplete = None, st_RemoveOnFail = None, st_Extra = []\<rparr>;
          bad = PlainErr ''decode scheduler template opts''
      in if raw = [] \<or> raw = [CHR 0x7B, CHR 0x7D] then (zero, None)
         else case jvalue (2 * length raw + 2) 0 (skip_ws raw) of
             Some (JObj kvs, _) \<Rightarrow>
               (zero\<lparr>st_Extra := (case normaliseJSONNumbers (JObj kvs) of MMap m \<Rightarrow> m | _ \<Rightarrow> [])\<rparr>, None)
           | Some (JNull, _) \<Rightarrow> (zero, None)
           | _ \<Rightarrow> (zero, Some bad))"

section \<open>pool.go\<close>

record pooledEncoder =
  pe_buf :: string
  pe_cap :: nat

definition shrinkCap :: nat where
  "shrinkCap = 4096"

text \<open>
  \<open>sync.Pool.Get\<close> hands out any pooled encoder or a new one: \<open>pick\<close> says which.  \<open>growth\<close> is
  the capacity of a \<open>bytes.Buffer\<close> after a write, given its capacity before and its new length;
  \<open>written\<close> is what the callback writes, with the error it returns.
\<close>

definition newPooled :: pooledEncoder where
  "newPooled = \<lparr>pe_buf = [], pe_cap = 256\<rparr>"

definition pool_get :: "nat \<Rightarrow> pooledEncoder list \<Rightarrow> pooledEncoder \<times> pooledEncoder list" where
  "pool_get pick pool =
     (if pick < length pool then (pool ! pick, take pick pool @ drop (Suc pick) pool)
      else (newPooled, pool))"

definition encodeMsgpack ::
  "(nat \<Rightarrow> nat \<Rightarrow> nat) \<Rightarrow> nat \<Rightarrow> string \<times> goerr option \<Rightarrow> pooledEncoder list \<Rightarrow>
   (goerr + string) \<times> pooledEncoder list" where
  "encodeMsgpack growth pick written pool =
     (let (pe, rest) = pool_get pick pool;
          buf = pe_buf pe @ fst written;
          cap = growth (pe_cap pe) (length buf);
          res = (case snd written of Some e \<Rightarrow> Inl e | None \<Rightarrow> Inr buf);
          pool' = (if cap > shrinkCap then rest else \<lparr>pe_buf = [], pe_cap = cap\<rparr> # rest)
      in (res, pool'))"

section \<open>Lemmas\<close>

lemma map_of_put_if [simp]:
  "map_of (put_if b k v m) = (if b then (map_of m)(k \<mapsto> v) else map_of m)"
  by (simp add: put_if_def)

lemma map_of_put_opt [simp]:
  "map_of (put_opt k v m) = (case v of None \<Rightarrow> map_of m | Some v \<Rightarrow> (map_of m)(k \<mapsto> v))"
  by (simp add: put_opt_def split: option.split)

lemma map_of_scheduleFields_name [simp]:
  "map_of (scheduleFields opts m) ''name'' = map_of m ''name''"
  by (simp add: scheduleFields_def)

definition pool_inv :: "pooledEncoder list \<Rightarrow> bool" where
  "pool_inv pool \<longleftrightarrow> (\<forall>pe \<in> set pool. pe_buf pe = [] \<and> pe_cap pe \<le> shrinkCap)"

lemma pool_get_inv:
  assumes "pool_inv pool" "pool_get pick pool = (pe, rest)"
  shows "pe_buf pe = []" "pool_inv rest"
proof -
  have sub: "set (take pick pool @ drop (Suc pick) pool) \<subseteq> set pool"
    by (auto dest: in_set_takeD in_set_dropD)
  with assms(2) have "set rest \<subseteq> set pool" "pe \<in> set pool \<or> pe = newPooled"
    by (auto simp: pool_get_def split: if_splits)
  with assms(1) show "pe_buf pe = []" "pool_inv rest"
    unfolding pool_inv_def by (auto simp: newPooled_def)
qed

lemma encodeMsgpack_spec:
  assumes "pool_inv pool"
  shows "fst (encodeMsgpack growth pick (w, e) pool) = (case e of Some e \<Rightarrow> Inl e | None \<Rightarrow> Inr w)"
    "pool_inv (snd (encodeMsgpack growth pick (w, e) pool))"
proof -
  obtain pe rest where g: "pool_get pick pool = (pe, rest)" by fastforce
  note i = pool_get_inv [OF assms g]
  show "fst (encodeMsgpack growth pick (w, e) pool) = (case e of Some e \<Rightarrow> Inl e | None \<Rightarrow> Inr w)"
    using i(1) by (cases e) (simp_all add: encodeMsgpack_def g Let_def)
  show "pool_inv (snd (encodeMsgpack growth pick (w, e) pool))"
    using i by (auto simp: encodeMsgpack_def g pool_inv_def Let_def)
qed

text \<open>A sequence of calls on one pool, each with its own pick and its own output.\<close>

fun encodeSeq :: "(nat \<Rightarrow> nat \<Rightarrow> nat) \<Rightarrow> (nat \<times> string \<times> goerr option) list \<Rightarrow> pooledEncoder list \<Rightarrow>
   (goerr + string) list" where
  "encodeSeq growth [] pool = []"
| "encodeSeq growth ((pick, written) # cs) pool =
     (let (res, pool') = encodeMsgpack growth pick written pool in res # encodeSeq growth cs pool')"

lemma encodeSeq_inv:
  "pool_inv pool \<Longrightarrow> encodeSeq growth cs pool = map (\<lambda>(_, w, e). case e of Some e \<Rightarrow> Inl e | None \<Rightarrow> Inr w) cs"
proof (induction growth cs pool rule: encodeSeq.induct)
  case (2 growth pick written cs pool)
  obtain w e where w: "written = (w, e)" by fastforce
  from encodeMsgpack_spec [OF 2(2), of growth pick w e] 2(1) w show ?case
    by (auto simp: Let_def split: prod.splits)
qed simp

section \<open>Properties\<close>

text \<open>
  C36: Pooled encoders never leak bytes from one payload into another: over any sequence of calls,
  whichever encoders the pool hands out, however the buffers grow and whichever calls fail, each
  call returns exactly what its own callback wrote, or its own error.
\<close>

theorem pooled_encoders_do_not_leak:
  "encodeSeq growth cs [] = map (\<lambda>(_, w, e). case e of Some e \<Rightarrow> Inl e | None \<Rightarrow> Inr w) cs"
  by (rule encodeSeq_inv) (simp add: pool_inv_def)

text \<open>
  A schedule's template survives rescheduling: in the options of the next iteration every field
  of the template that is not typed keeps its value, the typed retention limits override it, and
  \<open>repeat\<close> is always the freshly built block.
\<close>

lemma delayed_opts_keep_template:
  "map_of (delayedOptsMap opts t) = (\<lambda>k.
     if k = ''repeat'' then Some (MMap (scheduleFields opts []))
     else if k = ''removeOnFail'' \<and> encodeRetentionLimit (st_RemoveOnFail t) \<noteq> None then encodeRetentionLimit (st_RemoveOnFail t)
     else if k = ''removeOnComplete'' \<and> encodeRetentionLimit (st_RemoveOnComplete t) \<noteq> None
       then encodeRetentionLimit (st_RemoveOnComplete t)
     else map_of (st_Extra t) k)"
  by (rule ext) (auto simp: delayedOptsMap_def toMap_def split: option.split)

end
