(* ===== verification/Env.thy ===== *)
theory Env
  imports JobOpts Proto "HOL-Library.Monad_Syntax"
begin

text \<open>
  The world the code runs in.  Everything the code asks of the outside (Redis through the
  driver, the clock, random numbers, contexts, the user's handler) is a field of the \<open>services\<close>
  record: a function on an external state of arbitrary type.  A Redis round trip is a
  \<open>command\<close>; what other clients and other goroutines do between two calls is part of the
  external state.  The \<open>world\<close> pairs the external state with the table of loaded Lua scripts and
  with the trace of what the code did, and the operations of the components are state monad
  actions on it.

  A user callback that panics is a value of \<open>outcome\<close>; the driver's dynamically typed replies
  are values of \<open>gval\<close>.
\<close>

section \<open>Dynamic values and commands\<close>

datatype gval =
    GNil
  | GInt64 int
  | GInt int
  | GInt32 int
  | GFloat real
  | GStr string
  | GBytes string
  | GArr "gval list"
  | GErr goerr
  | GOther string

text \<open>
  \<open>GErr\<close> only occurs in the reply of a pipeline, as the error of one of its commands.
\<close>

text \<open>The context a call is made with: it decides what can cancel the call.\<close>

datatype ctx = Background | RunCtx | Timeout duration | CallerCtx

datatype command =
    EvalSha ctx string "string list" "gval list"
  | ScriptLoad ctx string
  | Ping ctx
  | HGet ctx string string
  | HMGet ctx string "string list"
  | HGetAll ctx string
  | HExists ctx string string
  | HSetNX ctx string string string
  | SAdd ctx string string
  | SMembers ctx string
  | GetCmd ctx string
  | LLen ctx string
  | LRange ctx string int int
  | XRead ctx string string
  | ZAdd ctx string "(string \<times> int) list"
  | ZRemCmd ctx string string
  | ZRangeWithScores ctx string int int
  | DelCmd ctx "string list"
  | BZPopMin ctx duration "string list"
  | ScanCmd ctx nat nat string int \<comment> \<open>node, cursor, pattern, count\<close>
  | Pipeline "command list"
  | CloseConn \<comment> \<open>the driver's \<open>Close\<close>: the connection pool is released\<close>

type_synonym attrs = "(string \<times> string) list"

datatype level = LDebug | LInfo | LWarn | LError

datatype event =
    ScriptCall ctx string "string list" "gval list" \<comment> \<open>a call of \<open>Scripter.Run\<close>\<close>
  | ScriptReply string "goerr + gval"                \<comment> \<open>what that call returned\<close>
  | Cmd command "goerr + gval"                       \<comment> \<open>a command sent to Redis, and its reply\<close>
  | Log level string attrs
  | CounterAdd string real attrs
  | GaugeAdd string real attrs
  | HistogramObserve string attrs
  | SpanStart string attrs
  | SpanSetAttrs attrs
  | SpanSetError goerr
  | SpanEnd
  | HandlerCall string                               \<comment> \<open>the user's handler runs on this job\<close>
  | Sleep duration

section \<open>Services and world\<close>

text \<open>A \<open>time.Time\<close> is its nanoseconds since the epoch; \<open>Time.UnixMilli\<close> and \<open>time.UnixMilli\<close>.\<close>

type_synonym gotime = int

definition UnixMilli :: "gotime \<Rightarrow> int" where
  "UnixMilli t = t div 1000000"

definition fromUnixMilli :: "int \<Rightarrow> gotime" where
  "fromUnixMilli ms = ms * 1000000"

text \<open>
  The cron package and the time zone database: a parsed pattern is its \<open>Next\<close> function, a
  location its name.
\<close>

record cron_lib =
  cl_parse :: "string \<Rightarrow> goerr + (string \<Rightarrow> gotime \<Rightarrow> gotime)"
  cl_load :: "string \<Rightarrow> goerr + string"

record 's world =
  ext :: 's
  loaded :: "(string \<times> string) list"
  trace :: "event list"

record ('s, 't) services =
  sv_redis :: "command \<Rightarrow> 's \<Rightarrow> (goerr + gval) \<times> 's"
  sv_now :: "'s \<Rightarrow> gotime \<times> 's"
  sv_uuid :: "'s \<Rightarrow> string \<times> 's"
  sv_rng :: "'s \<Rightarrow> real \<times> 's"
  sv_runDone :: "'s \<Rightarrow> bool \<times> 's"
  sv_jobsDone :: "'s \<Rightarrow> bool \<times> 's"
  sv_timer :: "duration \<Rightarrow> 's \<Rightarrow> bool \<times> 's"
  sv_ticks :: "duration \<Rightarrow> 's \<Rightarrow> nat \<times> 's"
  sv_handler :: "bool \<Rightarrow> 't Job \<Rightarrow> 's \<Rightarrow> (goerr + (goerr + string)) outcome \<times> 's"
  sv_stack :: "'s \<Rightarrow> string \<times> 's"
  sv_marshal :: marshaller
  sv_cron :: cron_lib
  sv_source :: "string \<Rightarrow> goerr + string"
  sv_zero :: 't
  sv_unmarshal :: "string \<Rightarrow> goerr + 't"
  sv_marshal_data :: "'t \<Rightarrow> goerr + string"

text \<open>
  \<open>sv_now\<close> is \<open>time.Now()\<close>; \<open>sv_runDone\<close> and \<open>sv_jobsDone\<close> are \<open>runCtx.Err() != nil\<close> and \<open>jobsCtx.Err() != nil\<close>;
  \<open>sv_timer d\<close> waits for \<open>d\<close> and says whether the timer fired before \<open>runCtx\<close> was done;
  \<open>sv_ticks\<close> is how many heartbeat ticks of the given period fire while a handler runs;
  \<open>sv_handler\<close> is the user's handler, told whether its context was cancelled by the
  heartbeat, and its value is an error or the outcome of \<open>json.Marshal\<close> on its return value;
  \<open>sv_source\<close> is the text of a preprocessed script.
\<close>

type_synonym ('s, 'a) act = "('s world, 'a) state"

abbreviation ret :: "'a \<Rightarrow> ('s, 'a) act" where
  "ret \<equiv> State_Monad.return"

definition emit :: "event \<Rightarrow> ('s, unit) act" where
  "emit e = State (\<lambda>w. ((), w\<lparr>trace := trace w @ [e]\<rparr>))"

definition ask :: "('s \<Rightarrow> 'a \<times> 's) \<Rightarrow> ('s, 'a) act" where
  "ask f = State (\<lambda>w. let (a, s') = f (ext w) in (a, w\<lparr>ext := s'\<rparr>))"

definition redis :: "('s, 't) services \<Rightarrow> command \<Rightarrow> ('s, goerr + gval) act" where
  "redis sv c = do { r \<leftarrow> ask (sv_redis sv c); emit (Cmd c r); ret r }"

definition nowMilli :: "('s, 't) services \<Rightarrow> ('s, int) act" where
  "nowMilli sv = do { t \<leftarrow> ask (sv_now sv); ret (UnixMilli t) }"

definition get_loaded :: "('s, (string \<times> string) list) act" where
  "get_loaded = State (\<lambda>w. (loaded w, w))"

definition set_loaded :: "string \<Rightarrow> string \<Rightarrow> ('s, unit) act" where
  "set_loaded name sha = State (\<lambda>w. ((), w\<lparr>loaded := hset (loaded w) name sha\<rparr>))"

text \<open>
  The reply of a pipeline is the array of its commands' replies.  \<open>Exec\<close> returns the error of the
  first command that failed; a pipeline that could not be sent fails every command.
\<close>

fun firstErr :: "gval list \<Rightarrow> goerr option" where
  "firstErr [] = None"
| "firstErr (GErr e # rs) = Some e"
| "firstErr (r # rs) = firstErr rs"

definition execErr :: "goerr + gval \<Rightarrow> goerr option" where
  "execErr r = (case r of Inl e \<Rightarrow> Some e | Inr (GArr rs) \<Rightarrow> firstErr rs | Inr _ \<Rightarrow> None)"

definition cmdResult :: "goerr + gval \<Rightarrow> nat \<Rightarrow> goerr + gval" where
  "cmdResult r i = (case r of
       Inl e \<Rightarrow> Inl e
     | Inr (GArr rs) \<Rightarrow> if i < length rs then (case rs ! i of GErr e \<Rightarrow> Inl e | v \<Rightarrow> Inr v) else Inr GNil
     | Inr _ \<Rightarrow> Inr GNil)"

section \<open>Names of \<open>observability.go\<close>\<close>

definition MetricJobsAddedTotal :: string where "MetricJobsAddedTotal = ''mkq_jobs_added_total''"
definition MetricJobsProcessedTotal :: string where "MetricJobsProcessedTotal = ''mkq_jobs_processed_total''"
definition MetricHandlerDurationSeconds :: string where
  "MetricHandlerDurationSeconds = ''mkq_handler_duration_seconds''"
definition MetricDispatchWaitSeconds :: string where "MetricDispatchWaitSeconds = ''mkq_dispatch_wait_seconds''"
definition MetricJobsInFlight :: string where "MetricJobsInFlight = ''mkq_jobs_in_flight''"
definition SpanQueueAdd :: string where "SpanQueueAdd = ''mkq.queue.add''"
definition SpanWorkerProcess :: string where "SpanWorkerProcess = ''mkq.worker.process''"
definition AttrQueue :: string where "AttrQueue = ''mkq.queue''"
definition AttrJobName :: string where "AttrJobName = ''mkq.job.name''"
definition AttrJobID :: string where "AttrJobID = ''mkq.job.id''"
definition AttrJobAttempts :: string where "AttrJobAttempts = ''mkq.job.attempts_made''"
definition AttrProcessStatus :: string where "AttrProcessStatus = ''mkq.process.status''"
definition AttrError :: string where "AttrError = ''mkq.error''"

section \<open>Reasoning about what an action does\<close>

text \<open>
  \<open>does m Q\<close>: whatever the services answer, running \<open>m\<close> appends events to the trace, and the
  result and the appended events satisfy \<open>Q\<close>.
\<close>

named_theorems does_rules \<open>what the primitive actions append to the trace\<close>

definition does :: "('s, 'a) act \<Rightarrow> ('a \<Rightarrow> event list \<Rightarrow> bool) \<Rightarrow> bool" where
  "does m Q \<longleftrightarrow> (\<forall>w a w'. run_state m w = (a, w') \<longrightarrow> (\<exists>es. trace w' = trace w @ es \<and> Q a es))"

lemma doesI:
  "(\<And>w a w'. run_state m w = (a, w') \<Longrightarrow> \<exists>es. trace w' = trace w @ es \<and> Q a es) \<Longrightarrow> does m Q"
  by (simp add: does_def)

lemma doesD:
  assumes "does m Q" "run_state m w = (a, w')"
  obtains es where "trace w' = trace w @ es" "Q a es"
  using assms unfolding does_def by blast

lemma does_return [does_rules]: "Q a [] \<Longrightarrow> does (ret a) Q"
  by (auto simp: does_def)

lemma does_weaken: "does m P \<Longrightarrow> (\<And>a es. P a es \<Longrightarrow> Q a es) \<Longrightarrow> does m Q"
  unfolding does_def by blast

lemma does_bind:
  assumes m: "does m P" and f: "\<And>a es. P a es \<Longrightarrow> does (f a) (\<lambda>b es'. Q b (es @ es'))"
  shows "does (State_Monad.bind m f) Q"
proof (rule doesI)
  fix w b w'
  assume run: "run_state (State_Monad.bind m f) w = (b, w')"
  obtain a w1 where a: "run_state m w = (a, w1)" by fastforce
  with run have b: "run_state (f a) w1 = (b, w')" by simp
  from m a obtain es where es: "trace w1 = trace w @ es" "P a es" by (rule doesD)
  from f [OF es(2)] b obtain es' where "trace w' = trace w1 @ es'" "Q b (es @ es')" by (rule doesD)
  with es show "\<exists>es. trace w' = trace w @ es \<and> Q b es" by (metis append.assoc)
qed

lemma does_bindI [does_rules]:
  "does m (\<lambda>a es. does (f a) (\<lambda>b es'. Q b (es @ es'))) \<Longrightarrow> does (State_Monad.bind m f) Q"
  by (erule does_bind)

lemma does_if [does_rules]:
  "(b \<Longrightarrow> does m Q) \<Longrightarrow> (\<not> b \<Longrightarrow> does m' Q) \<Longrightarrow> does (if b then m else m') Q"
  by simp

lemma does_case_option [does_rules]:
  "(x = None \<Longrightarrow> does m Q) \<Longrightarrow> (\<And>y. x = Some y \<Longrightarrow> does (f y) Q) \<Longrightarrow> does (case x of None \<Rightarrow> m | Some y \<Rightarrow> f y) Q"
  by (cases x) simp_all

lemma does_case_sum [does_rules]:
  "(\<And>y. x = Inl y \<Longrightarrow> does (f y) Q) \<Longrightarrow> (\<And>y. x = Inr y \<Longrightarrow> does (g y) Q) \<Longrightarrow>
   does (case x of Inl y \<Rightarrow> f y | Inr y \<Rightarrow> g y) Q"
  by (cases x) simp_all

lemma does_case_prod [does_rules]:
  "(\<And>a b. x = (a, b) \<Longrightarrow> does (f a b) Q) \<Longrightarrow> does (case x of (a, b) \<Rightarrow> f a b) Q"
  by (cases x) simp_all

lemma does_case_outcome [does_rules]:
  "(\<And>y. x = Returns y \<Longrightarrow> does (f y) Q) \<Longrightarrow> (\<And>m. x = Panics m \<Longrightarrow> does (g m) Q) \<Longrightarrow>
   does (case x of Returns y \<Rightarrow> f y | Panics m \<Rightarrow> g m) Q"
  by (cases x) simp_all

lemma does_Let [does_rules]: "does (f x) Q \<Longrightarrow> does (let y = x in f y) Q"
  by (simp add: Let_def)

lemma does_emit [does_rules]: "Q () [e] \<Longrightarrow> does (emit e) Q"
  by (auto simp: does_def emit_def)

lemma does_ask [does_rules]: "(\<And>a. Q a []) \<Longrightarrow> does (ask f) Q"
  by (auto simp: does_def ask_def split: prod.splits)

lemma does_ask_val: "(\<And>s. Q (fst (f s)) []) \<Longrightarrow> does (ask f) Q"
  by (auto simp: does_def ask_def split: prod.splits) (metis fst_conv)

lemma does_conj: "does m P \<Longrightarrow> does m Q \<Longrightarrow> does m (\<lambda>a es. P a es \<and> Q a es)"
  unfolding does_def by (metis same_append_eq)

lemma does_redis [does_rules]: "(\<And>r. Q r [Cmd c r]) \<Longrightarrow> does (redis sv c) Q"
  unfolding redis_def by (auto intro!: does_return does_bindI does_ask does_emit)

lemma does_redis_val: "(\<And>s. Q (fst (sv_redis sv c s)) [Cmd c (fst (sv_redis sv c s))]) \<Longrightarrow> does (redis sv c) Q"
  unfolding redis_def by (auto intro!: does_return does_bindI does_ask_val does_emit)

lemma does_nowMilli [does_rules]: "(\<And>ms. Q ms []) \<Longrightarrow> does (nowMilli sv) Q"
  unfolding nowMilli_def by (auto intro!: does_return does_bindI does_ask)

lemma does_get_loaded [does_rules]: "(\<And>a. Q a []) \<Longrightarrow> does get_loaded Q"
  by (auto simp: does_def get_loaded_def)

lemma does_set_loaded [does_rules]: "Q () [] \<Longrightarrow> does (set_loaded n s) Q"
  by (auto simp: does_def set_loaded_def)

text \<open>A rule for loops, and one for actions that are known to return.\<close>

lemma does_loop:
  assumes body: "\<And>l es. J l es \<Longrightarrow> does (body l) (\<lambda>r es'. case r of Inl l' \<Rightarrow> J l' (es @ es') | Inr x \<Rightarrow> K x (es @ es'))"
    and start: "J l es"
  shows "does (loop n body l) (\<lambda>r es'. case r of None \<Rightarrow> True | Some x \<Rightarrow> K x (es @ es'))"
  using start
proof (induction n arbitrary: l es)
  case 0
  then show ?case by (auto intro!: does_return)
next
  case (Suc n)
  show ?case
    unfolding loop.simps
  proof (rule does_bind [OF body [OF Suc.prems]])
    fix r es'
    assume r: "case r of Inl l' \<Rightarrow> J l' (es @ es') | Inr x \<Rightarrow> K x (es @ es')"
    show "does (case r of Inl l' \<Rightarrow> loop n body l' | Inr x \<Rightarrow> ret (Some x))
        (\<lambda>b es''. case b of None \<Rightarrow> True | Some x \<Rightarrow> K x (es @ es' @ es''))"
    proof (cases r)
      case (Inl l')
      with r Suc.IH [of l' "es @ es'"] show ?thesis by (simp cong: option.case_cong)
    next
      case (Inr x)
      with r show ?thesis by (auto intro!: does_return)
    qed
  qed
qed

lemma does_returns: "(\<And>w. \<exists>r w'. run_state m w = (Some r, w')) \<Longrightarrow> does m Q \<Longrightarrow> does m (\<lambda>r es. r \<noteq> None \<and> Q r es)"
  unfolding does_def by (metis fst_conv option.distinct(1))

text \<open>
  A law of traces: a property that the empty trace has and that two traces hand on to their
  concatenation.  An action whose parts keep the law keeps it, and so does every loop over it.
\<close>

locale trace_law =
  fixes R :: "event list \<Rightarrow> bool"
  assumes law_Nil: "R []" and law_append: "R es \<Longrightarrow> R es' \<Longrightarrow> R (es @ es')"
begin

lemma law_return: "does (ret a) (\<lambda>_. R)"
  by (intro does_return law_Nil)

lemma law_ask: "does (ask f) (\<lambda>_. R)"
  by (intro does_ask law_Nil)

lemma law_bind:
  assumes "does m (\<lambda>_. R)" "\<And>a. does (f a) (\<lambda>_. R)"
  shows "does (State_Monad.bind m f) (\<lambda>_. R)"
  using assms(1) by (rule does_bind) (auto intro: does_weaken [OF assms(2)] law_append)

lemma law_loop:
  assumes "\<And>l. does (body l) (\<lambda>_. R)"
  shows "does (loop n body l) (\<lambda>_. R)"
proof (induction n arbitrary: l)
  case (Suc n)
  then show ?case
    unfolding loop.simps by (intro law_bind assms does_case_sum law_return) simp
qed (simp add: law_return)

end

text \<open>What is left of a trace without the raw commands, the replies and the log.\<close>

fun obs :: "event list \<Rightarrow> event list" where
  "obs [] = []"
| "obs (Cmd c r # es) = obs es"
| "obs (ScriptReply n r # es) = obs es"
| "obs (Log l m as # es) = obs es"
| "obs (e # es) = e # obs es"

lemma obs_append [simp]: "obs (es @ es') = obs es @ obs es'"
  by (induction es rule: obs.induct) simp_all

text \<open>The script calls of a trace.\<close>

fun calls :: "event list \<Rightarrow> event list" where
  "calls [] = []"
| "calls (ScriptCall c n ks as # es) = ScriptCall c n ks as # calls es"
| "calls (e # es) = calls es"

lemma calls_append [simp]: "calls (es @ es') = calls es @ calls es'"
  by (induction es rule: calls.induct) simp_all

lemma calls_obs [simp]: "calls (obs es) = calls es"
  by (induction es rule: obs.induct) simp_all

end
