(* ===== verification/Cron.thy ===== *)
theory Cron
  imports Env
begin

text \<open>
  \<open>cron.go\<close>: the validation of cron patterns in front of the cron package, and the cache of
  compiled schedules.  The cache is the association list from keys to compiled schedules.
\<close>

record cachedCron =
  cc_schedule :: "string \<Rightarrow> gotime \<Rightarrow> gotime"
  cc_loc :: string

type_synonym cronCache = "(string \<times> cachedCron) list"

text \<open>A byte in the range of the upper-case letters is moved to the lower-case ones.\<close>

definition lower :: "char \<Rightarrow> char" where
  "lower c = (if 65 \<le> byte c \<and> byte c \<le> 90 then char_of (byte c + 32) else c)"

definition isAtEvery :: "string \<Rightarrow> bool" where
  "isAtEvery s =
     (let prefix = ''@every''
      in if length s < length prefix then False
         else if \<exists>i < length prefix. lower (s ! i) \<noteq> prefix ! i then False
         else if length s = length prefix then True
         else let c = s ! length prefix in c = CHR '' '' \<or> c = CHR 0x09)"

definition quoted :: "string \<Rightarrow> string" where
  "quoted s = [CHR 0x22] @ s @ [CHR 0x22]"

definition cronKey :: "string \<Rightarrow> string \<Rightarrow> string" where
  "cronKey pattern tz = pattern @ ''|'' @ tz"

definition parseCron :: "cron_lib \<Rightarrow> cronCache \<Rightarrow> string \<Rightarrow> string \<Rightarrow> (goerr + cachedCron) \<times> cronCache" where
  "parseCron lib cache pattern tz =
     (if pattern = [] then (Inl (PlainErr ''mkq: pattern must be non-empty''), cache)
      else if isAtEvery pattern then
        (Inl (PlainErr (''mkq: '' @ quoted pattern @
           '' is not supported as a cron pattern; use WithScheduleEvery for fixed intervals'')), cache)
      else case map_of cache (cronKey pattern tz) of
          Some cc \<Rightarrow> (Inr cc, cache)
        | None \<Rightarrow>
            (case (if tz = [] then Inr ''Local'' else cl_load lib tz) of
               Inl err \<Rightarrow> (Inl (errorf (''mkq: invalid timezone '' @ quoted tz @ '': '') err), cache)
             | Inr loc \<Rightarrow>
                 (case cl_parse lib pattern of
                    Inl err \<Rightarrow> (Inl (errorf (''mkq: invalid cron pattern '' @ quoted pattern @ '': '') err), cache)
                  | Inr sched \<Rightarrow>
                      (let cc = \<lparr>cc_schedule = sched, cc_loc = loc\<rparr>
                       in (Inr cc, hset cache (cronKey pattern tz) cc)))))"

definition nextFire :: "cachedCron \<Rightarrow> gotime \<Rightarrow> gotime" where
  "nextFire c from = cc_schedule c (cc_loc c) from"

section \<open>Lemmas\<close>

lemma isAtEvery_iff:
  "isAtEvery s \<longleftrightarrow> (\<exists>p r. s = p @ r \<and> map lower p = ''@every'' \<and> (r = [] \<or> hd r \<in> {CHR '' '', CHR 0x09}))"
proof
  assume a: "isAtEvery s"
  then have l: "6 \<le> length s" and i: "\<And>i. i < 6 \<Longrightarrow> lower (s ! i) = ''@every'' ! i"
    by (auto simp: isAtEvery_def Let_def split: if_splits)
  have "map lower (take 6 s) = ''@every''"
    using l i by (intro nth_equalityI) simp_all
  moreover have "drop 6 s = [] \<or> hd (drop 6 s) \<in> {CHR '' '', CHR 0x09}"
    using a l by (auto simp: isAtEvery_def Let_def hd_drop_conv_nth eval_nat_numeral split: if_splits)
  ultimately show "\<exists>p r. s = p @ r \<and> map lower p = ''@every'' \<and> (r = [] \<or> hd r \<in> {CHR '' '', CHR 0x09})"
    by (intro exI [of _ "take 6 s"] exI [of _ "drop 6 s"]) simp
next
  assume "\<exists>p r. s = p @ r \<and> map lower p = ''@every'' \<and> (r = [] \<or> hd r \<in> {CHR '' '', CHR 0x09})"
  then obtain p r where s: "s = p @ r" and p: "map lower p = ''@every''" and r: "r = [] \<or> hd r \<in> {CHR '' '', CHR 0x09}"
    by (elim exE conjE) (rule that)
  have lp: "length p = 6" using arg_cong [OF p, of length] by simp
  have "lower (s ! i) = ''@every'' ! i" if "i < 6" for i
  proof -
    have "lower (s ! i) = map lower p ! i" using that lp by (simp add: s nth_append)
    then show ?thesis by (simp only: p)
  qed
  then show "isAtEvery s"
    using s lp r by (cases r) (auto simp: isAtEvery_def Let_def nth_append)
qed

text \<open>
  What the code relies on of the cron package and the time zone database: neither accepts a
  name with a vertical bar in it.
\<close>

definition cron_lib_ok :: "cron_lib \<Rightarrow> bool" where
  "cron_lib_ok lib \<longleftrightarrow>
     (\<forall>p s. cl_parse lib p = Inr s \<longrightarrow> CHR ''|'' \<notin> set p) \<and>
     (\<forall>tz l. cl_load lib tz = Inr l \<longrightarrow> CHR ''|'' \<notin> set tz)"

text \<open>Every entry of the cache is what an uncached call computed for its key.\<close>

definition cache_ok :: "cron_lib \<Rightarrow> cronCache \<Rightarrow> bool" where
  "cache_ok lib cache \<longleftrightarrow>
     (\<forall>key cc. map_of cache key = Some cc \<longrightarrow>
        (\<exists>p tz. key = cronKey p tz \<and> fst (parseCron lib [] p tz) = Inr cc))"

lemma parseCron_noBar:
  "cron_lib_ok lib \<Longrightarrow> fst (parseCron lib [] p tz) = Inr cc \<Longrightarrow> CHR ''|'' \<notin> set p \<and> CHR ''|'' \<notin> set tz"
  unfolding cron_lib_ok_def parseCron_def Let_def by (cases "tz = []") (auto split: if_splits sum.splits)

lemma cronKey_inj:
  assumes "CHR ''|'' \<notin> set p" "CHR ''|'' \<notin> set tz" "cronKey p tz = cronKey p' tz'"
  shows "p' = p \<and> tz' = tz"
proof -
  have "count_list (cronKey p tz) (CHR ''|'') = 1"
    using assms(1,2) by (simp add: cronKey_def count_list_0_iff)
  then have "count_list (cronKey p' tz') (CHR ''|'') = 1" by (simp only: assms(3))
  then have "CHR ''|'' \<notin> set p'" by (simp add: cronKey_def count_list_0_iff)
  then show ?thesis using assms sep_append_inj [of "CHR ''|''" p p' tz tz'] by (simp add: cronKey_def)
qed

lemma cache_ok_hset:
  assumes "cache_ok lib cache" "fst (parseCron lib [] p tz) = Inr cc"
  shows "cache_ok lib (hset cache (cronKey p tz) cc)"
  unfolding cache_ok_def
proof (intro allI impI)
  fix key c
  assume m: "map_of (hset cache (cronKey p tz) cc) key = Some c"
  show "\<exists>p tz. key = cronKey p tz \<and> fst (parseCron lib [] p tz) = Inr c"
  proof (cases "key = cronKey p tz")
    case True
    with m assms(2) show ?thesis by auto
  next
    case False
    with m assms(1) show ?thesis by (simp add: cache_ok_def)
  qed
qed

lemma parseCron_cached:
  assumes lib: "cron_lib_ok lib" and inv: "cache_ok lib cache"
  shows "fst (parseCron lib cache p tz) = fst (parseCron lib [] p tz)"
    "cache_ok lib (snd (parseCron lib cache p tz))"
proof -
  have hit: "fst (parseCron lib [] p tz) = Inr cc" if m: "map_of cache (cronKey p tz) = Some cc" for cc
  proof -
    obtain p' tz' where k: "cronKey p tz = cronKey p' tz'" and r: "fst (parseCron lib [] p' tz') = Inr cc"
      using inv m unfolding cache_ok_def by blast
    have "p = p' \<and> tz = tz'"
      using cronKey_inj [OF _ _ k [symmetric]] parseCron_noBar [OF lib r] by simp
    with r show ?thesis by simp
  qed
  show 1: "fst (parseCron lib cache p tz) = fst (parseCron lib [] p tz)"
  proof (cases "map_of cache (cronKey p tz)")
    case None
    then show ?thesis by (simp add: parseCron_def Let_def split: sum.split)
  next
    case (Some cc)
    with hit [OF Some] show ?thesis by (simp add: parseCron_def split: if_splits)
  qed
  have "snd (parseCron lib cache p tz) = cache \<or>
      (\<exists>cc. snd (parseCron lib cache p tz) = hset cache (cronKey p tz) cc \<and> fst (parseCron lib cache p tz) = Inr cc)"
    by (simp add: parseCron_def Let_def split: option.split sum.split)
  then show "cache_ok lib (snd (parseCron lib cache p tz))"
    using inv 1 cache_ok_hset [OF inv, of p tz] by auto
qed

text \<open>Calls one after the other, sharing the cache.\<close>

fun parseAll :: "cron_lib \<Rightarrow> cronCache \<Rightarrow> (string \<times> string) list \<Rightarrow> (goerr + cachedCron) list" where
  "parseAll lib cache [] = []"
| "parseAll lib cache ((p, tz) # rs) = (let (r, cache') = parseCron lib cache p tz in r # parseAll lib cache' rs)"

lemma parseAll_cached:
  "cron_lib_ok lib \<Longrightarrow> cache_ok lib cache \<Longrightarrow> parseAll lib cache rs = map (\<lambda>(p, tz). fst (parseCron lib [] p tz)) rs"
proof (induction lib cache rs rule: parseAll.induct)
  case (2 lib cache p tz rs)
  from parseCron_cached [OF 2(2,3), of p tz] 2(1,2) show ?case by (auto simp: Let_def split: prod.splits)
qed simp

section \<open>Properties\<close>

text \<open>
  C35: The cache is invisible: over any sequence of requests, patterns and time zones in any order
  and repeated at will, every request gets the schedule and location, or the error, that it would
  get without a cache.  In particular two requests that differ never share an entry.
\<close>

theorem cron_cache_transparent:
  assumes "cron_lib_ok lib"
  shows "parseAll lib [] rs = map (\<lambda>(p, tz). fst (parseCron lib [] p tz)) rs"
  by (rule parseAll_cached [OF assms]) (simp add: cache_ok_def)

definition small_cron_lib :: cron_lib where
  "small_cron_lib = \<lparr>cl_parse = (\<lambda>p. if CHR ''|'' \<in> set p then Inl (PlainErr ''bad'') else Inr (\<lambda>loc t. t + 60)),
     cl_load = (\<lambda>tz. if CHR ''|'' \<in> set tz then Inl (PlainErr ''bad'') else Inr tz)\<rparr>"

theorem cron_cache_transparent_witness:
  "parseAll small_cron_lib [] [(''0 * * * *'', ''UTC''), (''0 * * * *'', []), (''0 * * * *'', ''UTC'')] =
   map (\<lambda>(p, tz). fst (parseCron small_cron_lib [] p tz)) [(''0 * * * *'', ''UTC''), (''0 * * * *'', []), (''0 * * * *'', ''UTC'')]"
  by (rule cron_cache_transparent) (auto simp: cron_lib_ok_def small_cron_lib_def split: if_splits)

text \<open>
  A pattern is accepted exactly when it is not empty, is not an \<open>@every\<close> pattern in any
  capitalisation (the word alone or followed by a blank or a tab; \<open>@everyday\<close> is not one), its time
  zone is empty or known, and the cron package parses it.
\<close>

lemma parseCron_accepts:
  "(\<exists>cc. fst (parseCron lib [] pattern tz) = Inr cc) \<longleftrightarrow>
     pattern \<noteq> [] \<and> (\<nexists>p r. pattern = p @ r \<and> map lower p = ''@every'' \<and> (r = [] \<or> hd r \<in> {CHR '' '', CHR 0x09})) \<and>
     (tz = [] \<or> (\<exists>loc. cl_load lib tz = Inr loc)) \<and> (\<exists>sched. cl_parse lib pattern = Inr sched)"
  unfolding isAtEvery_iff [symmetric]
  by (auto simp: parseCron_def Let_def split: if_splits sum.split)

end
