(* ===== verification/Scripts.thy ===== *)
theory Scripts
  imports Env
begin

text \<open>
  \<open>internal/lua/loader.go\<close>: the vendored scripts by name and the \<open>Scripter\<close> that runs them
  with EVALSHA, re-uploading a script once when Redis has forgotten it.  The table of loaded
  scripts is the \<open>loaded\<close> field of the world; the SHA is what SCRIPT LOAD returned.
\<close>

section \<open>Script names\<close>

definition AddStandardJob :: string where "AddStandardJob = ''addStandardJob-9''"
definition AddDelayedJob :: string where "AddDelayedJob = ''addDelayedJob-6''"
definition AddPrioritizedJob :: string where "AddPrioritizedJob = ''addPrioritizedJob-9''"
definition MoveToActive :: string where "MoveToActive = ''moveToActive-11''"
definition MoveToFinished :: string where "MoveToFinished = ''moveToFinished-14''"
definition ExtendLock :: string where "ExtendLock = ''extendLock-2''"
definition ReleaseLock :: string where "ReleaseLock = ''releaseLock-1''"
definition RetryJob :: string where "RetryJob = ''retryJob-11''"
definition MoveToDelayed :: string where "MoveToDelayed = ''moveToDelayed-11''"
definition MoveStalledJobsToWait :: string where "MoveStalledJobsToWait = ''moveStalledJobsToWait-9''"
definition AddJobScheduler :: string where "AddJobScheduler = ''addJobScheduler-11''"
definition UpdateJobScheduler :: string where "UpdateJobScheduler = ''updateJobScheduler-12''"
definition UpdateProgress :: string where "UpdateProgress = ''updateProgress-3''"
definition UpdateData :: string where "UpdateData = ''updateData-1''"
definition AddLog :: string where "AddLog = ''addLog-2''"
definition GetCounts :: string where "GetCounts = ''getCounts-1''"
definition GetRanges :: string where "GetRanges = ''getRanges-1''"
definition GetMetrics :: string where "GetMetrics = ''getMetrics-2''"
definition RemoveJob :: string where "RemoveJob = ''removeJob-2''"
definition Drain :: string where "Drain = ''drain-5''"
definition Promote :: string where "Promote = ''promote-9''"
definition ReprocessJob :: string where "ReprocessJob = ''reprocessJob-9''"
definition Pause :: string where "Pause = ''pause-7''"

lemmas script_name_defs = AddStandardJob_def AddDelayedJob_def AddPrioritizedJob_def MoveToActive_def
  MoveToFinished_def ExtendLock_def ReleaseLock_def RetryJob_def MoveToDelayed_def
  MoveStalledJobsToWait_def AddJobScheduler_def UpdateJobScheduler_def UpdateProgress_def
  UpdateData_def AddLog_def GetCounts_def GetRanges_def GetMetrics_def RemoveJob_def Drain_def
  Promote_def ReprocessJob_def Pause_def

definition preloadNames :: "string list" where
  "preloadNames =
     [AddStandardJob, AddDelayedJob, AddPrioritizedJob,
      MoveToActive, MoveToFinished, ExtendLock, ReleaseLock,
      RetryJob, MoveToDelayed, MoveStalledJobsToWait,
      AddJobScheduler, UpdateJobScheduler,
      UpdateProgress, UpdateData, AddLog,
      GetCounts, GetRanges, GetMetrics,
      RemoveJob, Drain, Promote, ReprocessJob, Pause]"

text \<open>The KEYS count a file name carries after its last dash.\<close>

definition keyCount :: "string \<Rightarrow> int" where
  "keyCount name = fst (ParseInt (rev (takeWhile (\<lambda>c. c \<noteq> CHR ''-'') (rev name))))"

section \<open>The Scripter\<close>

definition isNoScript :: "goerr option \<Rightarrow> bool" where
  "isNoScript err = (case err of None \<Rightarrow> False | Some e \<Rightarrow>
     (case errors_As_Server e of
        Some m \<Rightarrow> HasPrefix m ''NOSCRIPT''
      | None \<Rightarrow> Contains (err_text e) ''NOSCRIPT''))"

text \<open>The round trip of \<open>load\<close>: the reply of SCRIPT LOAD is the SHA, a string.\<close>

definition upload :: "('s, 't) services \<Rightarrow> ctx \<Rightarrow> string \<Rightarrow> string \<Rightarrow> ('s, goerr + string) act" where
  "upload sv c name src = do {
     r \<leftarrow> redis sv (ScriptLoad c src);
     ret (case r of
         Inl err \<Rightarrow> Inl (errorf (''script load '' @ name @ '': '') err)
       | Inr v \<Rightarrow> (case v of GStr sha \<Rightarrow> Inr sha | _ \<Rightarrow> Inl (PlainErr (''script load '' @ name))))
   }"

definition load :: "('s, 't) services \<Rightarrow> ctx \<Rightarrow> string \<Rightarrow> ('s, goerr + string) act" where
  "load sv c name =
     (case sv_source sv name of
        Inl err \<Rightarrow> ret (Inl err)
      | Inr src \<Rightarrow> do {
          r \<leftarrow> upload sv c name src;
          (case r of
             Inl err \<Rightarrow> ret (Inl err)
           | Inr sha \<Rightarrow> do { set_loaded name sha; ret (Inr sha) })
        })"

fun preload :: "('s, 't) services \<Rightarrow> ctx \<Rightarrow> string list \<Rightarrow> ('s, goerr option) act" where
  "preload sv c [] = ret None"
| "preload sv c (name # names) = do {
     r \<leftarrow> load sv c name;
     (case r of
        Inl err \<Rightarrow> ret (Some (errorf (''preload '' @ name @ '': '') err))
      | Inr _ \<Rightarrow> preload sv c names)
   }"

definition NewScripter :: "('s, 't) services \<Rightarrow> ctx \<Rightarrow> ('s, goerr option) act" where
  "NewScripter sv c = preload sv c preloadNames"

text \<open>The method \<open>get\<close>: the SHA under which the script was last loaded.\<close>

definition get_script :: "string \<Rightarrow> ('s, goerr + string) act" where
  "get_script name = do {
     tbl \<leftarrow> get_loaded;
     (case map_of tbl name of
        None \<Rightarrow> ret (Inl (PlainErr (''script '' @ [CHR 0x22] @ name @ [CHR 0x22] @ '' not loaded'')))
      | Some sha \<Rightarrow> ret (Inr sha))
   }"

text \<open>The body of \<open>Run\<close>; \<open>Run\<close> itself also records the call and its result in the trace.\<close>

definition runScript :: "('s, 't) services \<Rightarrow> ctx \<Rightarrow> string \<Rightarrow> string list \<Rightarrow> gval list \<Rightarrow> ('s, goerr + gval) act" where
  "runScript sv c name keys args = do {
     g \<leftarrow> get_script name;
     (case g of
        Inl err \<Rightarrow> ret (Inl err)
      | Inr sha \<Rightarrow> do {
          r \<leftarrow> redis sv (EvalSha c sha keys args);
          (case r of
             Inr v \<Rightarrow> ret (Inr v)
           | Inl err \<Rightarrow>
               if \<not> isNoScript (Some err) then ret (Inl err)
               else do {
                 emit (Log LDebug ''mkq: lua script reload after NOSCRIPT'' [(''script'', name)]);
                 l \<leftarrow> load sv c name;
                 (case l of
                    Inl err \<Rightarrow> ret (Inl (errorf (''reload '' @ name @ '' after NOSCRIPT: '') err))
                  | Inr sha \<Rightarrow> redis sv (EvalSha c sha keys args))
               })
        })
   }"

definition Run :: "('s, 't) services \<Rightarrow> ctx \<Rightarrow> string \<Rightarrow> string list \<Rightarrow> gval list \<Rightarrow> ('s, goerr + gval) act" where
  "Run sv c name keys args = do {
     emit (ScriptCall c name keys args);
     r \<leftarrow> runScript sv c name keys args;
     emit (ScriptReply name r);
     ret r
   }"

section \<open>Lemmas\<close>

text \<open>The EVALSHA commands of a trace.\<close>

fun evals :: "event list \<Rightarrow> command list" where
  "evals [] = []"
| "evals (Cmd (EvalSha c sha ks as) r # es) = EvalSha c sha ks as # evals es"
| "evals (e # es) = evals es"

lemma evals_append [simp]: "evals (es @ es') = evals es @ evals es'"
  by (induction es rule: evals.induct) simp_all

lemma does_case_gval [does_rules]:
  assumes "\<And>s. v = GStr s \<Longrightarrow> does (f s) Q" "(\<And>s. v \<noteq> GStr s) \<Longrightarrow> does g Q"
  shows "does (case v of GStr s \<Rightarrow> f s | _ \<Rightarrow> g) Q"
  using assms by (cases v) simp_all

text \<open>The script replies of a trace.\<close>

fun replies :: "event list \<Rightarrow> (string \<times> (goerr + gval)) list" where
  "replies [] = []"
| "replies (ScriptReply n r # es) = (n, r) # replies es"
| "replies (e # es) = replies es"

lemma replies_append [simp]: "replies (es @ es') = replies es @ replies es'"
  by (induction es rule: replies.induct) simp_all

lemma does_load:
  assumes "\<And>r es. obs es = [] \<Longrightarrow> evals es = [] \<Longrightarrow> replies es = [] \<Longrightarrow> Q r es"
  shows "does (load sv c name) Q"
  unfolding load_def upload_def by (intro does_rules assms) simp_all

text \<open>A value a call returns is one that Redis gave as the reply to that very call.\<close>

definition answers :: "('s, 't) services \<Rightarrow> event \<Rightarrow> gval \<Rightarrow> bool" where
  "answers sv call v = (case call of
       ScriptCall c name keys args \<Rightarrow> \<exists>sha s. fst (sv_redis sv (EvalSha c sha keys args) s) = Inr v
     | _ \<Rightarrow> False)"

lemma does_eval:
  "(\<And>r. (\<forall>v. r = Inr v \<longrightarrow> answers sv (ScriptCall c name keys args) v) \<Longrightarrow> Q r [Cmd (EvalSha c sha keys args) r]) \<Longrightarrow>
   does (redis sv (EvalSha c sha keys args)) Q"
  by (rule does_redis_val) (auto simp: answers_def)

text \<open>
  A call sends its command to Redis at most twice, both times with the caller's keys and
  arguments, and returns what Redis replied.
\<close>

lemma runScript_calls:
  "does (runScript sv c name keys args) (\<lambda>r es. obs es = [] \<and> replies es = [] \<and>
     (\<exists>shas. evals es = map (\<lambda>sha. EvalSha c sha keys args) shas \<and> length shas \<le> 2) \<and>
     (\<forall>v. r = Inr v \<longrightarrow> (\<exists>sha. Cmd (EvalSha c sha keys args) (Inr v) \<in> set es) \<and>
        answers sv (ScriptCall c name keys args) v))"
proof -
  have ex: "\<exists>shas. es = map (\<lambda>sha. EvalSha c sha keys args) shas \<and> length shas \<le> 2"
    if "es \<in> {[]} \<union> {[EvalSha c x keys args] | x. True} \<union> {[EvalSha c x keys args, EvalSha c y keys args] | x y. True}"
    for es
    using that by (auto intro: exI [of _ "[]"] exI [of _ "[x]" for x] exI [of _ "[x, y]" for x y])
  show ?thesis
    unfolding runScript_def get_script_def
    by (intro does_bindI does_emit does_get_loaded does_case_option does_return does_case_sum does_if does_load
        does_eval [of sv c name keys args] conjI ex) auto
qed

lemma does_Run:
  assumes "\<And>r es. obs es = [ScriptCall c name keys args] \<Longrightarrow> replies es = [(name, r)] \<Longrightarrow>
      (\<And>v. r = Inr v \<Longrightarrow> \<exists>sha. Cmd (EvalSha c sha keys args) (Inr v) \<in> set es) \<Longrightarrow>
      (\<And>v. r = Inr v \<Longrightarrow> answers sv (ScriptCall c name keys args) v) \<Longrightarrow> Q r es"
  shows "does (Run sv c name keys args) Q"
  unfolding Run_def
  by (intro does_bindI does_emit does_weaken [OF runScript_calls] does_return assms) auto

text \<open>
  A call of \<open>Run\<close>: whatever Redis answers, EVALSHA is sent at most twice, with the caller's keys and
  arguments both times, and never more often than one plus the number of NOSCRIPT replies.
\<close>

definition reloads :: "event list \<Rightarrow> nat" where
  "reloads es = length (filter (\<lambda>e. case e of Cmd (EvalSha c sha ks as) (Inl err) \<Rightarrow> isNoScript (Some err) | _ \<Rightarrow> False) es)"

lemma calls_quiet: "obs es = [] \<Longrightarrow> calls es = []"
  by (metis calls_obs calls.simps(1))

lemma Run_attempts:
  "does (Run sv c name keys args) (\<lambda>r es. calls es = [ScriptCall c name keys args] \<and>
     (\<exists>shas. evals es = map (\<lambda>sha. EvalSha c sha keys args) shas \<and> length shas \<le> Suc (reloads es) \<and> length shas \<le> 2))"
proof -
  have ex: "\<exists>shas. es = map (\<lambda>sha. EvalSha c sha keys args) shas \<and> length shas \<le> n \<and> length shas \<le> 2"
    if "es = [] \<or> (\<exists>x. es = [EvalSha c x keys args]) \<and> 1 \<le> n \<or> (\<exists>x y. es = [EvalSha c x keys args, EvalSha c y keys args]) \<and> 2 \<le> n"
    for es n
    using that by (auto intro: exI [of _ "[]"] exI [of _ "[x]" for x] exI [of _ "[x, y]" for x y])
  show ?thesis
    unfolding Run_def runScript_def get_script_def
    by (intro does_bindI does_emit does_get_loaded does_case_option does_return does_case_sum does_if does_load
        does_redis conjI ex) (auto simp: reloads_def calls_quiet)
qed

text \<open>After a preload that succeeds every script of the list is in the table.\<close>

lemma load_table:
  assumes "run_state (load sv c name) w = (r, w')"
  shows "dom (map_of (loaded w')) = (case r of Inl _ \<Rightarrow> dom (map_of (loaded w)) | Inr _ \<Rightarrow> insert name (dom (map_of (loaded w))))"
  using assms by (auto simp: load_def upload_def redis_def ask_def emit_def set_loaded_def split: sum.splits prod.splits)

lemma preload_table:
  assumes "run_state (preload sv c names) w = (None, w')"
  shows "dom (map_of (loaded w')) = set names \<union> dom (map_of (loaded w))"
  using assms
proof (induction names arbitrary: w)
  case (Cons name names)
  obtain r w1 where l: "run_state (load sv c name) w = (r, w1)" by fastforce
  with Cons.prems obtain sha where r: "r = Inr sha" "run_state (preload sv c names) w1 = (None, w')"
    by (auto split: sum.splits)
  from Cons.IH [OF r(2)] load_table [OF l] show ?case by (simp add: r(1))
qed simp

end
