(* ===== verification/Replies.thy ===== *)
theory Replies
  imports Scripts
begin

text \<open>
  How the code reads the dynamically typed replies of the scripts: the dequeue reply
  (\<open>parseMoveToActiveResult\<close>, \<open>flatHashToMap\<close>, \<open>toInt64\<close>), the reply of the add scripts, an
  error code, and a nullable string (\<open>worker.go\<close>, \<open>queue.go\<close>).
\<close>

definition toInt64 :: "gval \<Rightarrow> int \<times> bool" where
  "toInt64 v = (case v of
       GInt64 n \<Rightarrow> (n, True)
     | GInt n \<Rightarrow> (n, True)
     | GInt32 n \<Rightarrow> (n, True)
     | GFloat x \<Rightarrow> (int64_of_float x, True)
     | _ \<Rightarrow> (0, False))"

definition asString :: "gval \<Rightarrow> string" where
  "asString v = (case v of GStr s \<Rightarrow> s | _ \<Rightarrow> [])"

text \<open>The loop body of \<open>flatHashToMap\<close>, from index \<open>i\<close> on.\<close>

fun flat_pairs :: "nat \<Rightarrow> hash \<Rightarrow> gval list \<Rightarrow> goerr + hash" where
  "flat_pairs i m (GStr k # GStr v # r) = flat_pairs (i + 2) (hset m k v) r"
| "flat_pairs i m [] = Inr m"
| "flat_pairs i m _ = Inl (PlainErr (''HGETALL element '' @ fmt_nat i @ ''/'' @ fmt_nat (i + 1) @ '' not a string''))"

definition flatHashToMap :: "gval list \<Rightarrow> goerr + hash" where
  "flatHashToMap arr =
     (if length arr mod 2 \<noteq> 0 then
        Inl (PlainErr (''HGETALL flat array has odd length '' @ fmt_nat (length arr)))
      else flat_pairs 0 [] arr)"

text \<open>
  The six results of \<open>parseMoveToActiveResult\<close> take three shapes: an error, no job (with the
  rate-limit cooldown and the next delayed timestamp), or a job.
\<close>

datatype fetchReply = NoJob int int | GotJob hash string

definition parseMoveToActiveResult :: "gval \<Rightarrow> goerr + fetchReply" where
  "parseMoveToActiveResult res = (case res of
       GArr arr \<Rightarrow>
         if length arr < 4 then Inr (NoJob 0 0)
         else (case arr ! 0 of
             GArr jobData \<Rightarrow>
               (case arr ! 1 of
                  GStr jid \<Rightarrow>
                    if jid = [] then Inr (NoJob 0 0)
                    else (case flatHashToMap jobData of Inl err \<Rightarrow> Inl err | Inr m \<Rightarrow> Inr (GotJob m jid))
                | _ \<Rightarrow> Inr (NoJob 0 0))
           | _ \<Rightarrow> Inr (NoJob (fst (toInt64 (arr ! 2))) (fst (toInt64 (arr ! 3)))))
     | _ \<Rightarrow> Inr (NoJob 0 0))"

text \<open>The guard \<open>code, ok := res.(int64); ok && code < 0\<close>.\<close>

definition error_code :: "gval \<Rightarrow> int option" where
  "error_code res = (case res of GInt64 code \<Rightarrow> if code < 0 then Some code else None | _ \<Rightarrow> None)"

definition parseAddResult :: "gval \<Rightarrow> goerr + string" where
  "parseAddResult res = (case res of
       GStr v \<Rightarrow> Inr v
     | GBytes v \<Rightarrow> Inr v
     | GInt64 v \<Rightarrow>
         if v < 0 then Inl (PlainErr (''mkq: lua add returned error code '' @ FormatInt v))
         else Inr (FormatInt v)
     | _ \<Rightarrow> Inl (PlainErr ''mkq: unexpected lua add result''))"

text \<open>\<open>mustJSONString\<close> on a value whose \<open>json.Marshal\<close> is given.\<close>

definition mustJSONString :: "goerr + string \<Rightarrow> string" where
  "mustJSONString b = (case b of
       Inr s \<Rightarrow> s
     | Inl err \<Rightarrow> json_string (''mkq: failed to marshal value: '' @ err_text err))"

section \<open>Lemmas\<close>

text \<open>The reply the dequeue scripts build for a hash: field, value, field, value, and so on.\<close>

definition hgetall_reply :: "hash \<Rightarrow> gval list" where
  "hgetall_reply h = concat (map (\<lambda>(k, v). [GStr k, GStr v]) h)"

lemma flat_pairs_hgetall: "flat_pairs i m (hgetall_reply h) = Inr (hset_all m h)"
  by (induction h arbitrary: i m) (auto simp: hgetall_reply_def)

lemma hset_new: "k \<notin> set (map fst m) \<Longrightarrow> hset m k v = m @ [(k, v)]"
  by (induction m k v rule: hset.induct) auto

lemma hset_all_distinct: "distinct (map fst (m @ h)) \<Longrightarrow> hset_all m h = m @ h"
proof (induction m h rule: hset_all.induct)
  case (2 m k v kvs)
  then show ?case by (simp add: hset_new)
qed simp

lemma length_hgetall_reply: "length (hgetall_reply h) = 2 * length h"
  by (induction h) (auto simp: hgetall_reply_def)

lemma flatHashToMap_hgetall: "distinct (map fst h) \<Longrightarrow> flatHashToMap (hgetall_reply h) = Inr h"
  by (simp add: flatHashToMap_def length_hgetall_reply flat_pairs_hgetall hset_all_distinct)

lemma flat_pairs_wf:
  "flat_pairs i m arr = Inr h \<Longrightarrow> distinct (map fst m) \<Longrightarrow> distinct (map fst h)"
  by (induction i m arr rule: flat_pairs.induct) (auto intro: distinct_hset simp del: set_map)

lemma parseMoveToActiveResult_id:
  "parseMoveToActiveResult r = Inr (GotJob m jid) \<Longrightarrow> jid \<noteq> [] \<and> distinct (map fst m) \<and> (\<exists>arr. r = GArr arr)"
  using flat_pairs_wf [of 0 "[]"]
  by (fastforce simp: parseMoveToActiveResult_def flatHashToMap_def split: gval.splits if_splits sum.splits)

interpretation hgetall: codec hgetall_reply "\<lambda>arr. case flatHashToMap arr of Inr h \<Rightarrow> Some h | Inl _ \<Rightarrow> None"
  "\<lambda>h. distinct (map fst h)"
  by unfold_locales (simp add: flatHashToMap_hgetall)

section \<open>Lemmas: accepted calls\<close>

text \<open>The script call of a trace was answered, and not by an error code.\<close>

fun okReply :: "event \<Rightarrow> bool" where
  "okReply (Cmd (EvalSha c sha ks as) (Inr v)) = (error_code v = None)"
| "okReply e = False"

definition accepted :: "event list \<Rightarrow> bool" where
  "accepted es = list_ex okReply es"

lemma accepted_append [simp]: "accepted (es @ es') \<longleftrightarrow> accepted es \<or> accepted es'"
  by (simp add: accepted_def)

lemma acceptedI:
  "\<exists>sha. Cmd (EvalSha c sha ks as) (Inr v) \<in> set es \<Longrightarrow> error_code v = None \<Longrightarrow> accepted es"
  by (auto simp: accepted_def list_ex_iff intro!: bexI)

text \<open>The jobs a trace acquires: those in the replies of the two dequeuing scripts.\<close>

definition jobs_of :: "goerr + gval \<Rightarrow> string list" where
  "jobs_of r = (case r of
       Inl _ \<Rightarrow> []
     | Inr v \<Rightarrow> (case parseMoveToActiveResult v of Inr (GotJob m jobID) \<Rightarrow> [jobID] | _ \<Rightarrow> []))"

definition dequeues :: "string \<Rightarrow> bool" where
  "dequeues name \<longleftrightarrow> name = MoveToActive \<or> name = MoveToFinished"

definition acquired :: "event list \<Rightarrow> string list" where
  "acquired es = concat (map (\<lambda>(n, r). if dequeues n then jobs_of r else []) (replies es))"

lemma acquired_append [simp]: "acquired (es @ es') = acquired es @ acquired es'"
  by (simp add: acquired_def)

lemma acquired_simps [simp]:
  "acquired [] = []" "acquired (ScriptReply n r # es) = (if dequeues n then jobs_of r else []) @ acquired es"
  "acquired (ScriptCall c nm ks as # es) = acquired es" "acquired (Cmd d q # es) = acquired es"
  "acquired (Log l m a # es) = acquired es" "acquired (CounterAdd nm x a # es) = acquired es"
  "acquired (GaugeAdd nm x a # es) = acquired es" "acquired (HistogramObserve nm a # es) = acquired es"
  "acquired (SpanStart nm a # es) = acquired es" "acquired (SpanSetAttrs a # es) = acquired es"
  "acquired (SpanSetError e # es) = acquired es" "acquired (SpanEnd # es) = acquired es"
  "acquired (HandlerCall nm # es) = acquired es" "acquired (Sleep du # es) = acquired es"
  by (simp_all add: acquired_def)

text \<open>Events that neither show up in \<open>obs\<close> nor acquire a job.\<close>

definition quiet :: "event list \<Rightarrow> bool" where
  "quiet es \<longleftrightarrow> obs es = [] \<and> acquired es = []"

lemma quiet_simps [simp]:
  "quiet []" "quiet (Cmd c r # es) = quiet es" "quiet (Log l m a # es) = quiet es"
  "quiet (es @ es') \<longleftrightarrow> quiet es \<and> quiet es'"
  by (auto simp: quiet_def)

lemma quietD: "quiet es \<Longrightarrow> obs es = []" "quiet es \<Longrightarrow> acquired es = []"
  by (simp_all add: quiet_def)

lemma does_script:
  assumes "\<And>r es. obs es = [ScriptCall c name keys args] \<Longrightarrow>
      acquired es = (if dequeues name then jobs_of r else []) \<Longrightarrow>
      (\<And>v. r = Inr v \<Longrightarrow> error_code v = None \<Longrightarrow> accepted es) \<Longrightarrow>
      (\<And>v. r = Inr v \<Longrightarrow> answers sv (ScriptCall c name keys args) v) \<Longrightarrow> Q r es"
  shows "does (Run sv c name keys args) Q"
  by (rule does_Run) (rule assms, auto simp: acquired_def intro: acceptedI)

lemma dequeues_simps [simp]:
  "dequeues MoveToActive" "dequeues MoveToFinished" "\<not> dequeues RetryJob" "\<not> dequeues MoveToDelayed"
  "\<not> dequeues ExtendLock" "\<not> dequeues ReleaseLock" "\<not> dequeues UpdateJobScheduler" "\<not> dequeues AddJobScheduler"
  "\<not> dequeues MoveStalledJobsToWait"
  by (simp_all add: dequeues_def script_name_defs)

section \<open>Properties\<close>

text \<open>
  C33: The replies of the dequeue scripts are read back exactly: a job's hash, flattened to field,
  value, field, value, comes back as the same hash under the job's id, and a reply without a job
  yields the rate-limit cooldown and the next delayed timestamp that Redis put into it.
\<close>

theorem dequeue_reply_roundtrip:
  assumes "distinct (map fst h)" "jobID \<noteq> []"
  shows "parseMoveToActiveResult (GArr [GArr (hgetall_reply h), GStr jobID, GInt64 a, GInt64 b]) = Inr (GotJob h jobID) \<and>
    parseMoveToActiveResult (GArr [GInt64 0, GInt64 0, GInt64 cooldown, GInt64 nextDelayed]) = Inr (NoJob cooldown nextDelayed)"
  using assms by (simp add: parseMoveToActiveResult_def flatHashToMap_hgetall toInt64_def)

theorem dequeue_reply_roundtrip_witness:
  "parseMoveToActiveResult (GArr [GArr (hgetall_reply [(''name'', ''mail''), (''atm'', ''1'')]), GStr ''7'', GInt64 0, GInt64 0]) =
     Inr (GotJob [(''name'', ''mail''), (''atm'', ''1'')] ''7'')"
  using dequeue_reply_roundtrip [of "[(''name'', ''mail''), (''atm'', ''1'')]" "''7''" 0 0] by simp

end
