(* ===== verification/Options.thy ===== *)
theory Options
  imports Backoff Proto
begin

text \<open>
  \<open>options.go\<close> and \<open>worker_options.go\<close>: the functional options as functions on the
  configuration record, and the translation of an \<open>addConfig\<close> to the wire record
  (\<open>toProtoOpts\<close>, \<open>buildRetentionLimit\<close> of \<open>queue.go\<close>).  A Go pointer that may be nil is an
  option.
\<close>

section \<open>Options of \<open>Queue.Add\<close>\<close>

record addConfig =
  ac_jobID :: string
  ac_jobName :: string
  ac_jobNameSet :: bool
  ac_delay :: duration
  ac_attempts :: int
  ac_priority :: int
  ac_lifo :: bool
  ac_backoff :: "BackoffStrategy option"
  ac_keepCompleted :: "int option"
  ac_keepFailed :: "int option"
  ac_keepCompletedAge :: "duration option"
  ac_keepFailedAge :: "duration option"
  ac_dedupID :: string
  ac_dedupTTL :: duration
  ac_dedupSet :: bool

type_synonym AddOption = "addConfig \<Rightarrow> addConfig"

definition zero_addConfig :: addConfig where
  "zero_addConfig = \<lparr>ac_jobID = [], ac_jobName = [], ac_jobNameSet = False, ac_delay = 0,
     ac_attempts = 0, ac_priority = 0, ac_lifo = False, ac_backoff = None, ac_keepCompleted = None,
     ac_keepFailed = None, ac_keepCompletedAge = None, ac_keepFailedAge = None, ac_dedupID = [],
     ac_dedupTTL = 0, ac_dedupSet = False\<rparr>"

definition WithJobID :: "string \<Rightarrow> AddOption" where
  "WithJobID jid c = c\<lparr>ac_jobID := jid\<rparr>"

definition WithJobName :: "string \<Rightarrow> AddOption" where
  "WithJobName name c = c\<lparr>ac_jobName := name, ac_jobNameSet := True\<rparr>"

definition WithDelay :: "duration \<Rightarrow> AddOption" where
  "WithDelay d c = c\<lparr>ac_delay := d\<rparr>"

definition WithAttempts :: "int \<Rightarrow> AddOption" where
  "WithAttempts n c = c\<lparr>ac_attempts := n\<rparr>"

definition WithPriority :: "int \<Rightarrow> AddOption" where
  "WithPriority p c = c\<lparr>ac_priority := p\<rparr>"

definition WithLifo :: "bool \<Rightarrow> AddOption" where
  "WithLifo lifo c = c\<lparr>ac_lifo := lifo\<rparr>"

definition WithBackoff :: "BackoffStrategy \<Rightarrow> AddOption" where
  "WithBackoff b c = c\<lparr>ac_backoff := Some b\<rparr>"

definition WithKeepCompleted :: "int \<Rightarrow> AddOption" where
  "WithKeepCompleted n c = c\<lparr>ac_keepCompleted := Some n\<rparr>"

definition WithKeepFailed :: "int \<Rightarrow> AddOption" where
  "WithKeepFailed n c = c\<lparr>ac_keepFailed := Some n\<rparr>"

definition WithKeepCompletedAge :: "duration \<Rightarrow> AddOption" where
  "WithKeepCompletedAge age c = c\<lparr>ac_keepCompletedAge := Some age\<rparr>"

definition WithKeepFailedAge :: "duration \<Rightarrow> AddOption" where
  "WithKeepFailedAge age c = c\<lparr>ac_keepFailedAge := Some age\<rparr>"

definition WithDeduplication :: "string \<Rightarrow> duration \<Rightarrow> AddOption" where
  "WithDeduplication did ttl c = c\<lparr>ac_dedupID := did, ac_dedupTTL := ttl, ac_dedupSet := True\<rparr>"

definition WithUnique :: "string \<Rightarrow> duration \<Rightarrow> AddOption" where
  "WithUnique did ttl = WithDeduplication did ttl"

lemmas add_option_defs = WithJobID_def WithJobName_def WithDelay_def WithAttempts_def
  WithPriority_def WithLifo_def WithBackoff_def WithKeepCompleted_def WithKeepFailed_def
  WithKeepCompletedAge_def WithKeepFailedAge_def WithDeduplication_def WithUnique_def

text \<open>The loop \<open>for _, o := range opts { o(&cfg) }\<close>.\<close>

definition apply_options :: "('c \<Rightarrow> 'c) list \<Rightarrow> 'c \<Rightarrow> 'c" where
  "apply_options opts c = fold (\<lambda>f c. f c) opts c"

section \<open>Options of \<open>Process\<close>\<close>

record workerLimiter =
  wl_max :: int
  wl_duration :: duration

record workerConfig =
  wc_concurrency :: int
  wc_lockDuration :: duration
  wc_workerName :: string
  wc_idlePollInterval :: duration
  wc_stalledInterval :: duration
  wc_maxStalledCount :: int
  wc_limiter :: "workerLimiter option"
  wc_maxDataPoints :: int
  wc_backoffStrategy :: "CustomBackoffFunc option"
  wc_backoffFunc :: "BackoffFunc option"
  wc_retryDelayOverride :: "RetryDelayFunc option"

type_synonym WorkerOption = "workerConfig \<Rightarrow> workerConfig"

definition default_workerConfig :: workerConfig where
  "default_workerConfig = \<lparr>wc_concurrency = 1, wc_lockDuration = 30 * Second, wc_workerName = [],
     wc_idlePollInterval = 100 * Millisecond, wc_stalledInterval = 30 * Second,
     wc_maxStalledCount = 1, wc_limiter = None, wc_maxDataPoints = 0, wc_backoffStrategy = None,
     wc_backoffFunc = None, wc_retryDelayOverride = None\<rparr>"

definition WithConcurrency :: "int \<Rightarrow> WorkerOption" where
  "WithConcurrency n c = c\<lparr>wc_concurrency := n\<rparr>"

definition WithLockDuration :: "duration \<Rightarrow> WorkerOption" where
  "WithLockDuration d c = c\<lparr>wc_lockDuration := d\<rparr>"

definition WithWorkerName :: "string \<Rightarrow> WorkerOption" where
  "WithWorkerName name c = c\<lparr>wc_workerName := name\<rparr>"

definition WithIdlePollInterval :: "duration \<Rightarrow> WorkerOption" where
  "WithIdlePollInterval d c = c\<lparr>wc_idlePollInterval := d\<rparr>"

definition WithStalledInterval :: "duration \<Rightarrow> WorkerOption" where
  "WithStalledInterval d c = c\<lparr>wc_stalledInterval := d\<rparr>"

definition WithMaxStalledCount :: "int \<Rightarrow> WorkerOption" where
  "WithMaxStalledCount n c = c\<lparr>wc_maxStalledCount := n\<rparr>"

definition WithRateLimit :: "int \<Rightarrow> duration \<Rightarrow> WorkerOption" where
  "WithRateLimit mx d c =
     (if mx \<le> 0 \<or> d \<le> 0 then c\<lparr>wc_limiter := None\<rparr>
      else c\<lparr>wc_limiter := Some \<lparr>wl_max = mx, wl_duration = d\<rparr>\<rparr>)"

definition WithBackoffStrategy :: "CustomBackoffFunc option \<Rightarrow> WorkerOption" where
  "WithBackoffStrategy fn c = c\<lparr>wc_backoffStrategy := fn\<rparr>"

definition WithBackoffStrategyFunc :: "BackoffFunc option \<Rightarrow> WorkerOption" where
  "WithBackoffStrategyFunc fn c = c\<lparr>wc_backoffFunc := fn\<rparr>"

definition WithJobMetrics :: "int \<Rightarrow> WorkerOption" where
  "WithJobMetrics maxDataPoints c =
     (let n = (if maxDataPoints < 0 then 0 else maxDataPoints) in c\<lparr>wc_maxDataPoints := n\<rparr>)"

definition WithRetryDelayOverride :: "RetryDelayFunc option \<Rightarrow> WorkerOption" where
  "WithRetryDelayOverride fn c = c\<lparr>wc_retryDelayOverride := fn\<rparr>"

lemmas worker_option_defs = WithConcurrency_def WithLockDuration_def WithWorkerName_def
  WithIdlePollInterval_def WithStalledInterval_def WithMaxStalledCount_def WithRateLimit_def
  WithBackoffStrategy_def WithBackoffStrategyFunc_def WithJobMetrics_def WithRetryDelayOverride_def

section \<open>Translation to the wire\<close>

definition buildRetentionLimit :: "int option \<Rightarrow> duration option \<Rightarrow> RetentionLimit option" where
  "buildRetentionLimit count age =
     (if count = None \<and> age = None then None
      else Some \<lparr>rl_Count = count, rl_AgeSeconds = map_option wholeSeconds age\<rparr>)"

definition toProtoOpts :: "addConfig \<Rightarrow> int \<Rightarrow> AddOpts" where
  "toProtoOpts cfg delayMs =
     \<lparr>ao_Delay = delayMs, ao_Priority = ac_priority cfg, ao_Attempts = ac_attempts cfg,
      ao_Backoff = map_option (\<lambda>b. \<lparr>pb_Type = bs_Type b, pb_Delay = Milliseconds (bs_Delay b),
        pb_Jitter = bs_Jitter b\<rparr>) (ac_backoff cfg),
      ao_Lifo = ac_lifo cfg,
      ao_RemoveOnComplete = buildRetentionLimit (ac_keepCompleted cfg) (ac_keepCompletedAge cfg),
      ao_RemoveOnFail = buildRetentionLimit (ac_keepFailed cfg) (ac_keepFailedAge cfg),
      ao_Deduplication =
        (if ac_dedupID cfg \<noteq> [] then Some \<lparr>de_ID = ac_dedupID cfg, de_TTLMillis = Milliseconds (ac_dedupTTL cfg)\<rparr>
         else None)\<rparr>"

section \<open>Lemmas\<close>

lemma apply_options_append: "apply_options (xs @ ys) c = apply_options ys (apply_options xs c)"
  by (simp add: apply_options_def)

lemma retention_wire:
  "encodeRetentionLimit (buildRetentionLimit count age) =
     (case age of
        None \<Rightarrow> map_option MInt count
      | Some a \<Rightarrow> if wholeSeconds a \<le> 0 then map_option MInt count
          else Some (MMap ((case count of None \<Rightarrow> [] | Some c \<Rightarrow> [(''count'', MInt c)]) @
                           [(''age'', MInt (wholeSeconds a))])))"
  by (cases age; cases count) (simp_all add: buildRetentionLimit_def encodeRetentionLimit_def)

lemma retention_wire_subsecond:
  "0 \<le> a \<Longrightarrow> a < Second \<Longrightarrow> encodeRetentionLimit (buildRetentionLimit count (Some a)) = map_option MInt count"
  by (simp add: retention_wire wholeSeconds_subsecond)

section \<open>Properties\<close>

text \<open>
  A retention age below one second never reaches the wire: the option encodes as if only the
  count had been given, and is left out when there is no count; a whole number of seconds is
  carried exactly, beside the count.
\<close>

lemma retention_age_resolution:
  assumes "0 \<le> a" "a < Second" "0 < s" "s < 2 ^ 33"
  shows "encodeRetentionLimit (buildRetentionLimit count (Some a)) = map_option MInt count \<and>
    encodeRetentionLimit (buildRetentionLimit (Some n) (Some (s * Second))) =
      Some (MMap [(''count'', MInt n), (''age'', MInt s)])"
  using retention_wire_subsecond [OF assms(1,2)] retention_wire [of "Some n" "Some (s * Second)"]
    wholeSeconds_exact [of s] assms(3,4) by simp

end
