(* ===== verification/Keys.thy ===== *)
theory Keys
  imports Mkq_Prelude
begin

text \<open>
  The key layout: \<open>internal/keys/keys.go\<close> (the \<open>Builder\<close>), the key snapshot and the
  positional \<open>KEYS\<close> arrays of \<open>worker.go\<close> (\<open>queueKeys\<close>), and the key-shaped helpers of
  \<open>mkq.go\<close> (the registry key, the queue name inside a meta key, glob quoting).  The lemmas
  show that the layout is collision free where the code relies on it.
\<close>

section \<open>The key builder\<close>

record builder =
  Prefix :: string
  Queue :: string

definition DefaultPrefix :: string where
  "DefaultPrefix = ''bull''"

definition New :: "string \<Rightarrow> string \<Rightarrow> builder" where
  "New prefix queue =
     (let prefix = (if prefix = [] then DefaultPrefix else prefix)
      in \<lparr>Prefix = prefix, Queue = queue\<rparr>)"

definition Base :: "builder \<Rightarrow> string" where
  "Base b = Prefix b @ '':'' @ Queue b @ '':''"

definition Wait :: "builder \<Rightarrow> string" where "Wait b = Base b @ ''wait''"
definition Active :: "builder \<Rightarrow> string" where "Active b = Base b @ ''active''"
definition Delayed :: "builder \<Rightarrow> string" where "Delayed b = Base b @ ''delayed''"
definition Prioritized :: "builder \<Rightarrow> string" where "Prioritized b = Base b @ ''prioritized''"
definition Completed :: "builder \<Rightarrow> string" where "Completed b = Base b @ ''completed''"
definition Failed :: "builder \<Rightarrow> string" where "Failed b = Base b @ ''failed''"
definition Paused :: "builder \<Rightarrow> string" where "Paused b = Base b @ ''paused''"
definition Stalled :: "builder \<Rightarrow> string" where "Stalled b = Base b @ ''stalled''"
definition StalledCheck :: "builder \<Rightarrow> string" where "StalledCheck b = Base b @ ''stalled-check''"
definition Meta :: "builder \<Rightarrow> string" where "Meta b = Base b @ ''meta''"
definition ID :: "builder \<Rightarrow> string" where "ID b = Base b @ ''id''"
definition Marker :: "builder \<Rightarrow> string" where "Marker b = Base b @ ''marker''"
definition PriorityCounter :: "builder \<Rightarrow> string" where "PriorityCounter b = Base b @ ''pc''"
definition Events :: "builder \<Rightarrow> string" where "Events b = Base b @ ''events''"
definition Limiter :: "builder \<Rightarrow> string" where "Limiter b = Base b @ ''limiter''"
definition Repeat :: "builder \<Rightarrow> string" where "Repeat b = Base b @ ''repeat''"
definition Schedule :: "builder \<Rightarrow> string \<Rightarrow> string" where
  "Schedule b scheduleID = Base b @ ''repeat:'' @ scheduleID"
definition Dedup :: "builder \<Rightarrow> string \<Rightarrow> string" where
  "Dedup b dedupID = Base b @ ''de:'' @ dedupID"
definition Metrics :: "builder \<Rightarrow> string \<Rightarrow> string" where
  "Metrics b target = Base b @ ''metrics:'' @ target"
definition JobKey :: "builder \<Rightarrow> string \<Rightarrow> string" where "JobKey b jobID = Base b @ jobID"
definition JobLogs :: "builder \<Rightarrow> string \<Rightarrow> string" where "JobLogs b jobID = JobKey b jobID @ '':logs''"
definition JobLock :: "builder \<Rightarrow> string \<Rightarrow> string" where "JobLock b jobID = JobKey b jobID @ '':lock''"
definition JobUint :: "builder \<Rightarrow> nat \<Rightarrow> string" where "JobUint b n = Base b @ fmt_nat n"

lemmas key_defs = Wait_def Active_def Delayed_def Prioritized_def Completed_def Failed_def
  Paused_def Stalled_def StalledCheck_def Meta_def ID_def Marker_def PriorityCounter_def
  Events_def Limiter_def Repeat_def

lemmas dynamic_key_defs = Schedule_def Dedup_def Metrics_def JobKey_def JobLogs_def JobLock_def
  JobUint_def

section \<open>The worker's key snapshot\<close>

record queueKeys =
  k_wait :: string
  k_active :: string
  k_prioritized :: string
  k_events :: string
  k_stalled :: string
  k_limiter :: string
  k_delayed :: string
  k_paused :: string
  k_meta :: string
  k_pc :: string
  k_marker :: string
  k_completed :: string
  k_failed :: string
  k_metricsCompleted :: string
  k_metricsFailed :: string
  k_stalledCheck :: string
  k_prefix :: string
  k_repeat :: string
  k_id :: string
  k_builder :: builder

definition newQueueKeys :: "builder \<Rightarrow> queueKeys" where
  "newQueueKeys b = \<lparr>k_wait = Wait b, k_active = Active b, k_prioritized = Prioritized b,
     k_events = Events b, k_stalled = Stalled b, k_limiter = Limiter b, k_delayed = Delayed b,
     k_paused = Paused b, k_meta = Meta b, k_pc = PriorityCounter b, k_marker = Marker b,
     k_completed = Completed b, k_failed = Failed b, k_metricsCompleted = Metrics b ''completed'',
     k_metricsFailed = Metrics b ''failed'', k_stalledCheck = StalledCheck b, k_prefix = Base b,
     k_repeat = Repeat b, k_id = ID b, k_builder = b\<rparr>"

definition jobLock :: "queueKeys \<Rightarrow> string \<Rightarrow> string" where
  "jobLock k jobID = k_prefix k @ jobID @ '':lock''"

definition job_key :: "queueKeys \<Rightarrow> string \<Rightarrow> string" where
  "job_key k jobID = k_prefix k @ jobID"

definition moveToActiveKeys :: "queueKeys \<Rightarrow> string list" where
  "moveToActiveKeys k =
     [k_wait k, k_active k, k_prioritized k, k_events k, k_stalled k,
      k_limiter k, k_delayed k, k_paused k, k_meta k, k_pc k,
      k_marker k]"

definition moveToFinishedKeys :: "queueKeys \<Rightarrow> string \<Rightarrow> string \<Rightarrow> string list" where
  "moveToFinishedKeys k jobID target =
     (let resultSet = (if target = ''failed'' then k_failed k else k_completed k);
          metricsKey = (if target = ''failed'' then k_metricsFailed k else k_metricsCompleted k)
      in [k_wait k, k_active k, k_prioritized k, k_events k, k_stalled k,
          k_limiter k, k_delayed k, k_paused k, k_meta k, k_pc k,
          resultSet, job_key k jobID, metricsKey, k_marker k])"

definition retryJobKeys :: "queueKeys \<Rightarrow> string \<Rightarrow> string list" where
  "retryJobKeys k jobID =
     [k_active k, k_wait k, k_paused k, job_key k jobID, k_meta k, k_events k,
      k_delayed k, k_prioritized k, k_pc k, k_marker k, k_stalled k]"

definition moveStalledKeys :: "queueKeys \<Rightarrow> string list" where
  "moveStalledKeys k =
     [k_stalled k, k_wait k, k_active k, k_stalledCheck k, k_meta k,
      k_paused k, k_marker k, k_events k, k_repeat k]"

definition moveToDelayedKeys :: "queueKeys \<Rightarrow> string \<Rightarrow> string list" where
  "moveToDelayedKeys k jobID =
     [k_marker k, k_active k, k_prioritized k, k_delayed k, job_key k jobID,
      k_events k, k_meta k, k_stalled k, k_wait k, k_limiter k, k_pc k]"

section \<open>Client-level keys\<close>

definition queueRegistryKey :: "string \<Rightarrow> string" where
  "queueRegistryKey keyPrefix = keyPrefix @ ''::queues''"

text \<open>\<open>None\<close> is the Go pair \<open>("", false)\<close>.\<close>

definition queueNameFromMetaKey :: "string \<Rightarrow> string \<Rightarrow> string option outcome" where
  "queueNameFromMetaKey keyPrefix key =
     (let suffix = '':meta''; prefix = keyPrefix @ '':''
      in if \<not> HasPrefix key prefix \<or> \<not> HasSuffix key suffix then Returns None
         else case go_slice key (int (length prefix)) (int (length key) - int (length suffix)) of
             Panics m \<Rightarrow> Panics m
           | Returns name \<Rightarrow> Returns (if name = [] then None else Some name))"

fun escapeGlob :: "string \<Rightarrow> string" where
  "escapeGlob [] = []"
| "escapeGlob (c # cs) =
     (if c = CHR ''*'' \<or> c = CHR ''?'' \<or> c = CHR ''['' \<or> c = CHR '']'' \<or> c = CHR 0x5C
      then CHR 0x5C # c # escapeGlob cs
      else c # escapeGlob cs)"

text \<open>The pattern \<open>DiscoverQueues\<close> hands to SCAN.\<close>

definition discoverPattern :: "string \<Rightarrow> string" where
  "discoverPattern keyPrefix = escapeGlob keyPrefix @ '':*:meta''"

section \<open>Lemmas: the layout\<close>

lemma Prefix_New_nonempty: "Prefix (New p q) \<noteq> []"
  by (simp add: New_def DefaultPrefix_def)

lemma Queue_New [simp]: "Queue (New p q) = q"
  by (simp add: New_def)

text \<open>The queue-level keys, in the order of the builder's methods, and their suffixes.\<close>

definition queueLevelKeys :: "builder \<Rightarrow> string list" where
  "queueLevelKeys b = [Wait b, Active b, Delayed b, Prioritized b, Completed b, Failed b, Paused b,
     Stalled b, StalledCheck b, Meta b, ID b, Marker b, PriorityCounter b, Events b, Limiter b,
     Repeat b]"

definition reservedSuffixes :: "string list" where
  "reservedSuffixes = [''wait'', ''active'', ''delayed'', ''prioritized'', ''completed'', ''failed'',
     ''paused'', ''stalled'', ''stalled-check'', ''meta'', ''id'', ''marker'', ''pc'', ''events'',
     ''limiter'', ''repeat'']"

lemma queueLevelKeys_alt: "queueLevelKeys b = map (\<lambda>s. Base b @ s) reservedSuffixes"
  by (simp add: queueLevelKeys_def reservedSuffixes_def key_defs)

lemma distinct_reservedSuffixes: "distinct reservedSuffixes"
  by (simp add: reservedSuffixes_def)

interpretation job_keys: codec "JobKey b" "\<lambda>k. if HasPrefix k (Base b) then Some (drop (length (Base b)) k) else None"
  "\<lambda>_. True" for b
  by unfold_locales (simp add: JobKey_def HasPrefix_def)

section \<open>Lemmas: queue names and glob quoting\<close>

lemma queueNameFromMetaKey_split:
  "queueNameFromMetaKey p (p @ '':'' @ name @ '':meta'') = Returns (if name = [] then None else Some name)"
proof -
  have "HasPrefix (p @ '':'' @ name @ '':meta'') (p @ '':'')"
    by (simp add: HasPrefix_iff)
  moreover have "HasSuffix (p @ '':'' @ name @ '':meta'') '':meta''"
    by (simp add: HasSuffix_iff)
  ultimately show ?thesis
    by (simp add: queueNameFromMetaKey_def go_slice_def Let_def nat_diff_distrib nat_add_distrib)
qed

definition metaKeyName :: "string \<Rightarrow> string \<Rightarrow> string option" where
  "metaKeyName p key = (case queueNameFromMetaKey p key of Returns r \<Rightarrow> r | Panics _ \<Rightarrow> None)"

interpretation meta_keys: codec "\<lambda>name. Meta (New p name)" "metaKeyName (Prefix (New p []))" "\<lambda>name. name \<noteq> []" for p
  using queueNameFromMetaKey_split
  by unfold_locales (simp add: metaKeyName_def Meta_def Base_def New_def)

text \<open>
  What the pattern matcher of SCAN promises for a quoted and for an ordinary character; a
  \<open>gmatch\<close> argument below stands for it.
\<close>

definition glob_special :: "char \<Rightarrow> bool" where
  "glob_special c \<longleftrightarrow> c \<in> {CHR ''*'', CHR ''?'', CHR ''['', CHR '']'', CHR 0x5C}"

definition glob_literal :: "(string \<Rightarrow> string \<Rightarrow> bool) \<Rightarrow> bool" where
  "glob_literal gmatch \<longleftrightarrow>
     (\<forall>c p s. gmatch (CHR 0x5C # c # p) s \<longleftrightarrow> (\<exists>s'. s = c # s' \<and> gmatch p s')) \<and>
     (\<forall>c p s. \<not> glob_special c \<longrightarrow> gmatch (c # p) s \<longleftrightarrow> (\<exists>s'. s = c # s' \<and> gmatch p s'))"

lemma gmatch_escapeGlob:
  assumes "glob_literal gmatch"
  shows "gmatch (escapeGlob q @ p) s \<longleftrightarrow> (\<exists>s'. s = q @ s' \<and> gmatch p s')"
proof (induction q arbitrary: s)
  case Nil
  then show ?case by simp
next
  case (Cons c q)
  have "gmatch (escapeGlob (c # q) @ p) s \<longleftrightarrow> (\<exists>s'. s = c # s' \<and> gmatch (escapeGlob q @ p) s')"
    using assms by (auto simp: glob_literal_def glob_special_def)
  with Cons.IH show ?case by auto
qed

section \<open>Properties\<close>

text \<open>
  The sixteen keys a queue keeps are pairwise different, and the key of a job's hash is one of
  them exactly when the job id is one of the sixteen reserved words.
\<close>

lemma queue_keys_distinct:
  "distinct (queueLevelKeys b) \<and> (JobKey b jobID \<in> set (queueLevelKeys b) \<longleftrightarrow> jobID \<in> set reservedSuffixes)"
proof -
  have "distinct (queueLevelKeys b)"
    using distinct_reservedSuffixes by (simp add: queueLevelKeys_alt distinct_map inj_on_def)
  moreover have "JobKey b jobID \<in> set (queueLevelKeys b) \<longleftrightarrow> jobID \<in> set reservedSuffixes"
    by (auto simp: queueLevelKeys_alt JobKey_def)
  ultimately show ?thesis by simp
qed

text \<open>
  When two names give the same key: the longer name continues the shorter one after a colon, and the
  rest of the one key is the difference, a colon and the rest of the other.
\<close>

lemma colon_append_eq_iff:
  "q @ '':'' @ s = q' @ '':'' @ t \<longleftrightarrow>
     q = q' \<and> s = t \<or> (\<exists>u. q' = q @ '':'' @ u \<and> s = u @ '':'' @ t) \<or> (\<exists>u. q = q' @ '':'' @ u \<and> t = u @ '':'' @ s)"
proof
  assume "q @ '':'' @ s = q' @ '':'' @ t"
  then obtain v where "q = q' @ v \<and> v @ '':'' @ s = '':'' @ t \<or> q @ v = q' \<and> '':'' @ s = v @ '':'' @ t"
    unfolding append_eq_append_conv2 by blast
  then show "q = q' \<and> s = t \<or> (\<exists>u. q' = q @ '':'' @ u \<and> s = u @ '':'' @ t) \<or> (\<exists>u. q = q' @ '':'' @ u \<and> t = u @ '':'' @ s)"
    by (cases v) auto
qed auto

lemma Base_append_iff:
  "Base (New p q) @ s = Base (New p q') @ t \<longleftrightarrow>
     q = q' \<and> s = t \<or> (\<exists>u. q' = q @ '':'' @ u \<and> s = u @ '':'' @ t) \<or> (\<exists>u. q = q' @ '':'' @ u \<and> t = u @ '':'' @ s)"
  using colon_append_eq_iff [of q s q' t] by (simp add: Base_def New_def)

lemma reservedSuffixes_no_colon: "x \<in> set reservedSuffixes \<Longrightarrow> CHR '':'' \<notin> set x"
  by (auto simp: reservedSuffixes_def)

text \<open>
  C40: What two queues of one deployment with different names can share.  The sixteen keys that a
  queue keeps are never keys of the other, whatever the names are.  Of all other keys (jobs, locks,
  logs, deduplication) two are equal exactly when one name continues the other after a colon and
  the rest of the key makes up the difference, so names without a colon share nothing.  The
  registry of queue names is a key of the empty name only.
\<close>

theorem queues_isolated:
  assumes "q \<noteq> q'"
  shows "set (queueLevelKeys (New p q)) \<inter> set (queueLevelKeys (New p q')) = {} \<and>
    (Base (New p q) @ s = Base (New p q') @ t \<longleftrightarrow>
       (\<exists>u. q' = q @ '':'' @ u \<and> s = u @ '':'' @ t) \<or> (\<exists>u. q = q' @ '':'' @ u \<and> t = u @ '':'' @ s)) \<and>
    (queueRegistryKey (Prefix (New p [])) = Base (New p q) @ s \<longleftrightarrow> q = [] \<and> s = ''queues'')"
proof (intro conjI)
  show "set (queueLevelKeys (New p q)) \<inter> set (queueLevelKeys (New p q')) = {}"
    using assms by (auto simp: queueLevelKeys_alt Base_append_iff dest!: reservedSuffixes_no_colon)
  show "Base (New p q) @ s = Base (New p q') @ t \<longleftrightarrow>
       (\<exists>u. q' = q @ '':'' @ u \<and> s = u @ '':'' @ t) \<or> (\<exists>u. q = q' @ '':'' @ u \<and> t = u @ '':'' @ s)"
    using assms by (simp add: Base_append_iff)
  have "CHR '':'' \<notin> set ''queues''" by simp
  then have "''queues'' \<noteq> l @ CHR '':'' # s" for l by (metis in_set_conv_decomp)
  then have "'':queues'' = q @ '':'' @ s \<longleftrightarrow> q = [] \<and> s = ''queues''" by (cases q) auto
  then show "queueRegistryKey (Prefix (New p [])) = Base (New p q) @ s \<longleftrightarrow> q = [] \<and> s = ''queues''"
    by (simp add: queueRegistryKey_def Base_def New_def)
qed

theorem queues_isolated_witness:
  "set (queueLevelKeys (New [] ''tenant'')) \<inter> set (queueLevelKeys (New [] ''tenant:a'')) = {} \<and>
   Base (New [] ''tenant'') @ ''a:7'' = Base (New [] ''tenant:a'') @ ''7'' \<and>
   queueRegistryKey (Prefix (New [] [])) \<noteq> Base (New [] ''tenant'') @ ''a:7''"
  using queues_isolated [of "''tenant''" "''tenant:a''" "[]" "''a:7''" "''7''"] by simp

text \<open>
  Names with a colon do collide in the keys of jobs: the job \<open>a:wait\<close> of the queue \<open>tenant\<close> is stored
  under the key of the waiting list of the queue \<open>tenant:a\<close>.
\<close>

lemma colon_names_collide: "JobKey (New [] ''tenant'') ''a:wait'' = Wait (New [] ''tenant:a'')"
  by (simp add: JobKey_def Wait_def Base_def New_def)

text \<open>
  A queue name is read back from the meta key that was built for it, even with colons in it;
  only the empty name is not; and no key of that shape makes the slice expression panic.
\<close>

lemma meta_key_roundtrip:
  "queueNameFromMetaKey (Prefix (New p [])) (Meta (New p name)) = Returns (if name = [] then None else Some name)"
  using queueNameFromMetaKey_split [of "Prefix (New p [])" name] by (simp add: Meta_def Base_def New_def)

text \<open>What SCAN's matcher promises besides the literals: the star and the end of the pattern.\<close>

definition glob_ok :: "(string \<Rightarrow> string \<Rightarrow> bool) \<Rightarrow> bool" where
  "glob_ok gmatch \<longleftrightarrow> glob_literal gmatch \<and> (\<forall>s. gmatch [] s \<longleftrightarrow> s = []) \<and>
     (\<forall>p s. gmatch (CHR ''*'' # p) s \<longleftrightarrow> (\<exists>u v. s = u @ v \<and> gmatch p v))"

lemma gmatch_literals:
  assumes "glob_literal gmatch" "\<And>s. gmatch [] s \<longleftrightarrow> s = []" "\<forall>c \<in> set q. \<not> glob_special c"
  shows "gmatch q s \<longleftrightarrow> s = q"
  using assms(3)
proof (induction q arbitrary: s)
  case Nil
  then show ?case by (simp add: assms(2))
next
  case (Cons c q)
  then show ?case using assms(1) by (auto simp: glob_literal_def)
qed

text \<open>
  With a matcher that treats a quoted character as itself, the pattern of \<open>DiscoverQueues\<close>
  matches exactly the keys that start with the configured prefix and a colon and end in
  \<open>:meta\<close>, whatever pattern characters the prefix contains.
\<close>

lemma discover_pattern_exact:
  assumes "glob_ok gmatch"
  shows "gmatch (discoverPattern keyPrefix) key \<longleftrightarrow> (\<exists>mid. key = keyPrefix @ '':'' @ mid @ '':meta'')"
proof -
  have lit: "glob_literal gmatch" and e: "\<And>s. gmatch [] s \<longleftrightarrow> s = []"
    and st: "\<And>p s. gmatch (CHR ''*'' # p) s \<longleftrightarrow> (\<exists>u v. s = u @ v \<and> gmatch p v)"
    using assms by (auto simp: glob_ok_def)
  have colon: "gmatch ('':'' @ p) s \<longleftrightarrow> (\<exists>s'. s = '':'' @ s' \<and> gmatch p s')" for p s
    using lit by (auto simp: glob_literal_def glob_special_def)
  have "gmatch '':meta'' s \<longleftrightarrow> s = '':meta''" for s
    by (rule gmatch_literals [OF lit e]) (simp add: glob_special_def)
  then have "gmatch (escapeGlob keyPrefix @ '':'' @ CHR ''*'' # '':meta'') key \<longleftrightarrow>
      (\<exists>mid. key = keyPrefix @ '':'' @ mid @ '':meta'')"
    by (auto simp: gmatch_escapeGlob [OF lit] colon [simplified] st)
  then show ?thesis by (simp add: discoverPattern_def)
qed

text \<open>A matcher with the four kinds of pattern characters the code relies on.\<close>

fun glob :: "string \<Rightarrow> string \<Rightarrow> bool" where
  "glob [] s \<longleftrightarrow> s = []"
| "glob (c # p) s \<longleftrightarrow>
     (if c = CHR ''*'' then (\<exists>n \<in> set [0..<Suc (length s)]. glob p (drop n s))
      else if c = CHR 0x5C then (case p of [] \<Rightarrow> s = [c] | d # p' \<Rightarrow> s \<noteq> [] \<and> hd s = d \<and> glob p' (tl s))
      else s \<noteq> [] \<and> (c = CHR ''?'' \<or> hd s = c) \<and> glob p (tl s))"

lemma glob_ok_glob: "glob_ok glob"
proof -
  have "(\<exists>n \<in> set [0..<Suc (length s)]. glob p (drop n s)) \<longleftrightarrow> (\<exists>u v. s = u @ v \<and> glob p v)" for p s
  proof
    assume "\<exists>n \<in> set [0..<Suc (length s)]. glob p (drop n s)"
    then show "\<exists>u v. s = u @ v \<and> glob p v" by (metis append_take_drop_id)
  next
    assume "\<exists>u v. s = u @ v \<and> glob p v"
    then obtain u v where "s = u @ v" "glob p v" by blast
    then show "\<exists>n \<in> set [0..<Suc (length s)]. glob p (drop n s)" by (intro bexI [of _ "length u"]) auto
  qed
  moreover have "s \<noteq> [] \<and> hd s = c \<and> glob p (tl s) \<longleftrightarrow> (\<exists>s'. s = c # s' \<and> glob p s')" for c p s
    by (cases s) auto
  ultimately show ?thesis by (auto simp: glob_ok_def glob_literal_def glob_special_def)
qed

end
