(* ===== verification/Retry.thy ===== *)
theory Retry
  imports Replies Options Keys
begin

text \<open>
  The worker's retry policy (\<open>worker.go\<close>): which delay a failed attempt waits for.  User
  callbacks that panic are recovered, so they are values here.
\<close>

record Worker =
  w_cfg :: workerConfig
  w_keys :: queueKeys
  w_queueName :: string
  w_wakeKey :: string

text \<open>The deferred \<open>recover\<close> of the two callbacks: log and fall back to a default.\<close>

definition recovered :: "Worker \<Rightarrow> BackoffContext \<Rightarrow> string \<Rightarrow> 'a \<Rightarrow> 'a outcome \<Rightarrow> ('s, 'a) act" where
  "recovered w bc msg dflt out = (case out of
       Returns x \<Rightarrow> ret x
     | Panics r \<Rightarrow> do {
         emit (Log LError msg [(AttrQueue, w_queueName w), (AttrJobID, bc_JobID bc), (''panic'', r)]);
         ret dflt
       })"

definition callBackoffStrategy :: "Worker \<Rightarrow> BackoffContext \<Rightarrow> ('s, duration) act" where
  "callBackoffStrategy w bc =
     (let msg = ''mkq: backoff strategy panicked; retrying immediately''
      in case wc_backoffFunc (w_cfg w) of
           Some f \<Rightarrow> recovered w bc msg 0 (f bc)
         | None \<Rightarrow> (case wc_backoffStrategy (w_cfg w) of
             Some f \<Rightarrow> recovered w bc msg 0 (f (bc_AttemptsMade bc))
           | None \<Rightarrow> ret 0))"

definition callRetryDelayOverride :: "Worker \<Rightarrow> RetryDelayFunc \<Rightarrow> BackoffContext \<Rightarrow> ('s, duration \<times> bool) act" where
  "callRetryDelayOverride w f bc =
     recovered w bc ''mkq: retry delay override panicked; falling back to the configured backoff''
       (0, False) (f bc)"

definition computeRetryDelay ::
  "('s, 't) services \<Rightarrow> Worker \<Rightarrow> BackoffStrategy option \<Rightarrow> BackoffContext \<Rightarrow> ('s, duration) act" where
  "computeRetryDelay sv w b bc =
     (if bc_AttemptsMade bc < 1 then ret 0
      else do {
        let bc = (case b of None \<Rightarrow> bc | Some b \<Rightarrow> bc\<lparr>bc_BackoffType := bs_Type b\<rparr>);
        (d, ok) \<leftarrow> (case wc_retryDelayOverride (w_cfg w) of
            None \<Rightarrow> ret (0, False)
          | Some f \<Rightarrow> callRetryDelayOverride w f bc);
        if ok then ret d
        else (case b of
            None \<Rightarrow> ret 0
          | Some b \<Rightarrow>
              if bs_Type b = ''fixed'' \<or> bs_Type b = ''exponential'' then
                (let base = computeBackoffDelay (Some b) (bc_AttemptsMade bc)
                 in if bs_Jitter b > 0 then do { r \<leftarrow> ask (sv_rng sv); ret (applyJitter base (bs_Jitter b) r) }
                    else ret base)
              else callBackoffStrategy w bc)
      })"

section \<open>Lemmas\<close>

text \<open>
  The delay as a function of the policy, given the random number drawn: the override's opinion
  first, then the job's backoff.
\<close>

definition strategyDelay :: "workerConfig \<Rightarrow> BackoffContext \<Rightarrow> duration" where
  "strategyDelay cfg bc =
     (case (case wc_backoffFunc cfg of Some f \<Rightarrow> f bc
            | None \<Rightarrow> (case wc_backoffStrategy cfg of Some f \<Rightarrow> f (bc_AttemptsMade bc) | None \<Rightarrow> Returns 0)) of
        Returns d \<Rightarrow> d | Panics _ \<Rightarrow> 0)"

definition retryDelaySpec :: "workerConfig \<Rightarrow> BackoffStrategy option \<Rightarrow> BackoffContext \<Rightarrow> real \<Rightarrow> duration" where
  "retryDelaySpec cfg b bc r =
     (let bc = (case b of None \<Rightarrow> bc | Some b \<Rightarrow> bc\<lparr>bc_BackoffType := bs_Type b\<rparr>);
          configured = (case b of None \<Rightarrow> 0 | Some s \<Rightarrow>
            if bs_Type s = ''fixed'' \<or> bs_Type s = ''exponential'' then
              applyJitter (computeBackoffDelay b (bc_AttemptsMade bc)) (bs_Jitter s) r
            else strategyDelay cfg bc)
      in if bc_AttemptsMade bc < 1 then 0
         else case wc_retryDelayOverride cfg of
             None \<Rightarrow> configured
           | Some f \<Rightarrow> (case f bc of Returns (d, True) \<Rightarrow> d | _ \<Rightarrow> configured))"

lemma obs_recovered:
  assumes "\<And>es. quiet es \<Longrightarrow> Q (case out of Returns x \<Rightarrow> x | Panics _ \<Rightarrow> dflt) es"
  shows "does (recovered w bc msg dflt out) Q"
  using assms unfolding recovered_def by (cases out) (auto intro!: does_rules)

lemma obs_callBackoffStrategy:
  assumes "\<And>es. quiet es \<Longrightarrow> Q (strategyDelay (w_cfg w) bc) es"
  shows "does (callBackoffStrategy w bc) Q"
  unfolding callBackoffStrategy_def Let_def using assms
  by (cases "wc_backoffFunc (w_cfg w)"; cases "wc_backoffStrategy (w_cfg w)")
    (auto intro!: does_rules obs_recovered simp: strategyDelay_def)

lemma applyJitter_off: "\<not> j > 0 \<Longrightarrow> applyJitter base j r = base"
  by (simp add: applyJitter_def)

lemma computeRetryDelay_spec:
  "does (computeRetryDelay sv w b bc) (\<lambda>d es. quiet es \<and> (\<exists>r. d = retryDelaySpec (w_cfg w) b bc r))"
proof (cases "bc_AttemptsMade bc < 1")
  case True
  then show ?thesis
    unfolding computeRetryDelay_def by (auto intro!: does_rules simp: retryDelaySpec_def split: option.split)
next
  case False
  let ?bc = "case b of None \<Rightarrow> bc | Some b \<Rightarrow> bc\<lparr>bc_BackoffType := bs_Type b\<rparr>"
  have am: "bc_AttemptsMade ?bc = bc_AttemptsMade bc" by (simp split: option.split)
  define ov where "ov = (case wc_retryDelayOverride (w_cfg w) of None \<Rightarrow> (0, False)
     | Some f \<Rightarrow> (case f ?bc of Returns x \<Rightarrow> x | Panics _ \<Rightarrow> (0, False)))"
  have ovr: "does (case wc_retryDelayOverride (w_cfg w) of None \<Rightarrow> ret (0, False)
      | Some f \<Rightarrow> callRetryDelayOverride w f ?bc) (\<lambda>x es. x = ov \<and> quiet es)"
    by (cases "wc_retryDelayOverride (w_cfg w)")
      (auto intro!: does_rules obs_recovered simp: callRetryDelayOverride_def ov_def)
  define spec where "spec = retryDelaySpec (w_cfg w) b bc"
  have yes: "snd ov \<longrightarrow> spec r = fst ov" for r
    using False am by (auto simp: spec_def retryDelaySpec_def ov_def Let_def split: option.splits outcome.splits bool.splits)
  have no: "\<not> snd ov \<longrightarrow> spec r = (case b of None \<Rightarrow> 0 | Some s \<Rightarrow>
      if bs_Type s = ''fixed'' \<or> bs_Type s = ''exponential'' then
        applyJitter (computeBackoffDelay b (bc_AttemptsMade bc)) (bs_Jitter s) r
      else strategyDelay (w_cfg w) ?bc)" for r
    using False am by (auto simp: spec_def retryDelaySpec_def ov_def Let_def split: option.splits outcome.splits bool.splits)
  have "does (computeRetryDelay sv w b bc) (\<lambda>d es. quiet es \<and> (\<exists>r. d = spec r))"
    unfolding computeRetryDelay_def using False yes no
    apply (simp add: Let_def am)
    apply (rule does_bind [OF ovr])
    apply (cases b)
     apply (auto intro!: does_rules obs_callBackoffStrategy simp: applyJitter_off)
    done
  then show ?thesis by (simp add: spec_def)
qed

end
