(* ===== verification/Finalise.thy ===== *)
theory Finalise
  imports Retry
begin

text \<open>
  The terminal step of a job in the worker (\<open>worker.go\<close>): \<open>runMoveToFinished\<close> and its two
  callers, the two ways back into the queue (\<open>retryImmediate\<close>, \<open>retryDelayed\<close>), the delay a
  handler asks for (\<open>moveToDelayedKeepingAttempts\<close>), and \<open>finalise\<close>, which picks one of them.
  The lemmas say which script call each of them makes, whatever Redis answers.
\<close>

record handlerOutcome =
  ho_success :: bool
  ho_returnValue :: string
  ho_err :: goerr
  ho_errReason :: string
  ho_stacktrace :: string

record prefetchedJob =
  pj_jobMap :: hash
  pj_jobID :: string
  pj_token :: string

text \<open>The job a dispatcher holds, as a list.\<close>

definition held :: "prefetchedJob option \<Rightarrow> string list" where
  "held pf = (case pf of None \<Rightarrow> [] | Some pj \<Rightarrow> [pj_jobID pj])"

datatype finaliseStatus =
    finaliseStatusCompleted
  | finaliseStatusFailed
  | finaliseStatusRetrying
  | finaliseStatusDelayed
  | finaliseStatusError

section \<open>moveToFinished\<close>

definition fetchNextFlag :: "('s, 't) services \<Rightarrow> ('s, string) act" where
  "fetchNextFlag sv = do {
     stopped \<leftarrow> ask (sv_runDone sv);
     ret (if stopped then [] else ''1'')
   }"

definition limiterOpt :: "Worker \<Rightarrow> MoveToActiveLimiter option" where
  "limiterOpt w = map_option (\<lambda>l. \<lparr>li_Max = wl_max l, li_DurationMs = Milliseconds (wl_duration l)\<rparr>)
     (wc_limiter (w_cfg w))"

definition lockMs :: "Worker \<Rightarrow> int" where
  "lockMs w = Milliseconds (wc_lockDuration (w_cfg w))"

definition finishedOpts :: "Worker \<Rightarrow> string \<Rightarrow> int \<Rightarrow> retentionLimit option \<Rightarrow> MoveToFinishedOpts" where
  "finishedOpts w token attempts keep =
     \<lparr>mf_Token = token, mf_LockDuration = lockMs w, mf_Attempts = attempts,
      mf_KeepJobs = map_option (\<lambda>k. \<lparr>kj_Count = rt_count k,
        kj_Age = (case rt_ageSeconds k of None \<Rightarrow> 0 | Some a \<Rightarrow> a)\<rparr>) keep,
      mf_Name = wc_workerName (w_cfg w), mf_Limiter = limiterOpt w,
      mf_MaxMetricsSize = wc_maxDataPoints (w_cfg w)\<rparr>"

text \<open>How the polymorphic reply of \<open>moveToFinished\<close> is read.\<close>

definition finishedReply :: "string \<Rightarrow> string \<Rightarrow> goerr + gval \<Rightarrow> goerr + prefetchedJob option" where
  "finishedReply token target r = (case r of
       Inl err \<Rightarrow> Inl (errorf (''moveToFinished('' @ target @ ''): '') err)
     | Inr res \<Rightarrow> (case res of
         GInt64 code \<Rightarrow>
           if code < 0 then
             Inl (PlainErr (''moveToFinished('' @ target @ '') returned error code '' @ FormatInt code))
           else Inr None
       | _ \<Rightarrow> (case parseMoveToActiveResult res of
           Inl perr \<Rightarrow> Inl (errorf (''moveToFinished('' @ target @ '') parse fetchNext: '') perr)
         | Inr (NoJob _ _) \<Rightarrow> Inr None
         | Inr (GotJob jobMap prefetchedID) \<Rightarrow>
             Inr (Some \<lparr>pj_jobMap = jobMap, pj_jobID = prefetchedID, pj_token = token\<rparr>))))"

definition runMoveToFinished ::
  "('s, 't) services \<Rightarrow> Worker \<Rightarrow> string \<Rightarrow> string \<Rightarrow> int \<Rightarrow> retentionLimit option \<Rightarrow> string \<Rightarrow> string \<Rightarrow>
   string \<Rightarrow> mval list \<Rightarrow> ('s, goerr + prefetchedJob option) act" where
  "runMoveToFinished sv w jobID token attempts keep target msgProperty msgValue extraFields = do {
     now \<leftarrow> nowMilli sv;
     (case EncodeMoveToFinishedOpts (sv_marshal sv) (finishedOpts w token attempts keep) of
        Inl err \<Rightarrow> ret (Inl (errorf ''encode finish opts: '' err))
      | Inr optsBytes \<Rightarrow>
     (case EncodeJobFields (sv_marshal sv) extraFields of
        Inl err \<Rightarrow> ret (Inl (errorf ''encode job fields: '' err))
      | Inr jobFields \<Rightarrow> do {
          flag \<leftarrow> fetchNextFlag sv;
          r \<leftarrow> Run sv Background MoveToFinished (moveToFinishedKeys (w_keys w) jobID target)
            [GStr jobID, GInt64 now, GStr msgProperty, GStr msgValue, GStr target, GStr flag,
             GStr (k_prefix (w_keys w)), GBytes optsBytes, GBytes jobFields];
          ret (finishedReply token target r)
        }))
   }"

definition finishCompleted ::
  "('s, 't) services \<Rightarrow> Worker \<Rightarrow> string \<Rightarrow> string \<Rightarrow> jobOpts \<Rightarrow> string \<Rightarrow> ('s, goerr + prefetchedJob option) act" where
  "finishCompleted sv w jobID token opts returnValue =
     runMoveToFinished sv w jobID token (jo_attempts opts) (jo_removeOnComplete opts)
       ''completed'' ''returnvalue'' returnValue []"

definition finishFailed ::
  "('s, 't) services \<Rightarrow> Worker \<Rightarrow> string \<Rightarrow> string \<Rightarrow> jobOpts \<Rightarrow> string \<Rightarrow> failureHistory \<Rightarrow>
   ('s, goerr + prefetchedJob option) act" where
  "finishFailed sv w jobID token opts reason hist =
     runMoveToFinished sv w jobID token (jo_attempts opts) (jo_removeOnFail opts)
       ''failed'' ''failedReason'' reason
       [MStr ''stacktrace'', MStr (fh_stacktrace hist), MStr attemptHistoryField, MStr (fh_attemptsAt hist)]"

section \<open>Back into the queue\<close>

definition retryFields :: "string \<Rightarrow> failureHistory \<Rightarrow> mval list" where
  "retryFields reason hist =
     [MStr ''failedReason'', MStr reason, MStr ''stacktrace'', MStr (fh_stacktrace hist),
      MStr attemptHistoryField, MStr (fh_attemptsAt hist)]"

text \<open>The common end of the three re-enqueue calls; \<open>None\<close> is a nil error.\<close>

definition check_code :: "string \<Rightarrow> goerr + gval \<Rightarrow> goerr option" where
  "check_code script r = (case r of
       Inl err \<Rightarrow> Some (errorf (script @ '': '') err)
     | Inr res \<Rightarrow> (case error_code res of
         Some code \<Rightarrow> Some (PlainErr (script @ '' returned error code '' @ FormatInt code))
       | None \<Rightarrow> None))"

definition retryImmediate ::
  "('s, 't) services \<Rightarrow> Worker \<Rightarrow> string \<Rightarrow> string \<Rightarrow> bool \<Rightarrow> string \<Rightarrow> failureHistory \<Rightarrow> ('s, goerr option) act" where
  "retryImmediate sv w jobID token lifo reason hist = do {
     now \<leftarrow> nowMilli sv;
     let pushCmd = (if lifo then ''RPUSH'' else ''LPUSH'');
     (case EncodeJobFields (sv_marshal sv) (retryFields reason hist) of
        Inl err \<Rightarrow> ret (Some (errorf ''encode retry job fields: '' err))
      | Inr jobFields \<Rightarrow> do {
          r \<leftarrow> Run sv Background RetryJob (retryJobKeys (w_keys w) jobID)
            [GStr (k_prefix (w_keys w)), GInt64 now, GStr pushCmd, GStr jobID, GStr token, GBytes jobFields];
          ret (check_code ''retryJob'' r)
        })
   }"

definition moveToDelayedKeepingAttempts ::
  "('s, 't) services \<Rightarrow> Worker \<Rightarrow> string \<Rightarrow> string \<Rightarrow> duration \<Rightarrow> ('s, goerr option) act" where
  "moveToDelayedKeepingAttempts sv w jobID token delay = do {
     let delayMs = max (Milliseconds delay) 1;
     now \<leftarrow> nowMilli sv;
     r \<leftarrow> Run sv Background MoveToDelayed (moveToDelayedKeys (w_keys w) jobID)
       [GStr (k_prefix (w_keys w)), GInt64 now, GStr jobID, GStr token, GInt64 delayMs,
        GStr ''1'', GStr [], GStr [], GStr []];
     ret (check_code ''moveToDelayed'' r)
   }"

definition retryDelayed ::
  "('s, 't) services \<Rightarrow> Worker \<Rightarrow> string \<Rightarrow> string \<Rightarrow> duration \<Rightarrow> string \<Rightarrow> failureHistory \<Rightarrow> ('s, goerr option) act" where
  "retryDelayed sv w jobID token delay reason hist = do {
     now \<leftarrow> nowMilli sv;
     let delayMs = max (Milliseconds delay) 1;
     (case EncodeJobFields (sv_marshal sv) (retryFields reason hist) of
        Inl err \<Rightarrow> ret (Some (errorf ''encode retry job fields: '' err))
      | Inr jobFields \<Rightarrow> do {
          r \<leftarrow> Run sv Background MoveToDelayed (moveToDelayedKeys (w_keys w) jobID)
            [GStr (k_prefix (w_keys w)), GInt64 now, GStr jobID, GStr token, GInt64 delayMs,
             GStr ''0'', GBytes jobFields, GStr [], GStr []];
          ret (check_code ''moveToDelayed'' r)
        })
   }"

section \<open>finalise\<close>

definition fetchAtm :: "('s, 't) services \<Rightarrow> Worker \<Rightarrow> string \<Rightarrow> hash \<Rightarrow> ('s, int) act" where
  "fetchAtm sv w jobID jobMap = do {
     r \<leftarrow> redis sv (HGet (Timeout (2 * Second)) (job_key (w_keys w) jobID) ''atm'');
     ret (case r of Inr (GStr v) \<Rightarrow> parseInt v | _ \<Rightarrow> parseInt (hlookup jobMap ''atm''))
   }"

text \<open>The results of \<open>finishCompleted\<close> and \<open>finishFailed\<close> as \<open>finalise\<close> returns them.\<close>

definition finish_result ::
  "finaliseStatus \<Rightarrow> goerr + prefetchedJob option \<Rightarrow> prefetchedJob option \<times> finaliseStatus \<times> goerr option" where
  "finish_result st r = (case r of Inl err \<Rightarrow> (None, finaliseStatusError, Some err) | Inr pf \<Rightarrow> (pf, st, None))"

definition requeue_result ::
  "finaliseStatus \<Rightarrow> goerr option \<Rightarrow> prefetchedJob option \<times> finaliseStatus \<times> goerr option" where
  "requeue_result st r = (case r of Some err \<Rightarrow> (None, finaliseStatusError, Some err) | None \<Rightarrow> (None, st, None))"

text \<open>The \<open>BackoffContext\<close> literal of \<open>finalise\<close>.\<close>

definition retryContext :: "string \<Rightarrow> hash \<Rightarrow> handlerOutcome \<Rightarrow> int \<Rightarrow> BackoffContext" where
  "retryContext jobID jobMap out atm =
     \<lparr>bc_JobID = jobID, bc_Name = hlookup jobMap ''name'', bc_AttemptsMade = wrap64 (atm + 1),
      bc_Err = ho_err out, bc_BackoffType = []\<rparr>"

definition finalise ::
  "('s, 't) services \<Rightarrow> Worker \<Rightarrow> string \<Rightarrow> string \<Rightarrow> hash \<Rightarrow> handlerOutcome \<Rightarrow>
   ('s, prefetchedJob option \<times> finaliseStatus \<times> goerr option) act" where
  "finalise sv w jobID token jobMap out =
     (let jobOpts = parseJobOpts (hlookup jobMap ''opts'')
      in if ho_success out then do {
           r \<leftarrow> finishCompleted sv w jobID token jobOpts (ho_returnValue out);
           ret (finish_result finaliseStatusCompleted r)
         }
         else (case errors_As_Delayed (ho_err out) of
           Some delay \<Rightarrow> do {
             r \<leftarrow> moveToDelayedKeepingAttempts sv w jobID token delay;
             ret (requeue_result finaliseStatusDelayed r)
           }
         | None \<Rightarrow> do {
             atm \<leftarrow> fetchAtm sv w jobID jobMap;
             let hist = buildFailureHistory jobMap (ho_errReason out);
             if \<not> shouldRetry jobOpts atm (ho_err out) then do {
               r \<leftarrow> finishFailed sv w jobID token jobOpts (ho_errReason out) hist;
               ret (finish_result finaliseStatusFailed r)
             }
             else do {
               delay \<leftarrow> computeRetryDelay sv w (jo_backoff jobOpts) (retryContext jobID jobMap out atm);
               if delay < 0 then do {
                 r \<leftarrow> finishFailed sv w jobID token jobOpts (ho_errReason out) hist;
                 ret (finish_result finaliseStatusFailed r)
               }
               else if delay > 0 then do {
                 r \<leftarrow> retryDelayed sv w jobID token delay (ho_errReason out) hist;
                 ret (requeue_result finaliseStatusRetrying r)
               }
               else do {
                 r \<leftarrow> retryImmediate sv w jobID token (jo_lifo jobOpts) (ho_errReason out) hist;
                 ret (requeue_result finaliseStatusRetrying r)
               }
             }
           }))"

section \<open>The policy \<open>finalise\<close> implements\<close>

datatype verdict = VComplete | VFail | VDelay duration | VRetry duration

fun verdict_status :: "verdict \<Rightarrow> finaliseStatus" where
  "verdict_status VComplete = finaliseStatusCompleted"
| "verdict_status VFail = finaliseStatusFailed"
| "verdict_status (VDelay d) = finaliseStatusDelayed"
| "verdict_status (VRetry d) = finaliseStatusRetrying"

text \<open>
  What is to become of a job: from the handler's outcome, the attempts made so far and the
  random number drawn for the jitter.
\<close>

definition policy :: "workerConfig \<Rightarrow> string \<Rightarrow> hash \<Rightarrow> handlerOutcome \<Rightarrow> int \<Rightarrow> real \<Rightarrow> verdict" where
  "policy cfg jobID jobMap out atm r =
     (let opts = parseJobOpts (hlookup jobMap ''opts'');
          d = retryDelaySpec cfg (jo_backoff opts) (retryContext jobID jobMap out atm) r
      in if ho_success out then VComplete
         else case errors_As_Delayed (ho_err out) of
             Some delay \<Rightarrow> VDelay delay
           | None \<Rightarrow> if \<not> shouldRetry opts atm (ho_err out) \<or> d < 0 then VFail else VRetry d)"

definition encoded :: "('s, 't) services \<Rightarrow> mval \<Rightarrow> string" where
  "encoded sv v = (case sv_marshal sv v of Inr b \<Rightarrow> b | Inl _ \<Rightarrow> [])"

definition marshal_total :: "('s, 't) services \<Rightarrow> bool" where
  "marshal_total sv \<longleftrightarrow> (\<forall>v. sv_marshal sv v = Inr (encoded sv v))"

definition finishedCall ::
  "('s, 't) services \<Rightarrow> Worker \<Rightarrow> string \<Rightarrow> string \<Rightarrow> int \<Rightarrow> retentionLimit option \<Rightarrow> string \<Rightarrow> string \<Rightarrow>
   string \<Rightarrow> string \<Rightarrow> int \<Rightarrow> string \<Rightarrow> event" where
  "finishedCall sv w jobID token attempts keep target prop val fs now flag =
     ScriptCall Background MoveToFinished (moveToFinishedKeys (w_keys w) jobID target)
       [GStr jobID, GInt64 now, GStr prop, GStr val, GStr target, GStr flag, GStr (k_prefix (w_keys w)),
        GBytes (encoded sv (MMap (moveToFinishedMap (finishedOpts w token attempts keep)))), GBytes fs]"

text \<open>The one script call a verdict amounts to.\<close>

definition terminalCall ::
  "('s, 't) services \<Rightarrow> Worker \<Rightarrow> string \<Rightarrow> string \<Rightarrow> hash \<Rightarrow> handlerOutcome \<Rightarrow> verdict \<Rightarrow> int \<Rightarrow> string \<Rightarrow> event" where
  "terminalCall sv w jobID token jobMap out v now flag =
     (let opts = parseJobOpts (hlookup jobMap ''opts''); k = w_keys w;
          reason = ho_errReason out; hist = buildFailureHistory jobMap reason
      in case v of
           VComplete \<Rightarrow> finishedCall sv w jobID token (jo_attempts opts) (jo_removeOnComplete opts)
             ''completed'' ''returnvalue'' (ho_returnValue out) [] now flag
         | VFail \<Rightarrow> finishedCall sv w jobID token (jo_attempts opts) (jo_removeOnFail opts)
             ''failed'' ''failedReason'' reason
             (encoded sv (MArr [MStr ''stacktrace'', MStr (fh_stacktrace hist),
                MStr attemptHistoryField, MStr (fh_attemptsAt hist)])) now flag
         | VDelay d \<Rightarrow> ScriptCall Background MoveToDelayed (moveToDelayedKeys k jobID)
             [GStr (k_prefix k), GInt64 now, GStr jobID, GStr token, GInt64 (max (Milliseconds d) 1),
              GStr ''1'', GStr [], GStr [], GStr []]
         | VRetry d \<Rightarrow>
             if d = 0 then ScriptCall Background RetryJob (retryJobKeys k jobID)
               [GStr (k_prefix k), GInt64 now, GStr (if jo_lifo opts then ''RPUSH'' else ''LPUSH''),
                GStr jobID, GStr token, GBytes (encoded sv (MArr (retryFields reason hist)))]
             else ScriptCall Background MoveToDelayed (moveToDelayedKeys k jobID)
               [GStr (k_prefix k), GInt64 now, GStr jobID, GStr token, GInt64 (max (Milliseconds d) 1),
                GStr ''0'', GBytes (encoded sv (MArr (retryFields reason hist))), GStr [], GStr []])"

text \<open>The values the fetchNext argument can take.\<close>

definition flags :: "('s, 't) services \<Rightarrow> string set" where
  "flags sv = range (\<lambda>s. if fst (sv_runDone sv s) then [] else ''1'')"

lemma does_fetchNextFlag:
  "(\<And>flag. flag \<in> flags sv \<Longrightarrow> Q flag []) \<Longrightarrow> does (fetchNextFlag sv) Q"
  unfolding fetchNextFlag_def by (intro does_bindI does_ask_val does_return) (auto simp: flags_def)

lemma finishedReply_ok:
  assumes "finishedReply token target r = Inr pf"
  shows "(\<exists>v. r = Inr v \<and> error_code v = None) \<and>
    (\<forall>pj. pf = Some pj \<longrightarrow> pj_token pj = token \<and> pj_jobID pj \<noteq> [] \<and> (\<exists>arr. r = Inr (GArr arr)))"
  using assms
  by (auto simp: finishedReply_def error_code_def dest!: parseMoveToActiveResult_id
      split: sum.splits gval.splits if_splits fetchReply.splits)

lemma finishedReply_jobs: "jobs_of r = (case finishedReply token target r of Inr pf \<Rightarrow> held pf | Inl _ \<Rightarrow> [])"
  by (auto simp: finishedReply_def jobs_of_def held_def parseMoveToActiveResult_def
      split: sum.splits gval.splits if_splits fetchReply.splits)

lemma does_runMoveToFinished:
  assumes m: "marshal_total sv" and f: "length fs mod 2 = 0"
    and Q: "\<And>r es now flag. obs es = [finishedCall sv w jobID token attempts keep target prop val
        (if fs = [] then [] else encoded sv (MArr fs)) now flag] \<Longrightarrow>
      flag \<in> flags sv \<Longrightarrow> acquired es = (case r of Inr pf \<Rightarrow> held pf | Inl _ \<Rightarrow> []) \<Longrightarrow>
      (\<And>pf. r = Inr pf \<Longrightarrow> accepted es) \<Longrightarrow>
      (\<And>pj. r = Inr (Some pj) \<Longrightarrow> pj_token pj = token \<and> pj_jobID pj \<noteq> [] \<and>
        (\<exists>arr. answers sv (finishedCall sv w jobID token attempts keep target prop val
          (if fs = [] then [] else encoded sv (MArr fs)) now flag) (GArr arr))) \<Longrightarrow> Q r es"
  shows "does (runMoveToFinished sv w jobID token attempts keep target prop val fs) Q"
proof -
  have e: "EncodeJobFields (sv_marshal sv) fs = Inr (if fs = [] then [] else encoded sv (MArr fs))"
    using m f by (simp add: EncodeJobFields_def marshal_total_def)
  show ?thesis
    unfolding runMoveToFinished_def EncodeMoveToFinishedOpts_def e m [unfolded marshal_total_def, rule_format] sum.case
    by (intro does_rules does_fetchNextFlag does_script Q)
      (auto simp: finishedCall_def finishedReply_jobs [of _ token target] dest!: finishedReply_ok split: sum.splits)
qed

lemma EncodeJobFields_retry:
  "marshal_total sv \<Longrightarrow> EncodeJobFields (sv_marshal sv) (retryFields reason hist) =
     Inr (encoded sv (MArr (retryFields reason hist)))"
  by (simp add: EncodeJobFields_def retryFields_def marshal_total_def)

lemma check_code_ok: "check_code s r = None \<Longrightarrow> \<exists>v. r = Inr v \<and> error_code v = None"
  by (auto simp: check_code_def split: sum.splits option.splits)

definition atmOf :: "hash \<Rightarrow> goerr + gval \<Rightarrow> int" where
  "atmOf jobMap r = (case r of Inr (GStr v) \<Rightarrow> parseInt v | _ \<Rightarrow> parseInt (hlookup jobMap ''atm''))"

lemma does_fetchAtm:
  "(\<And>rep. Q (atmOf jobMap rep) [Cmd (HGet (Timeout (2 * Second)) (job_key (w_keys w) jobID) ''atm'') rep]) \<Longrightarrow>
   does (fetchAtm sv w jobID jobMap) Q"
  unfolding fetchAtm_def by (intro does_rules) (simp add: atmOf_def)

text \<open>The post-condition of \<open>finalise\<close> for a given verdict.\<close>

definition finalised ::
  "('s, 't) services \<Rightarrow> Worker \<Rightarrow> string \<Rightarrow> string \<Rightarrow> hash \<Rightarrow> handlerOutcome \<Rightarrow> verdict \<Rightarrow>
   prefetchedJob option \<times> finaliseStatus \<times> goerr option \<Rightarrow> event list \<Rightarrow> bool" where
  "finalised sv w jobID token jobMap out v res es \<longleftrightarrow>
     (\<exists>now. \<exists>flag \<in> flags sv. obs es = [terminalCall sv w jobID token jobMap out v now flag] \<and>
       (fst res \<noteq> None \<longrightarrow> (\<exists>arr. answers sv (terminalCall sv w jobID token jobMap out v now flag) (GArr arr)))) \<and>
     acquired es = held (fst res) \<and>
     (case res of (pf, st, err) \<Rightarrow>
       (case err of None \<Rightarrow> st = verdict_status v \<and> accepted es | Some _ \<Rightarrow> st = finaliseStatusError \<and> pf = None) \<and>
       (case pf of None \<Rightarrow> True | Some pj \<Rightarrow>
          v \<in> {VComplete, VFail} \<and> pj_token pj = token \<and> pj_jobID pj \<noteq> []))"

lemma finalisedE:
  assumes "finalised sv w jobID token jobMap out v res es"
  obtains now flag where "flag \<in> flags sv" "obs es = [terminalCall sv w jobID token jobMap out v now flag]"
    "fst res \<noteq> None \<Longrightarrow> \<exists>arr. answers sv (terminalCall sv w jobID token jobMap out v now flag) (GArr arr)"
  using assms unfolding finalised_def by (elim conjE exE bexE) (rule that, blast+)

lemma finalised_finish:
  assumes "obs es = [terminalCall sv w jobID token jobMap out v now flag]" "flag \<in> flags sv"
    "acquired es = (case r of Inr pf \<Rightarrow> held pf | Inl _ \<Rightarrow> [])" "\<And>pf. r = Inr pf \<Longrightarrow> accepted es"
    "\<And>pj. r = Inr (Some pj) \<Longrightarrow> pj_token pj = token \<and> pj_jobID pj \<noteq> [] \<and>
      (\<exists>arr. answers sv (terminalCall sv w jobID token jobMap out v now flag) (GArr arr))"
    "v \<in> {VComplete, VFail}"
  shows "finalised sv w jobID token jobMap out v (finish_result (verdict_status v) r) es"
  unfolding finalised_def
proof (intro conjI exI [of _ now] bexI [of _ flag])
  show "fst (finish_result (verdict_status v) r) \<noteq> None \<longrightarrow>
      (\<exists>arr. answers sv (terminalCall sv w jobID token jobMap out v now flag) (GArr arr))"
    using assms(5) by (auto simp: finish_result_def split: sum.splits)
qed (use assms in \<open>auto simp: finish_result_def held_def split: sum.splits option.splits\<close>)

lemma finalised_requeue:
  assumes "\<And>flag. obs es = [terminalCall sv w jobID token jobMap out v now flag]" "acquired es = []"
    "r = None \<Longrightarrow> accepted es"
  shows "finalised sv w jobID token jobMap out v (requeue_result (verdict_status v) r) es"
proof -
  obtain flag where "flag \<in> flags sv" unfolding flags_def by blast
  then show ?thesis
    unfolding finalised_def using assms
    by (intro conjI exI [of _ now] bexI [of _ flag]) (auto simp: requeue_result_def held_def split: option.splits)
qed

lemma does_finishCompleted:
  assumes "marshal_total sv"
  shows "does (finishCompleted sv w jobID token (parseJobOpts (hlookup jobMap ''opts'')) (ho_returnValue out))
     (\<lambda>r. finalised sv w jobID token jobMap out VComplete (finish_result finaliseStatusCompleted r))"
  unfolding finishCompleted_def
  by (rule does_runMoveToFinished [OF assms])
    (auto intro!: finalised_finish [where v = VComplete, simplified] simp: terminalCall_def Let_def)

lemma does_finishFailed:
  assumes "marshal_total sv"
  shows "does (finishFailed sv w jobID token (parseJobOpts (hlookup jobMap ''opts'')) (ho_errReason out)
        (buildFailureHistory jobMap (ho_errReason out)))
     (\<lambda>r. finalised sv w jobID token jobMap out VFail (finish_result finaliseStatusFailed r))"
  unfolding finishFailed_def
  by (rule does_runMoveToFinished [OF assms])
    (auto intro!: finalised_finish [where v = VFail, simplified] simp: terminalCall_def Let_def)

lemma does_moveToDelayedKeepingAttempts:
  "does (moveToDelayedKeepingAttempts sv w jobID token delay)
     (\<lambda>r. finalised sv w jobID token jobMap out (VDelay delay) (requeue_result finaliseStatusDelayed r))"
  unfolding moveToDelayedKeepingAttempts_def
  by (intro does_rules does_script)
    (auto intro!: finalised_requeue [where v = "VDelay delay", simplified] simp: terminalCall_def Let_def dest!: check_code_ok)

lemma does_retryDelayed:
  assumes "marshal_total sv" "0 < delay"
  shows "does (retryDelayed sv w jobID token delay (ho_errReason out) (buildFailureHistory jobMap (ho_errReason out)))
     (\<lambda>r. finalised sv w jobID token jobMap out (VRetry delay) (requeue_result finaliseStatusRetrying r))"
  unfolding retryDelayed_def EncodeJobFields_retry [OF assms(1)] sum.case using assms(2)
  by (intro does_rules does_script)
    (auto intro!: finalised_requeue [where v = "VRetry delay", simplified] simp: terminalCall_def Let_def dest!: check_code_ok)

lemma does_retryImmediate:
  assumes "marshal_total sv"
  shows "does (retryImmediate sv w jobID token (jo_lifo (parseJobOpts (hlookup jobMap ''opts''))) (ho_errReason out)
        (buildFailureHistory jobMap (ho_errReason out)))
     (\<lambda>r. finalised sv w jobID token jobMap out (VRetry 0) (requeue_result finaliseStatusRetrying r))"
  unfolding retryImmediate_def EncodeJobFields_retry [OF assms(1)] sum.case
  by (intro does_rules does_script)
    (auto intro!: finalised_requeue [where v = "VRetry 0", simplified] simp: terminalCall_def Let_def dest!: check_code_ok)

lemma finalised_append: "quiet es \<Longrightarrow> finalised sv w jobID token jobMap out v res es' \<Longrightarrow>
   finalised sv w jobID token jobMap out v res (es @ es')"
  by (auto simp: finalised_def quiet_def split: option.splits)

text \<open>
  \<open>finalise\<close> refines the policy: the attempts made are what Redis answered to the HGET (or the
  snapshot's, when that failed), and the verdict is carried out by exactly one script call.
\<close>

definition atmGet :: "Worker \<Rightarrow> string \<Rightarrow> goerr + gval \<Rightarrow> event" where
  "atmGet w jobID rep = Cmd (HGet (Timeout (2 * Second)) (job_key (w_keys w) jobID) ''atm'') rep"

definition carries_out ::
  "('s, 't) services \<Rightarrow> Worker \<Rightarrow> string \<Rightarrow> string \<Rightarrow> hash \<Rightarrow> handlerOutcome \<Rightarrow>
   prefetchedJob option \<times> finaliseStatus \<times> goerr option \<Rightarrow> event list \<Rightarrow> bool" where
  "carries_out sv w jobID token jobMap out res es \<longleftrightarrow>
     (\<exists>atm r. finalised sv w jobID token jobMap out (policy (w_cfg w) jobID jobMap out atm r) res es \<and>
       (ho_success out \<or> errors_As_Delayed (ho_err out) \<noteq> None \<or>
        (\<exists>rep. atmGet w jobID rep \<in> set es \<and> atm = atmOf jobMap rep)))"

lemma carries_outI:
  assumes "finalised sv w jobID token jobMap out (policy (w_cfg w) jobID jobMap out (atmOf jobMap rep) r) res es'"
    "quiet es"
  shows "carries_out sv w jobID token jobMap out res (atmGet w jobID rep # es @ es')"
  unfolding carries_out_def
proof (intro exI [of _ "atmOf jobMap rep"] exI [of _ r] conjI)
  show "finalised sv w jobID token jobMap out (policy (w_cfg w) jobID jobMap out (atmOf jobMap rep) r) res
      (atmGet w jobID rep # es @ es')"
    using finalised_append [of "atmGet w jobID rep # es"] assms by (simp add: atmGet_def)
qed auto

lemma carries_out_step:
  assumes "does m (\<lambda>x. finalised sv w jobID token jobMap out v (g x))" "quiet es"
    "policy (w_cfg w) jobID jobMap out (atmOf jobMap rep) r = v"
  shows "does (State_Monad.bind m (\<lambda>x. ret (g x))) (\<lambda>b es'. carries_out sv w jobID token jobMap out b (atmGet w jobID rep # es @ es'))"
  using assms(1) by (rule does_bind) (use assms(2,3) in \<open>auto intro!: does_rules carries_outI [where r = r]\<close>)

lemma finalise_refines_policy:
  assumes m: "marshal_total sv"
  shows "does (finalise sv w jobID token jobMap out) (carries_out sv w jobID token jobMap out)"
proof -
  let ?opts = "parseJobOpts (hlookup jobMap ''opts'')"
  consider (ok) "ho_success out" | (delay) d where "\<not> ho_success out" "errors_As_Delayed (ho_err out) = Some d"
    | (fail) "\<not> ho_success out" "errors_As_Delayed (ho_err out) = None" by fastforce
  then show ?thesis
  proof cases
    case ok
    then have "policy (w_cfg w) jobID jobMap out atm r = VComplete" for atm r by (simp add: policy_def)
    with ok show ?thesis unfolding finalise_def Let_def
      by (auto intro!: does_rules does_weaken [OF does_finishCompleted [OF m]] simp: carries_out_def)
  next
    case delay
    then have "policy (w_cfg w) jobID jobMap out atm r = VDelay d" for atm r by (simp add: policy_def)
    with delay show ?thesis unfolding finalise_def Let_def
      by (auto intro!: does_rules does_weaken [OF does_moveToDelayedKeepingAttempts] simp: carries_out_def)
  next
    case fail
    let ?bc = "retryContext jobID jobMap out"
    define delay where "delay = (\<lambda>atm. retryDelaySpec (w_cfg w) (jo_backoff ?opts) (?bc atm))"
    have pol: "policy (w_cfg w) jobID jobMap out atm r =
        (if \<not> shouldRetry ?opts atm (ho_err out) \<or> delay atm r < 0 then VFail else VRetry (delay atm r))" for atm r
      using fail by (simp add: policy_def delay_def)
    have retry: "does (State_Monad.bind (computeRetryDelay sv w (jo_backoff ?opts) (?bc atm)) f) R"
      if "\<And>r es. quiet es \<Longrightarrow> does (f (delay atm r)) (\<lambda>b es'. R b (es @ es'))"
      for atm f and R :: "_ \<Rightarrow> event list \<Rightarrow> bool"
      by (rule does_bind [OF computeRetryDelay_spec]) (use that in \<open>auto simp: delay_def\<close>)
    show ?thesis
      using fail unfolding finalise_def Let_def
      apply simp
      apply (rule does_bindI, rule does_fetchAtm, simp add: atmGet_def [symmetric])
      apply (intro conjI impI does_if retry)
      subgoal by (rule carries_out_step [OF does_finishFailed [OF m], of "[]", simplified]) (simp add: pol)
      subgoal by (rule carries_out_step [OF does_finishFailed [OF m]]) (auto simp: pol)
      subgoal by (rule carries_out_step [OF does_retryDelayed [OF m]]) (auto simp: pol)
      subgoal by (rule carries_out_step [OF does_retryImmediate [OF m]]) (auto simp: pol)
      done
  qed
qed

section \<open>Properties\<close>

text \<open>
  The calls that end a failed attempt, read off their script and arguments: the job goes back for
  another attempt (\<open>retryJob\<close>, or \<open>moveToDelayed\<close> without the skip-attempt flag), or to the failed set.
\<close>

fun sendsBack :: "event \<Rightarrow> bool" where
  "sendsBack (ScriptCall c name keys args) \<longleftrightarrow>
     name = ''retryJob-11'' \<or> name = ''moveToDelayed-11'' \<and> args ! 5 = GStr ''0''"
| "sendsBack e = False"

fun failsJob :: "event \<Rightarrow> bool" where
  "failsJob (ScriptCall c name keys args) \<longleftrightarrow> name = ''moveToFinished-14'' \<and> args ! 4 = GStr ''failed''"
| "failsJob e = False"

text \<open>
  There is an attempt left after this one: the limit is positive and greater than the attempts made
  and this one.  (A stored counter of \<open>MaxInt64\<close> wraps around.)
\<close>

definition attemptsLeft :: "int \<Rightarrow> int \<Rightarrow> bool" where
  "attemptsLeft limit atm \<longleftrightarrow> 0 < limit \<and> (atm + 1 < limit \<or> atm = 2 ^ 63 - 1)"

lemma shouldRetry_attemptsLeft:
  assumes "is_int64 atm"
  shows "shouldRetry opts atm err \<longleftrightarrow> \<not> errors_Is err (Sentinel ErrUnrecoverable) \<and> attemptsLeft (jo_attempts opts) atm"
proof (cases "atm = 2 ^ 63 - 1")
  case True
  then have "wrap64 (atm + 1) = - (2 ^ 63)" by (simp add: wrap64_def)
  with True show ?thesis by (auto simp: shouldRetry_def attemptsLeft_def)
next
  case False
  with assms have "is_int64 (atm + 1)" by (auto simp: is_int64_def)
  from shouldRetry_iff [OF this] False show ?thesis by (auto simp: attemptsLeft_def)
qed

lemma terminalCall_kind:
  "sendsBack (terminalCall sv w jobID token jobMap out v now flag) \<longleftrightarrow> (\<exists>d. v = VRetry d)"
  "failsJob (terminalCall sv w jobID token jobMap out v now flag) \<longleftrightarrow> v = VFail"
  by (cases v; simp add: terminalCall_def finishedCall_def Let_def script_name_defs)+

lemma calls_terminal:
  "calls [terminalCall sv w jobID token jobMap out v now flag] = [terminalCall sv w jobID token jobMap out v now flag]"
  by (cases v) (simp_all add: terminalCall_def finishedCall_def Let_def)

lemma policy_retries:
  assumes "\<not> ho_success out" "errors_As_Delayed (ho_err out) = None" "is_int64 atm"
  shows "(\<exists>d. policy cfg jobID jobMap out atm r = VRetry d) \<longleftrightarrow>
      attemptsLeft (jo_attempts (parseJobOpts (hlookup jobMap ''opts''))) atm \<and>
      \<not> errors_Is (ho_err out) (Sentinel ErrUnrecoverable) \<and>
      0 \<le> retryDelaySpec cfg (jo_backoff (parseJobOpts (hlookup jobMap ''opts''))) (retryContext jobID jobMap out atm) r"
    "policy cfg jobID jobMap out atm r = VFail \<longleftrightarrow> \<not> (\<exists>d. policy cfg jobID jobMap out atm r = VRetry d)"
  using assms by (auto simp: policy_def Let_def shouldRetry_attemptsLeft)

text \<open>
  When a job is sent back: from the reply to the HGET of its attempts, the limit and the backoff in
  its options, the error, and the random number of the jitter.
\<close>

definition retryBounded :: "Worker \<Rightarrow> string \<Rightarrow> hash \<Rightarrow> handlerOutcome \<Rightarrow> event list \<Rightarrow> bool" where
  "retryBounded w jobID jobMap out es \<longleftrightarrow> (\<exists>call. calls es = [call] \<and>
     (if ho_success out \<or> errors_As_Delayed (ho_err out) \<noteq> None then \<not> sendsBack call \<and> \<not> failsJob call
      else \<exists>rep r. Cmd (HGet (Timeout (2 * Second)) (job_key (w_keys w) jobID) ''atm'') rep \<in> set es \<and>
        (let atm = parseInt (case rep of Inr (GStr v) \<Rightarrow> v | _ \<Rightarrow> hlookup jobMap ''atm'');
             opts = parseJobOpts (hlookup jobMap ''opts'')
         in (sendsBack call \<longleftrightarrow> attemptsLeft (jo_attempts opts) atm \<and> \<not> errors_Is (ho_err out) (Sentinel ErrUnrecoverable) \<and>
               0 \<le> retryDelaySpec (w_cfg w) (jo_backoff opts) (retryContext jobID jobMap out atm) r) \<and>
            (failsJob call \<longleftrightarrow> \<not> sendsBack call))))"

lemma retryBoundedI:
  assumes call: "calls es = [terminalCall sv w jobID token jobMap out (policy (w_cfg w) jobID jobMap out atm r) now flag]"
    and atm: "ho_success out \<or> errors_As_Delayed (ho_err out) \<noteq> None \<or> (\<exists>rep. atmGet w jobID rep \<in> set es \<and> atm = atmOf jobMap rep)"
  shows "retryBounded w jobID jobMap out es"
proof (cases "ho_success out \<or> errors_As_Delayed (ho_err out) \<noteq> None")
  case True
  with call show ?thesis by (auto simp: retryBounded_def terminalCall_kind policy_def Let_def split: if_splits)
next
  case False
  have a: "atmOf jobMap rep = parseInt (case rep of Inr (GStr v) \<Rightarrow> v | _ \<Rightarrow> hlookup jobMap ''atm'')" for rep
    by (simp add: atmOf_def split: sum.split gval.split)
  from False atm obtain rep where rep: "Cmd (HGet (Timeout (2 * Second)) (job_key (w_keys w) jobID) ''atm'') rep \<in> set es"
    "atm = parseInt (case rep of Inr (GStr v) \<Rightarrow> v | _ \<Rightarrow> hlookup jobMap ''atm'')"
    unfolding a atmGet_def by blast
  from False have n: "\<not> ho_success out" "errors_As_Delayed (ho_err out) = None" by simp_all
  have "is_int64 atm" using rep(2) parseInt_int64 by simp
  note pol = policy_retries [OF n this, of "w_cfg w" jobID jobMap r]
  show ?thesis
    unfolding retryBounded_def call if_not_P [OF False] Let_def
    by (intro exI [of _ rep] exI [of _ r] exI [of _ "terminalCall sv w jobID token jobMap out (policy (w_cfg w) jobID jobMap out atm r) now flag"]
        conjI refl rep(1))
      (unfold terminalCall_kind rep(2) [symmetric], (rule pol)+)
qed

text \<open>
  C23: Retries are bounded.  \<open>finalise\<close> ends an attempt with exactly one script call.  A job whose
  handler succeeded or asked for a delay is never sent back for another attempt.  After a failure
  the attempts made are read from Redis (from the snapshot when that fails), and the job is sent
  back exactly when the limit in its options is positive and not yet reached by these attempts and
  this one, the error does not wrap \<open>ErrUnrecoverable\<close> and the computed delay is not negative;
  otherwise it is moved to the failed set, which is also what happens when its options cannot be
  read, since the limit is then zero.
\<close>

theorem retry_needs_attempts_left:
  assumes "marshal_total sv"
  shows "does (finalise sv w jobID token jobMap out) (\<lambda>res. retryBounded w jobID jobMap out)"
  using finalise_refines_policy [OF assms]
proof (rule does_weaken)
  fix res es
  assume "carries_out sv w jobID token jobMap out res es"
  then obtain atm r where f: "finalised sv w jobID token jobMap out (policy (w_cfg w) jobID jobMap out atm r) res es"
    and atm: "ho_success out \<or> errors_As_Delayed (ho_err out) \<noteq> None \<or> (\<exists>rep. atmGet w jobID rep \<in> set es \<and> atm = atmOf jobMap rep)"
    by (auto simp: carries_out_def)
  from f obtain now flag where
    "calls (obs es) = calls [terminalCall sv w jobID token jobMap out (policy (w_cfg w) jobID jobMap out atm r) now flag]"
    by (metis finalisedE)
  then show "retryBounded w jobID jobMap out es" using atm
    by (intro retryBoundedI) (simp_all add: calls_terminal)
qed

text \<open>
  C24: A handler that asks for a delay does not consume an attempt: when its error wraps a
  \<open>DelayedError\<close>, also beside \<open>ErrUnrecoverable\<close>, the only thing \<open>finalise\<close> does is one
  \<open>moveToDelayed\<close> call with the skip-attempt flag, no failure fields, and at least one millisecond of
  delay, and no job is prefetched.
\<close>

theorem delayed_error_keeps_attempts:
  assumes "marshal_total sv" "\<not> ho_success out" "errors_As_Delayed (ho_err out) = Some d"
  shows "does (finalise sv w jobID token jobMap out) (\<lambda>res es. case res of (pf, st, err) \<Rightarrow> pf = None \<and>
     st = (if err = None then finaliseStatusDelayed else finaliseStatusError) \<and> (\<exists>now.
       obs es = [ScriptCall Background MoveToDelayed (moveToDelayedKeys (w_keys w) jobID)
         [GStr (k_prefix (w_keys w)), GInt64 now, GStr jobID, GStr token, GInt64 (max (Milliseconds d) 1),
          GStr ''1'', GStr [], GStr [], GStr []]]))"
  using finalise_refines_policy [OF assms(1)]
proof (rule does_weaken)
  fix res es
  assume "carries_out sv w jobID token jobMap out res es"
  then obtain atm r where "finalised sv w jobID token jobMap out (policy (w_cfg w) jobID jobMap out atm r) res es"
    by (auto simp: carries_out_def)
  moreover have "policy (w_cfg w) jobID jobMap out atm r = VDelay d" using assms(2,3) by (simp add: policy_def)
  ultimately have f: "finalised sv w jobID token jobMap out (VDelay d) res es" by simp
  from f show "case res of (pf, st, err) \<Rightarrow> pf = None \<and>
     st = (if err = None then finaliseStatusDelayed else finaliseStatusError) \<and> (\<exists>now.
       obs es = [ScriptCall Background MoveToDelayed (moveToDelayedKeys (w_keys w) jobID)
         [GStr (k_prefix (w_keys w)), GInt64 now, GStr jobID, GStr token, GInt64 (max (Milliseconds d) 1),
          GStr ''1'', GStr [], GStr [], GStr []]])"
    by (auto simp: finalised_def terminalCall_def Let_def split: option.splits)
qed

end
