(* ===== verification/Schedule.thy ===== *)
theory Schedule
  imports Cron Finalise
begin

text \<open>
  \<open>schedule.go\<close> (the \<open>UpsertSchedule\<close> functions, \<open>RemoveSchedule\<close>) and the worker's
  \<open>rescheduleNext\<close>.  A \<open>time.Time\<close> option that may be zero is \<open>None\<close>.  Error texts that embed a
  formatted time are given without it.
\<close>

section \<open>The queue handle\<close>

record Queue =
  q_name :: string
  q_keys :: builder

section \<open>Options\<close>

record scheduleConfig =
  sc_limit :: int
  sc_endDate :: "gotime option"
  sc_startDate :: "gotime option"
  sc_tz :: string
  sc_immediately :: bool
  sc_template :: ScheduleTemplateOpts

type_synonym ScheduleOption = "scheduleConfig \<Rightarrow> scheduleConfig"

definition zero_template :: ScheduleTemplateOpts where
  "zero_template = \<lparr>st_RemoveOnComplete = None, st_RemoveOnFail = None, st_Extra = []\<rparr>"

definition zero_scheduleConfig :: scheduleConfig where
  "zero_scheduleConfig = \<lparr>sc_limit = 0, sc_endDate = None, sc_startDate = None, sc_tz = [],
     sc_immediately = False, sc_template = zero_template\<rparr>"

definition mergeRetention :: "RetentionLimit option \<Rightarrow> int option \<Rightarrow> int option \<Rightarrow> RetentionLimit option" where
  "mergeRetention cur count ageSeconds =
     (let out = (case cur of None \<Rightarrow> \<lparr>rl_Count = None, rl_AgeSeconds = None\<rparr> | Some c \<Rightarrow> c);
          out = (case count of None \<Rightarrow> out | Some n \<Rightarrow> out\<lparr>rl_Count := Some n\<rparr>);
          out = (case ageSeconds of None \<Rightarrow> out | Some a \<Rightarrow> out\<lparr>rl_AgeSeconds := Some a\<rparr>)
      in Some out)"

definition WithScheduleLimit :: "int \<Rightarrow> ScheduleOption" where
  "WithScheduleLimit n c = c\<lparr>sc_limit := n\<rparr>"

definition WithScheduleEndDate :: "gotime option \<Rightarrow> ScheduleOption" where
  "WithScheduleEndDate t c = c\<lparr>sc_endDate := t\<rparr>"

definition WithScheduleStartDate :: "gotime option \<Rightarrow> ScheduleOption" where
  "WithScheduleStartDate t c = c\<lparr>sc_startDate := t\<rparr>"

definition WithScheduleTimezone :: "string \<Rightarrow> ScheduleOption" where
  "WithScheduleTimezone tz c = c\<lparr>sc_tz := tz\<rparr>"

definition WithScheduleImmediately :: ScheduleOption where
  "WithScheduleImmediately c = c\<lparr>sc_immediately := True\<rparr>"

definition WithScheduleKeepCompleted :: "int \<Rightarrow> ScheduleOption" where
  "WithScheduleKeepCompleted n c = c\<lparr>sc_template := (sc_template c)\<lparr>st_RemoveOnComplete :=
     mergeRetention (st_RemoveOnComplete (sc_template c)) (Some n) None\<rparr>\<rparr>"

definition WithScheduleKeepCompletedAge :: "duration \<Rightarrow> ScheduleOption" where
  "WithScheduleKeepCompletedAge age c = c\<lparr>sc_template := (sc_template c)\<lparr>st_RemoveOnComplete :=
     mergeRetention (st_RemoveOnComplete (sc_template c)) None (Some (wholeSeconds age))\<rparr>\<rparr>"

definition WithScheduleKeepFailed :: "int \<Rightarrow> ScheduleOption" where
  "WithScheduleKeepFailed n c = c\<lparr>sc_template := (sc_template c)\<lparr>st_RemoveOnFail :=
     mergeRetention (st_RemoveOnFail (sc_template c)) (Some n) None\<rparr>\<rparr>"

definition WithScheduleKeepFailedAge :: "duration \<Rightarrow> ScheduleOption" where
  "WithScheduleKeepFailedAge age c = c\<lparr>sc_template := (sc_template c)\<lparr>st_RemoveOnFail :=
     mergeRetention (st_RemoveOnFail (sc_template c)) None (Some (wholeSeconds age))\<rparr>\<rparr>"

section \<open>Upsert and remove\<close>

definition scheduleKeys :: "Queue \<Rightarrow> string list" where
  "scheduleKeys q =
     [Repeat (q_keys q), Delayed (q_keys q), Wait (q_keys q), Paused (q_keys q), Meta (q_keys q),
      Prioritized (q_keys q), Marker (q_keys q), ID (q_keys q), Events (q_keys q),
      PriorityCounter (q_keys q), Active (q_keys q)]"

definition upsertSchedule ::
  "('s, 't) services \<Rightarrow> Queue \<Rightarrow> string \<Rightarrow> string \<Rightarrow> ScheduleOpts \<Rightarrow> ScheduleTemplateOpts \<Rightarrow> string \<Rightarrow>
   ('s, goerr option) act" where
  "upsertSchedule sv q scheduleID nextMillis scheduleOpts template dataJSON =
     (case EncodeScheduleOpts (sv_marshal sv) scheduleOpts of
        Inl err \<Rightarrow> ret (Some (errorf ''mkq: encode schedule opts: '' err))
      | Inr scheduleOptsBytes \<Rightarrow>
     (case EncodeScheduleTemplateOpts (sv_marshal sv) template of
        Inl err \<Rightarrow> ret (Some (errorf ''mkq: encode template opts: '' err))
      | Inr templateOptsBytes \<Rightarrow>
     (case EncodeScheduleDelayedOpts (sv_marshal sv) scheduleOpts template of
        Inl err \<Rightarrow> ret (Some (errorf ''mkq: encode delayed opts: '' err))
      | Inr delayedOptsBytes \<Rightarrow> do {
          now \<leftarrow> nowMilli sv;
          r \<leftarrow> Run sv CallerCtx AddJobScheduler (scheduleKeys q)
            [GStr nextMillis, GBytes scheduleOptsBytes, GStr scheduleID, GStr dataJSON,
             GBytes templateOptsBytes, GBytes delayedOptsBytes, GInt64 now, GStr (Base (q_keys q)), GStr []];
          ret (check_code ''mkq: addJobScheduler'' r)
        })))"

text \<open>The \<open>ScheduleOpts\<close> literal with the dates filled in when they are set.\<close>

definition datedOpts :: "Queue \<Rightarrow> scheduleConfig \<Rightarrow> int \<Rightarrow> string \<Rightarrow> string \<Rightarrow> ScheduleOpts" where
  "datedOpts q cfg everyMs pattern tz =
     \<lparr>so_Name = q_name q, so_EveryMs = everyMs, so_Pattern = pattern, so_TZ = tz,
      so_StartDate = (case sc_startDate cfg of None \<Rightarrow> 0 | Some t \<Rightarrow> UnixMilli t),
      so_EndDate = (case sc_endDate cfg of None \<Rightarrow> 0 | Some t \<Rightarrow> UnixMilli t),
      so_Limit = sc_limit cfg\<rparr>"

definition neverRuns :: goerr where
  "neverRuns = PlainErr ''mkq: first fire exceeds endDate; schedule would never run''"

definition UpsertScheduleEvery ::
  "('s, 't) services \<Rightarrow> Queue \<Rightarrow> string \<Rightarrow> duration \<Rightarrow> 't \<Rightarrow> ScheduleOption list \<Rightarrow> ('s, goerr option) act" where
  "UpsertScheduleEvery sv q scheduleID every payload opts =
     (if scheduleID = [] then ret (Some (PlainErr ''mkq: scheduleID must be non-empty''))
      else if every \<le> 0 then ret (Some (PlainErr ''mkq: every must be positive''))
      else let cfg = apply_options opts zero_scheduleConfig in
        if sc_tz cfg \<noteq> [] \<or> sc_immediately cfg then
          ret (Some (PlainErr (''mkq: WithScheduleTimezone / WithScheduleImmediately are pattern-mode only; '' @
            ''use UpsertSchedulePattern'')))
        else (case sv_marshal_data sv payload of
            Inl err \<Rightarrow> ret (Some (errorf ''mkq: marshal schedule payload: '' err))
          | Inr dataJSON \<Rightarrow>
              (let scheduleOpts = datedOpts q cfg (Milliseconds every) [] [];
                   go = upsertSchedule sv q scheduleID ''0'' scheduleOpts (sc_template cfg) dataJSON
               in case sc_endDate cfg of
                    None \<Rightarrow> go
                  | Some endDate \<Rightarrow> do {
                      now \<leftarrow> ask (sv_now sv);
                      let firstFire = (case sc_startDate cfg of None \<Rightarrow> now | Some t \<Rightarrow> if t > now then t else now);
                      if firstFire > endDate then ret (Some neverRuns) else go
                    })))"

definition UpsertSchedulePattern ::
  "('s, 't) services \<Rightarrow> cronCache \<Rightarrow> Queue \<Rightarrow> string \<Rightarrow> string \<Rightarrow> 't \<Rightarrow> ScheduleOption list \<Rightarrow>
   ('s, goerr option) act" where
  "UpsertSchedulePattern sv cache q scheduleID pattern payload opts =
     (if scheduleID = [] then ret (Some (PlainErr ''mkq: scheduleID must be non-empty''))
      else let cfg = apply_options opts zero_scheduleConfig in
        if sc_immediately cfg \<and> sc_startDate cfg \<noteq> None then
          ret (Some (PlainErr ''mkq: WithScheduleImmediately and WithScheduleStartDate are mutually exclusive''))
        else (case fst (parseCron (sv_cron sv) cache pattern (sc_tz cfg)) of
            Inl err \<Rightarrow> ret (Some err)
          | Inr cc \<Rightarrow>
          (case sv_marshal_data sv payload of
            Inl err \<Rightarrow> ret (Some (errorf ''mkq: marshal schedule payload: '' err))
          | Inr dataJSON \<Rightarrow> do {
              let scheduleOpts = datedOpts q cfg 0 pattern (sc_tz cfg);
              now \<leftarrow> ask (sv_now sv);
              let firstFire = (if sc_immediately cfg then now
                else case sc_startDate cfg of Some t \<Rightarrow> nextFire cc t | None \<Rightarrow> nextFire cc now);
              if (case sc_endDate cfg of None \<Rightarrow> False | Some endDate \<Rightarrow> firstFire > endDate)
              then ret (Some neverRuns)
              else upsertSchedule sv q scheduleID (FormatInt (UnixMilli firstFire)) scheduleOpts
                (sc_template cfg) dataJSON
            })))"

definition RemoveSchedule :: "('s, 't) services \<Rightarrow> Queue \<Rightarrow> string \<Rightarrow> ('s, goerr option) act" where
  "RemoveSchedule sv q scheduleID =
     (if scheduleID = [] then ret (Some (PlainErr ''mkq: scheduleID must be non-empty''))
      else do {
        r \<leftarrow> redis sv (Pipeline [DelCmd CallerCtx [Schedule (q_keys q) scheduleID],
          ZRemCmd CallerCtx (Repeat (q_keys q)) scheduleID]);
        ret (map_option (errorf (''mkq: remove schedule '' @ scheduleID @ '': '')) (execErr r))
      })"

section \<open>The worker's next iteration\<close>

definition rescheduleKeys :: "queueKeys \<Rightarrow> string list" where
  "rescheduleKeys k =
     [k_repeat k, k_delayed k, k_wait k, k_paused k, k_meta k, k_prioritized k, k_marker k, k_id k,
      k_events k, k_pc k, [], k_active k]"

definition rescheduleFields :: "string list" where
  "rescheduleFields = [''limit'', ''ic'', ''every'', ''startDate'', ''endDate'', ''pattern'', ''tz'', ''opts'']"

text \<open>
  The next iteration's time and the first argument of the script: the pattern's next time, or the
  interval from now on with the argument that lets the script compute it.
\<close>

definition nextIteration ::
  "cron_lib \<Rightarrow> cronCache \<Rightarrow> string \<Rightarrow> string \<Rightarrow> int \<Rightarrow> gotime \<Rightarrow> goerr + (int \<times> string)" where
  "nextIteration lib cache pattern tz everyMs nowTime =
     (if pattern \<noteq> [] then
        (case fst (parseCron lib cache pattern tz) of
           Inl err \<Rightarrow> Inl err
         | Inr cc \<Rightarrow> (let m = UnixMilli (nextFire cc nowTime) in Inr (m, FormatInt m)))
      else Inr (wrap64 (UnixMilli nowTime + everyMs), ''0''))"

text \<open>\<open>rescheduleNext\<close> from the clock reading on.\<close>

definition sendIteration ::
  "('s, 't) services \<Rightarrow> cronCache \<Rightarrow> Worker \<Rightarrow> string \<Rightarrow> string \<Rightarrow> ScheduleOpts \<Rightarrow> string \<Rightarrow> gotime \<Rightarrow> ('s, unit) act" where
  "sendIteration sv cache w scheduleID currentJobID scheduleProto delayedOpts nowTime =
     (case nextIteration (sv_cron sv) cache (so_Pattern scheduleProto) (so_TZ scheduleProto) (so_EveryMs scheduleProto) nowTime of
        Inl err \<Rightarrow> emit (Log LError ''mkq: cron pattern parse failure in rescheduleNext''
          [(AttrQueue, w_queueName w), (''schedule_id'', scheduleID), (''pattern'', so_Pattern scheduleProto),
           (''tz'', so_TZ scheduleProto), (AttrError, err_text err)])
      | Inr (nextMillisVal, nextMillisArg) \<Rightarrow>
          if so_EndDate scheduleProto > 0 \<and> nextMillisVal > so_EndDate scheduleProto then ret ()
          else do {
            r \<leftarrow> Run sv (Timeout (2 * Second)) UpdateJobScheduler (rescheduleKeys (w_keys w))
              [GStr nextMillisArg, GStr scheduleID, GStr [CHR 0x7B, CHR 0x7D], GBytes delayedOpts,
               GInt64 (UnixMilli nowTime), GStr (k_prefix (w_keys w)), GStr currentJobID];
            ret ()
          })"

text \<open>
  The part of \<open>rescheduleNext\<close> after the HMGET: the values read, in order, and what follows.
\<close>

definition storedSchedule :: "gval list \<Rightarrow> ScheduleOpts" where
  "storedSchedule vals =
     \<lparr>so_Name = [], so_EveryMs = fst (ParseInt (asString (vals ! 2))), so_Pattern = asString (vals ! 5),
      so_TZ = asString (vals ! 6), so_StartDate = fst (ParseInt (asString (vals ! 3))),
      so_EndDate = fst (ParseInt (asString (vals ! 4))), so_Limit = parseInt (asString (vals ! 0))\<rparr>"

definition rescheduleWith ::
  "('s, 't) services \<Rightarrow> cronCache \<Rightarrow> Worker \<Rightarrow> string \<Rightarrow> string \<Rightarrow> gval list \<Rightarrow> ('s, unit) act" where
  "rescheduleWith sv cache w scheduleID currentJobID vals =
     (let scheduleProto = storedSchedule vals; ic = parseInt (asString (vals ! 1));
          (template, terr) = DecodeScheduleTemplateOpts (asString (vals ! 7))
      in if so_Limit scheduleProto > 0 \<and> ic \<ge> so_Limit scheduleProto then ret ()
         else do {
           (case terr of None \<Rightarrow> ret () | Some err \<Rightarrow>
              emit (Log LError ''mkq: scheduler template opts are unreadable; the next iteration loses them''
                [(AttrQueue, w_queueName w), (''schedule_id'', scheduleID), (AttrError, err_text err)]));
           if so_EveryMs scheduleProto \<le> 0 \<and> so_Pattern scheduleProto = [] then ret ()
           else (case EncodeScheduleDelayedOpts (sv_marshal sv) scheduleProto template of
               Inl _ \<Rightarrow> ret ()
             | Inr delayedOpts \<Rightarrow> do {
                 nowTime \<leftarrow> ask (sv_now sv);
                 sendIteration sv cache w scheduleID currentJobID scheduleProto delayedOpts nowTime
               })
         })"

definition rescheduleNext ::
  "('s, 't) services \<Rightarrow> cronCache \<Rightarrow> Worker \<Rightarrow> string \<Rightarrow> string \<Rightarrow> ('s, unit) act" where
  "rescheduleNext sv cache w scheduleID currentJobID = do {
     r \<leftarrow> redis sv (HMGet (Timeout (2 * Second)) (Schedule (k_builder (w_keys w)) scheduleID) rescheduleFields);
     (case r of
        Inr (GArr vals) \<Rightarrow>
          if length vals \<noteq> 8 then ret () else rescheduleWith sv cache w scheduleID currentJobID vals
      | _ \<Rightarrow> ret ())
   }"

section \<open>Lemmas\<close>

lemma mergeRetention_commute:
  "mergeRetention (mergeRetention cur (Some n) None) None (Some a) =
   mergeRetention (mergeRetention cur None (Some a)) (Some n) None"
  by (simp add: mergeRetention_def split: option.split)

text \<open>
  The specification of rescheduling.  \<open>storedField\<close> is a field of the schedule's hash in the reply to
  the HMGET, absent fields being empty.  \<open>due\<close> is the first argument of the script when the next
  iteration is due: nothing once the limit is reached, past the end date, with a pattern that does
  not parse, or with neither a pattern nor a positive interval; for a pattern the milliseconds of
  its next time, for an interval the \<open>0\<close> that lets the script compute it.
\<close>

definition storedField :: "gval list \<Rightarrow> string \<Rightarrow> string" where
  "storedField vals f =
     (case map_of (zip [''limit'', ''ic'', ''every'', ''startDate'', ''endDate'', ''pattern'', ''tz'', ''opts''] vals) f of
        Some (GStr s) \<Rightarrow> s | _ \<Rightarrow> [])"

definition due :: "cron_lib \<Rightarrow> cronCache \<Rightarrow> (string \<Rightarrow> string) \<Rightarrow> gotime \<Rightarrow> string option" where
  "due lib cache h nowTime =
     (let limit = parseInt (h ''limit''); every = fst (ParseInt (h ''every''));
          past = (\<lambda>t. 0 < fst (ParseInt (h ''endDate'')) \<and> fst (ParseInt (h ''endDate'')) < t)
      in if 0 < limit \<and> limit \<le> parseInt (h ''ic'') then None
         else if h ''pattern'' \<noteq> [] then
           (case fst (parseCron lib cache (h ''pattern'') (h ''tz'')) of
              Inl _ \<Rightarrow> None
            | Inr cc \<Rightarrow> if past (UnixMilli (nextFire cc nowTime)) then None else Some (FormatInt (UnixMilli (nextFire cc nowTime))))
         else if 0 < every \<and> \<not> past (wrap64 (nowTime div 1000000 + every)) then Some ''0''
         else None)"

text \<open>The call that adds the iteration, with the options of the schedule and of its template.\<close>

definition iterationOpts :: "('s, 't) services \<Rightarrow> (string \<Rightarrow> string) \<Rightarrow> string" where
  "iterationOpts sv h =
     encoded sv (MMap (delayedOptsMap
       \<lparr>so_Name = [], so_EveryMs = fst (ParseInt (h ''every'')), so_Pattern = h ''pattern'', so_TZ = h ''tz'',
        so_StartDate = fst (ParseInt (h ''startDate'')), so_EndDate = fst (ParseInt (h ''endDate'')),
        so_Limit = parseInt (h ''limit'')\<rparr> (fst (DecodeScheduleTemplateOpts (h ''opts'')))))"

definition iterationCall :: "Worker \<Rightarrow> string \<Rightarrow> string \<Rightarrow> string \<Rightarrow> gotime \<Rightarrow> string \<Rightarrow> event" where
  "iterationCall w scheduleID jobID delayedOpts nowTime arg =
     (let k = w_keys w in
      ScriptCall (Timeout (2 * Second)) ''updateJobScheduler-12''
        [k_repeat k, k_delayed k, k_wait k, k_paused k, k_meta k, k_prioritized k, k_marker k, k_id k,
         k_events k, k_pc k, [], k_active k]
        [GStr arg, GStr scheduleID, GStr [CHR 0x7B, CHR 0x7D], GBytes delayedOpts, GInt64 (nowTime div 1000000),
         GStr (k_prefix k), GStr jobID])"

definition iterationCalls ::
  "('s, 't) services \<Rightarrow> cronCache \<Rightarrow> Worker \<Rightarrow> string \<Rightarrow> string \<Rightarrow> (string \<Rightarrow> string) \<Rightarrow> gotime \<Rightarrow> event list" where
  "iterationCalls sv cache w scheduleID jobID h nowTime =
     (case due (sv_cron sv) cache h nowTime of
        None \<Rightarrow> []
      | Some arg \<Rightarrow> [iterationCall w scheduleID jobID (iterationOpts sv h) nowTime arg])"

lemma storedField_vals:
  assumes "length vals = 8"
  shows "asString (vals ! 0) = storedField vals ''limit''" "asString (vals ! 1) = storedField vals ''ic''"
    "asString (vals ! 2) = storedField vals ''every''" "asString (vals ! 3) = storedField vals ''startDate''"
    "asString (vals ! 4) = storedField vals ''endDate''" "asString (vals ! 5) = storedField vals ''pattern''"
    "asString (vals ! 6) = storedField vals ''tz''" "asString (vals ! 7) = storedField vals ''opts''"
proof -
  from assms obtain a b c d e f g h where "vals = [a, b, c, d, e, f, g, h]"
    by (auto simp: numeral_eq_Suc length_Suc_conv)
  then show "asString (vals ! 0) = storedField vals ''limit''" "asString (vals ! 1) = storedField vals ''ic''"
    "asString (vals ! 2) = storedField vals ''every''" "asString (vals ! 3) = storedField vals ''startDate''"
    "asString (vals ! 4) = storedField vals ''endDate''" "asString (vals ! 5) = storedField vals ''pattern''"
    "asString (vals ! 6) = storedField vals ''tz''" "asString (vals ! 7) = storedField vals ''opts''"
    by (simp_all add: storedField_def asString_def split: gval.split)
qed

lemma calls_of_obs: "obs es = cs \<Longrightarrow> calls es = calls cs"
  by (metis calls_obs)

lemma sendIteration_due:
  assumes "\<not> (0 < parseInt (h ''limit'') \<and> parseInt (h ''limit'') \<le> parseInt (h ''ic''))"
    "\<not> (fst (ParseInt (h ''every'')) \<le> 0 \<and> h ''pattern'' = [])"
    "so_Pattern so = h ''pattern''" "so_TZ so = h ''tz''" "so_EveryMs so = fst (ParseInt (h ''every''))"
    "so_EndDate so = fst (ParseInt (h ''endDate''))"
  shows "does (sendIteration sv cache w scheduleID jobID so (iterationOpts sv h) nowTime) (\<lambda>u es.
     calls es = iterationCalls sv cache w scheduleID jobID h nowTime)"
  unfolding sendIteration_def using assms
  by (intro does_rules does_script)
    (auto simp: iterationCalls_def due_def iterationCall_def nextIteration_def Let_def UnixMilli_def
      rescheduleKeys_def UpdateJobScheduler_def dest: calls_of_obs split: if_splits sum.splits)

lemma iterationCalls_none:
  "0 < parseInt (h ''limit'') \<and> parseInt (h ''limit'') \<le> parseInt (h ''ic'') \<or>
   fst (ParseInt (h ''every'')) \<le> 0 \<and> h ''pattern'' = [] \<Longrightarrow> iterationCalls sv cache w scheduleID jobID h nowTime = []"
  by (auto simp: iterationCalls_def due_def Let_def)

lemma rescheduleWith_due:
  assumes m: "marshal_total sv" and len: "length vals = 8"
  shows "does (rescheduleWith sv cache w scheduleID jobID vals) (\<lambda>u es. \<exists>s.
     calls es = iterationCalls sv cache w scheduleID jobID (storedField vals) (fst (sv_now sv s)))"
proof -
  let ?h = "storedField vals"
  obtain template terr where t: "DecodeScheduleTemplateOpts (?h ''opts'') = (template, terr)" by fastforce
  have enc: "EncodeScheduleDelayedOpts (sv_marshal sv) (storedSchedule vals) template = Inr (iterationOpts sv ?h)"
    using m t by (simp add: EncodeScheduleDelayedOpts_def marshal_total_def iterationOpts_def storedSchedule_def storedField_vals [OF len])
  have so: "so_Limit (storedSchedule vals) = parseInt (?h ''limit'')" "so_Pattern (storedSchedule vals) = ?h ''pattern''"
    "so_TZ (storedSchedule vals) = ?h ''tz''" "so_EveryMs (storedSchedule vals) = fst (ParseInt (?h ''every''))"
    "so_EndDate (storedSchedule vals) = fst (ParseInt (?h ''endDate''))"
    by (simp_all add: storedSchedule_def storedField_vals [OF len])
  have send: "does (sendIteration sv cache w scheduleID jobID (storedSchedule vals) (iterationOpts sv ?h) (fst (sv_now sv s)))
      (\<lambda>u es. \<exists>s. calls es = iterationCalls sv cache w scheduleID jobID ?h (fst (sv_now sv s)))"
    if "\<not> (0 < parseInt (?h ''limit'') \<and> parseInt (?h ''limit'') \<le> parseInt (?h ''ic''))"
      "\<not> (fst (ParseInt (?h ''every'')) \<le> 0 \<and> ?h ''pattern'' = [])" for s
    by (rule does_weaken [OF sendIteration_due [OF that so(2-5)]]) (rule exI)
  show ?thesis
    unfolding rescheduleWith_def Let_def storedField_vals [OF len] t prod.case enc sum.case so
    by (intro does_if does_bindI does_case_option does_emit does_ask_val does_return)
      (use send in \<open>simp_all add: iterationCalls_none\<close>)
qed

text \<open>
  What an accepted \<open>UpsertScheduleEvery\<close> sends: the fields of the schedule, given by name, and the
  call with them.
\<close>

definition everyFields :: "duration \<Rightarrow> scheduleConfig \<Rightarrow> string \<Rightarrow> mval option" where
  "everyFields every cfg f =
     (if f = ''every'' \<and> every \<ge> 1000000 then Some (MInt (every div 1000000))
      else if f = ''limit'' \<and> sc_limit cfg > 0 then Some (MInt (sc_limit cfg))
      else if f = ''startDate'' then
        (case sc_startDate cfg of None \<Rightarrow> None | Some t \<Rightarrow> if t \<ge> 1000000 then Some (MInt (t div 1000000)) else None)
      else if f = ''endDate'' then
        (case sc_endDate cfg of None \<Rightarrow> None | Some t \<Rightarrow> if t \<ge> 1000000 then Some (MInt (t div 1000000)) else None)
      else None)"

definition everySent ::
  "('s, 't) services \<Rightarrow> Queue \<Rightarrow> string \<Rightarrow> duration \<Rightarrow> string \<Rightarrow> scheduleConfig \<Rightarrow> goerr option \<Rightarrow> event list \<Rightarrow> bool" where
  "everySent sv q scheduleID every dataJSON cfg err es \<longleftrightarrow>
     (\<exists>so first delayed now rep. let k = q_keys q in
        calls es = [ScriptCall CallerCtx ''addJobScheduler-11''
          [Repeat k, Delayed k, Wait k, Paused k, Meta k, Prioritized k, Marker k, ID k, Events k, PriorityCounter k, Active k]
          [GStr ''0'', GBytes (encoded sv (MMap so)), GStr scheduleID, GStr dataJSON,
           GBytes (encoded sv (MMap (toMap (sc_template cfg)))), GBytes (encoded sv (MMap delayed)), GInt64 now,
           GStr (Base k), GStr []]] \<and>
        replies es = [(''addJobScheduler-11'', rep)] \<and> err = check_code ''mkq: addJobScheduler'' rep \<and>
        map_of so = (everyFields every cfg)(''name'' \<mapsto> MStr (q_name q)) \<and>
        map_of delayed = (map_of (toMap (sc_template cfg)))(''repeat'' \<mapsto> MMap first) \<and>
        map_of first = everyFields every cfg)"

lemma everyFields_scheduleFields:
  assumes "0 < every"
  shows "map_of (scheduleFields (datedOpts q cfg (Milliseconds every) [] []) []) = everyFields every cfg"
    "map_of (scheduleFields (datedOpts q cfg (Milliseconds every) [] []) [(''name'', MStr n)]) =
       (everyFields every cfg)(''name'' \<mapsto> MStr n)"
proof -
  have pos: "0 < t div 1000000 \<longleftrightarrow> 1000000 \<le> t" for t :: int by (simp add: pos_imp_zdiv_pos_iff)
  have ms: "Milliseconds every = every div 1000000" using assms by (simp add: Milliseconds_nonneg)
  have f: "map_of (scheduleFields (datedOpts q cfg (Milliseconds every) [] []) m) f =
      (case everyFields every cfg f of None \<Rightarrow> map_of m f | v \<Rightarrow> v)" for m f
    by (cases "f = ''every''"; cases "f = ''limit''"; cases "f = ''startDate''"; cases "f = ''endDate''")
      (simp_all add: scheduleFields_def everyFields_def datedOpts_def ms pos UnixMilli_def split: option.split)
  show "map_of (scheduleFields (datedOpts q cfg (Milliseconds every) [] []) []) = everyFields every cfg"
    by (rule ext) (simp add: f split: option.split)
  show "map_of (scheduleFields (datedOpts q cfg (Milliseconds every) [] []) [(''name'', MStr n)]) =
       (everyFields every cfg)(''name'' \<mapsto> MStr n)"
    by (rule ext) (simp add: f everyFields_def split: option.split)
qed

lemma everySent_upsert:
  assumes m: "marshal_total sv" and every: "0 < every"
  shows "does (upsertSchedule sv q scheduleID ''0'' (datedOpts q cfg (Milliseconds every) [] []) (sc_template cfg) dataJSON)
     (everySent sv q scheduleID every dataJSON cfg)"
proof -
  let ?so = "datedOpts q cfg (Milliseconds every) [] []"
  have enc: "sv_marshal sv v = Inr (encoded sv v)" for v using m by (simp add: marshal_total_def)
  have n: "so_Name ?so = q_name q" by (simp add: datedOpts_def)
  have sent: "everySent sv q scheduleID every dataJSON cfg (check_code ''mkq: addJobScheduler'' rep) es"
    if "obs es = [ScriptCall CallerCtx AddJobScheduler (scheduleKeys q)
       [GStr ''0'', GBytes (encoded sv (MMap (scheduleFields ?so [(''name'', MStr (q_name q))]))), GStr scheduleID, GStr dataJSON,
        GBytes (encoded sv (MMap (toMap (sc_template cfg)))), GBytes (encoded sv (MMap (delayedOptsMap ?so (sc_template cfg)))),
        GInt64 now, GStr (Base (q_keys q)), GStr []]]" "replies es = [(AddJobScheduler, rep)]" for es rep now
    unfolding everySent_def Let_def
    by (intro exI [of _ "scheduleFields ?so [(''name'', MStr (q_name q))]"] exI [of _ "scheduleFields ?so []"]
        exI [of _ "delayedOptsMap ?so (sc_template cfg)"] exI [of _ now] exI [of _ rep] conjI)
      (use that(2) calls_of_obs [OF that(1)] everyFields_scheduleFields [OF every] in
        \<open>simp_all add: scheduleKeys_def AddJobScheduler_def delayedOptsMap_def\<close>)
  show ?thesis
    unfolding upsertSchedule_def EncodeScheduleOpts_def EncodeScheduleTemplateOpts_def EncodeScheduleDelayedOpts_def n enc sum.case
    by (intro does_bindI does_nowMilli does_Run does_return) (simp add: sent)
qed

section \<open>Properties\<close>

text \<open>
  C25: Rescheduling adds an iteration exactly when one is due.  \<open>rescheduleNext\<close> reads eight named
  fields of the schedule's hash by one HMGET and makes one \<open>updateJobScheduler\<close> call when the limit
  is not reached by the iteration count, there is a pattern that parses or else a positive
  interval, and the next time (the pattern's after now, or now plus the interval) is not past the
  end date; the call carries the pattern's next time, or \<open>0\<close> for an interval, and the schedule's own
  fields with its template as options.  In every other case, also when the HMGET fails or its reply
  has another shape, there is no call.
\<close>

theorem reschedule_when_due:
  assumes m: "marshal_total sv"
  shows "does (rescheduleNext sv cache w scheduleID jobID) (\<lambda>u es. \<exists>rep es'.
     es = Cmd (HMGet (Timeout (2 * Second)) (Schedule (k_builder (w_keys w)) scheduleID)
       [''limit'', ''ic'', ''every'', ''startDate'', ''endDate'', ''pattern'', ''tz'', ''opts'']) rep # es' \<and>
     (case rep of
        Inr (GArr vals) \<Rightarrow> if length vals = 8
          then \<exists>s. calls es' = iterationCalls sv cache w scheduleID jobID (storedField vals) (fst (sv_now sv s))
          else calls es' = []
      | _ \<Rightarrow> calls es' = []))"
  unfolding rescheduleNext_def rescheduleFields_def
  apply (intro does_bindI does_redis)
  subgoal for rep
    by (cases rep; (cases "projr rep")?)
      (auto intro!: does_return does_weaken [OF rescheduleWith_due [OF m]])
  done

text \<open>
  C39: \<open>UpsertScheduleEvery\<close> sends what it was given.  With valid arguments it makes one
  \<open>addJobScheduler\<close> call and its error is that of the reply alone, unless the first run (now, or the
  start date when that is later) is past the end date, which is refused without a call.  The
  payload has the queue's name, the limit and the dates that are set, and the interval in whole
  milliseconds; the options of the first instance carry the same fields.  An interval below one
  millisecond passes the guard and is cut to zero, and the payload then has neither an interval
  nor a pattern: the script adds one instance for time 0, which runs once at once, and no iteration
  is due after it (\<open>iterationCalls_none\<close>).
\<close>

theorem every_schedule_sent:
  assumes m: "marshal_total sv" and every: "0 < every" and s: "scheduleID \<noteq> []"
    and d: "sv_marshal_data sv payload = Inr dataJSON" and cfg: "apply_options opts zero_scheduleConfig = cfg"
    and pm: "sc_tz cfg = []" "\<not> sc_immediately cfg"
  shows "does (UpsertScheduleEvery sv q scheduleID every payload opts) (\<lambda>err es.
     (case sc_endDate cfg of
        None \<Rightarrow> everySent sv q scheduleID every dataJSON cfg err es
      | Some endDate \<Rightarrow> \<exists>s. let now = fst (sv_now sv s); start = (case sc_startDate cfg of None \<Rightarrow> now | Some t \<Rightarrow> max t now)
          in if endDate < start then err = Some neverRuns \<and> es = []
             else everySent sv q scheduleID every dataJSON cfg err es))"
proof (cases "sc_endDate cfg")
  case None
  with assms show ?thesis
    by (simp add: UpsertScheduleEvery_def Let_def everySent_upsert)
next
  case (Some endDate)
  define start where "start now = (case sc_startDate cfg of None \<Rightarrow> now | Some t \<Rightarrow> max t now)" for now
  have f: "(case sc_startDate cfg of None \<Rightarrow> now | Some t \<Rightarrow> if now < t then t else now) = start now" for now
    by (auto simp: start_def split: option.split)
  have "does (UpsertScheduleEvery sv q scheduleID every payload opts) (\<lambda>err es. \<exists>s.
      if endDate < start (fst (sv_now sv s)) then err = Some neverRuns \<and> es = []
      else everySent sv q scheduleID every dataJSON cfg err es)"
    using Some assms unfolding UpsertScheduleEvery_def Let_def
    by (simp add: f)
      (auto intro!: does_bindI does_ask_val does_return does_weaken [OF everySent_upsert [OF m every]])
  with Some show ?thesis by (simp add: start_def Let_def)
qed

end
