(* ===== verification/Dispatch.thy ===== *)
theory Dispatch
  imports Schedule
begin

text \<open>
  The running worker (\<open>worker.go\<close>): one acquired job (\<open>runHandler\<close>, \<open>heartbeat\<close>,
  \<open>processJob\<close>, \<open>runJob\<close>), one dequeue attempt (\<open>tryOnce\<close>), the dispatcher's loop and the
  stalled-jobs loop.  The two loops are bodies handed to \<open>loop\<close>, whose fuel bounds the rounds.

  The heartbeat goroutine runs beside the handler: in the model its ticks come before the
  handler's result, and the handler is told whether one of them cancelled its context.  That both
  are over before \<open>finalise\<close> starts is what the code enforces (\<open>cancelJob(); <-hbDone\<close>).
\<close>

section \<open>One job\<close>

definition newHandlerShim ::
  "('s, 't) services \<Rightarrow> bool \<Rightarrow> string \<Rightarrow> hash \<Rightarrow> ('s, (goerr + (goerr + string)) outcome) act" where
  "newHandlerShim sv cancelled jobID jobMap =
     (case buildJob (sv_zero sv) (sv_unmarshal sv) jobID jobMap of
        Inl err \<Rightarrow> ret (Returns (Inl (errorf (''mkq: rebuild job '' @ jobID @ '': '') err)))
      | Inr job \<Rightarrow> do { emit (HandlerCall jobID); ask (sv_handler sv cancelled job) })"

text \<open>The type assertion holds: \<open>Process\<close> hands its workers nothing but shims.\<close>

definition invokeHandler ::
  "('s, 't) services \<Rightarrow> bool \<Rightarrow> string \<Rightarrow> hash \<Rightarrow> ('s, (goerr + (goerr + string)) outcome) act" where
  "invokeHandler sv cancelled jobID jobMap = newHandlerShim sv cancelled jobID jobMap"

definition failedOutcome :: "goerr \<Rightarrow> string \<Rightarrow> handlerOutcome" where
  "failedOutcome err reason = \<lparr>ho_success = False, ho_returnValue = [], ho_err = err,
     ho_errReason = reason, ho_stacktrace = json_slice json_string (Some [reason])\<rparr>"

text \<open>The outcome of a handler that returned or panicked.\<close>

definition handlerResult :: "('s, 't) services \<Rightarrow> (goerr + (goerr + string)) outcome \<Rightarrow> ('s, handlerOutcome) act" where
  "handlerResult sv out = (case out of
        Panics r \<Rightarrow> do {
          stack \<leftarrow> ask (sv_stack sv);
          ret (failedOutcome (PlainErr (''mkq: handler panic: '' @ r)) (''panic: '' @ r @ [CHR 0x0A] @ stack))
        }
      | Returns res \<Rightarrow> (case res of
          Inl err \<Rightarrow> ret (failedOutcome err (err_text err))
        | Inr v \<Rightarrow> ret \<lparr>ho_success = True, ho_returnValue = mustJSONString v, ho_err = PlainErr [],
            ho_errReason = [], ho_stacktrace = []\<rparr>))"

definition runHandler :: "('s, 't) services \<Rightarrow> bool \<Rightarrow> string \<Rightarrow> hash \<Rightarrow> ('s, handlerOutcome) act" where
  "runHandler sv cancelled jobID jobMap = do {
     out \<leftarrow> invokeHandler sv cancelled jobID jobMap;
     handlerResult sv out
   }"

text \<open>One extension of the lock; the result says whether the lock is still the worker's.\<close>

definition extendLock :: "('s, 't) services \<Rightarrow> Worker \<Rightarrow> string \<Rightarrow> string \<Rightarrow> ('s, bool) act" where
  "extendLock sv w token jobID = do {
     r \<leftarrow> Run sv Background ExtendLock [jobLock (w_keys w) jobID, k_stalled (w_keys w)]
       [GStr token, GInt64 (lockMs w), GStr jobID];
     ret (case r of Inl _ \<Rightarrow> False | Inr res \<Rightarrow> res \<noteq> GInt64 0)
   }"

fun heartbeat_ticks :: "('s, 't) services \<Rightarrow> Worker \<Rightarrow> string \<Rightarrow> string \<Rightarrow> nat \<Rightarrow> ('s, bool) act" where
  "heartbeat_ticks sv w token jobID 0 = ret False"
| "heartbeat_ticks sv w token jobID (Suc n) = do {
     ours \<leftarrow> extendLock sv w token jobID;
     if ours then heartbeat_ticks sv w token jobID n else ret True
   }"

definition heartbeatPeriod :: "Worker \<Rightarrow> duration" where
  "heartbeatPeriod w = max (wc_lockDuration (w_cfg w) sdiv 2) Second"

definition heartbeat :: "('s, 't) services \<Rightarrow> Worker \<Rightarrow> string \<Rightarrow> string \<Rightarrow> ('s, bool) act" where
  "heartbeat sv w token jobID = do {
     n \<leftarrow> ask (sv_ticks sv (heartbeatPeriod w));
     heartbeat_ticks sv w token jobID n
   }"

definition releaseLock :: "('s, 't) services \<Rightarrow> Worker \<Rightarrow> string \<Rightarrow> string \<Rightarrow> ('s, unit) act" where
  "releaseLock sv w token jobID = do {
     r \<leftarrow> Run sv Background ReleaseLock [jobLock (w_keys w) jobID] [GStr token, GInt64 (lockMs w)];
     ret ()
   }"

definition countProcessed :: "Worker \<Rightarrow> string \<Rightarrow> string \<Rightarrow> event" where
  "countProcessed w jobName status = CounterAdd MetricJobsProcessedTotal 1
     [(AttrQueue, w_queueName w), (AttrJobName, jobName), (AttrProcessStatus, status)]"

definition observeWait :: "('s, 't) services \<Rightarrow> Worker \<Rightarrow> hash \<Rightarrow> ('s, unit) act" where
  "observeWait sv w jobMap =
     (let (tsMs, perr) = ParseInt (hlookup jobMap ''timestamp'')
      in if \<not> perr \<and> tsMs > 0 then do {
           now \<leftarrow> nowMilli sv;
           if wrap64 (now - tsMs) \<ge> 0 then emit (HistogramObserve MetricDispatchWaitSeconds [(AttrQueue, w_queueName w)])
           else ret ()
         }
         else ret ())"

text \<open>What follows \<open>finalise\<close> in \<open>processJob\<close>: the clean-up of a failed call, and the metrics.\<close>

definition finaliseFailed ::
  "('s, 't) services \<Rightarrow> Worker \<Rightarrow> string \<Rightarrow> string \<Rightarrow> handlerOutcome \<Rightarrow> goerr option \<Rightarrow> ('s, unit) act" where
  "finaliseFailed sv w token jobID outcome err = (case err of None \<Rightarrow> ret () | Some err \<Rightarrow> do {
     releaseLock sv w token jobID;
     emit (Log LWarn ''mkq: finalise failed''
       [(AttrQueue, w_queueName w), (AttrJobID, jobID), (AttrError, err_text err)]);
     (if \<not> ho_success outcome \<and> ho_errReason outcome \<noteq> []
      then emit (SpanSetAttrs [(''mkq.handler.error'', ho_errReason outcome)]) else ret ());
     emit (SpanSetError err)
   })"

definition countStatus :: "Worker \<Rightarrow> string \<Rightarrow> handlerOutcome \<Rightarrow> finaliseStatus \<Rightarrow> ('s, unit) act" where
  "countStatus w jobName outcome status = (case status of
       finaliseStatusCompleted \<Rightarrow> emit (countProcessed w jobName ''completed'')
     | finaliseStatusFailed \<Rightarrow> do {
         emit (countProcessed w jobName ''failed'');
         emit (SpanSetError (ho_err outcome))
       }
     | _ \<Rightarrow> ret ())"

text \<open>
  \<open>processJob\<close> in three parts: before the heartbeat is started, while it runs beside the handler,
  and after both are over.
\<close>

definition beginJob :: "('s, 't) services \<Rightarrow> Worker \<Rightarrow> string \<Rightarrow> hash \<Rightarrow> ('s, unit) act" where
  "beginJob sv w jobID jobMap = do {
     observeWait sv w jobMap;
     emit (SpanStart SpanWorkerProcess
       [(AttrQueue, w_queueName w), (AttrJobID, jobID), (AttrJobName, hlookup jobMap ''name''),
        (AttrJobAttempts, hlookup jobMap ''atm'')])
   }"

definition observeHandler :: "Worker \<Rightarrow> hash \<Rightarrow> event" where
  "observeHandler w jobMap = HistogramObserve MetricHandlerDurationSeconds
     [(AttrQueue, w_queueName w), (AttrJobName, hlookup jobMap ''name'')]"

definition finishJob ::
  "('s, 't) services \<Rightarrow> Worker \<Rightarrow> string \<Rightarrow> string \<Rightarrow> hash \<Rightarrow> handlerOutcome \<Rightarrow> ('s, prefetchedJob option) act" where
  "finishJob sv w token jobID jobMap outcome = do {
     (prefetched, status, err) \<leftarrow> finalise sv w jobID token jobMap outcome;
     finaliseFailed sv w token jobID outcome err;
     countStatus w (hlookup jobMap ''name'') outcome status;
     (let rjk = hlookup jobMap ''rjk'' in if rjk \<noteq> [] then rescheduleNext sv [] w rjk jobID else ret ());
     emit SpanEnd;
     ret prefetched
   }"

definition processJob :: "('s, 't) services \<Rightarrow> Worker \<Rightarrow> string \<Rightarrow> string \<Rightarrow> hash \<Rightarrow> ('s, prefetchedJob option) act" where
  "processJob sv w token jobID jobMap = do {
     beginJob sv w jobID jobMap;
     cancelled \<leftarrow> heartbeat sv w token jobID;
     outcome \<leftarrow> runHandler sv cancelled jobID jobMap;
     emit (observeHandler w jobMap);
     finishJob sv w token jobID jobMap outcome
   }"

definition runDefa :: "('s, 't) services \<Rightarrow> Worker \<Rightarrow> string \<Rightarrow> string \<Rightarrow> hash \<Rightarrow> string \<Rightarrow> ('s, prefetchedJob option) act" where
  "runDefa sv w token jobID jobMap defa = do {
     r \<leftarrow> finishFailed sv w jobID token (parseJobOpts (hlookup jobMap ''opts'')) defa (buildFailureHistory jobMap defa);
     (case r of
        Inl _ \<Rightarrow> do { releaseLock sv w token jobID; ret None }
      | Inr prefetched \<Rightarrow> do { emit (countProcessed w (hlookup jobMap ''name'') ''failed''); ret prefetched })
   }"

definition runJob :: "('s, 't) services \<Rightarrow> Worker \<Rightarrow> string \<Rightarrow> string \<Rightarrow> hash \<Rightarrow> ('s, prefetchedJob option) act" where
  "runJob sv w token jobID jobMap = do {
     emit (GaugeAdd MetricJobsInFlight 1 [(AttrQueue, w_queueName w)]);
     let defa = hlookup jobMap ''defa'';
     prefetched \<leftarrow> (if defa \<noteq> [] then runDefa sv w token jobID jobMap defa
       else processJob sv w token jobID jobMap);
     emit (GaugeAdd MetricJobsInFlight (- 1) [(AttrQueue, w_queueName w)]);
     ret prefetched
   }"

section \<open>One dequeue attempt\<close>

text \<open>The five results of \<open>tryOnce\<close>: an error, a processed job, or no job with two hints.\<close>

datatype attempt = Processed "prefetchedJob option" | Idle int int

definition activeOpts :: "Worker \<Rightarrow> string \<Rightarrow> MoveToActiveOpts" where
  "activeOpts w token = \<lparr>ma_Token = token, ma_LockDuration = lockMs w, ma_Name = wc_workerName (w_cfg w),
     ma_Limiter = limiterOpt w\<rparr>"

definition tryOnce :: "('s, 't) services \<Rightarrow> Worker \<Rightarrow> ('s, goerr + attempt) act" where
  "tryOnce sv w = do {
     token \<leftarrow> ask (sv_uuid sv);
     now \<leftarrow> nowMilli sv;
     (case EncodeMoveToActiveOpts (sv_marshal sv) (activeOpts w token) of
        Inl err \<Rightarrow> ret (Inl (errorf ''encode moveToActive opts: '' err))
      | Inr optsBytes \<Rightarrow> do {
          r \<leftarrow> Run sv RunCtx MoveToActive (moveToActiveKeys (w_keys w))
            [GStr (k_prefix (w_keys w)), GInt64 now, GBytes optsBytes];
          (case r of
             Inl err \<Rightarrow>
               if errors_Is err Canceled then ret (Inr (Idle 0 0))
               else ret (Inl (errorf ''moveToActive: '' err))
           | Inr res \<Rightarrow> (case parseMoveToActiveResult res of
               Inl err \<Rightarrow> ret (Inl (errorf ''parse moveToActive: '' err))
             | Inr reply \<Rightarrow> (case reply of
                 NoJob expireTimeMs nextDelayedTs \<Rightarrow> ret (Inr (Idle expireTimeMs nextDelayedTs))
               | GotJob jobMap jobID \<Rightarrow> do {
                   prefetched \<leftarrow> runJob sv w token jobID jobMap;
                   ret (Inr (Processed prefetched))
                 })))
        })
   }"

section \<open>Waiting\<close>

definition maxIdleWait :: duration where
  "maxIdleWait = 30 * Second"

definition markerWaitFloor :: duration where
  "markerWaitFloor = Second"

definition nextIdleWait :: "duration \<Rightarrow> duration \<Rightarrow> duration" where
  "nextIdleWait cur base =
     (if base \<ge> maxIdleWait then base
      else let nxt = wrap64 (cur * 2) in if nxt > maxIdleWait then maxIdleWait else nxt)"

definition running :: "('s, 't) services \<Rightarrow> ('s, bool) act" where
  "running sv = do { stopped \<leftarrow> ask (sv_runDone sv); ret (\<not> stopped) }"

definition sleep :: "('s, 't) services \<Rightarrow> duration \<Rightarrow> ('s, bool) act" where
  "sleep sv d = (if d \<le> 0 then running sv else do { emit (Sleep d); ask (sv_timer sv d) })"

definition awaitMarker :: "('s, 't) services \<Rightarrow> Worker \<Rightarrow> duration \<Rightarrow> ('s, bool) act" where
  "awaitMarker sv w timeout =
     (if timeout \<le> 0 then running sv
      else do {
        let timeout = (if timeout < Second then Second else timeout);
        r \<leftarrow> redis sv (BZPopMin RunCtx timeout [k_marker (w_keys w), w_wakeKey w]);
        running sv
      })"

definition releasePrefetchedLock :: "('s, 't) services \<Rightarrow> Worker \<Rightarrow> prefetchedJob option \<Rightarrow> ('s, unit) act" where
  "releasePrefetchedLock sv w pj = (case pj of None \<Rightarrow> ret () | Some pj \<Rightarrow> do {
     emit (Log LDebug ''mkq: releasing prefetched lock at shutdown''
       [(AttrQueue, w_queueName w), (AttrJobID, pj_jobID pj)]);
     releaseLock sv w (pj_token pj) (pj_jobID pj)
   })"

text \<open>\<open>time.Until\<close> saturates at the bounds of a duration.\<close>

definition until :: "gotime \<Rightarrow> gotime \<Rightarrow> duration" where
  "until now t = max MinInt64 (min MaxInt64 (t - now))"

section \<open>The dispatcher's loop\<close>

text \<open>
  The loop's variables are the prefetched job and the idle wait.  A round either goes on with new
  values (\<open>Inl\<close>) or returns (\<open>Inr\<close>) holding a prefetched job or none.
\<close>

type_synonym dispatchState = "prefetchedJob option \<times> duration"

definition goOn :: "dispatchState \<Rightarrow> bool \<Rightarrow> dispatchState + prefetchedJob option" where
  "goOn l ok = (if ok then Inl l else Inr (fst l))"

definition idleRound ::
  "('s, 't) services \<Rightarrow> Worker \<Rightarrow> duration \<Rightarrow> int \<Rightarrow> int \<Rightarrow> ('s, dispatchState + prefetchedJob option) act" where
  "idleRound sv w idleWait expireTimeMs nextDelayedTs =
     (if expireTimeMs > 0 then do {
        ok \<leftarrow> sleep sv (wrap64 (expireTimeMs * Millisecond));
        ret (goOn (None, idleWait) ok)
      }
      else if nextDelayedTs > 0 then do {
        now \<leftarrow> ask (sv_now sv);
        let delay = until now (fromUnixMilli nextDelayedTs);
        if delay \<le> 0 then ret (Inl (None, idleWait))
        else if delay < markerWaitFloor then do {
          ok \<leftarrow> sleep sv delay;
          ret (goOn (None, idleWait) ok)
        }
        else do {
          ok \<leftarrow> awaitMarker sv w (if delay > maxIdleWait then maxIdleWait else delay);
          ret (goOn (None, idleWait) ok)
        }
      }
      else do {
        ok \<leftarrow> awaitMarker sv w idleWait;
        ret (goOn (None, nextIdleWait idleWait (wc_idlePollInterval (w_cfg w))) ok)
      })"

definition dispatchBody ::
  "('s, 't) services \<Rightarrow> Worker \<Rightarrow> dispatchState \<Rightarrow> ('s, dispatchState + prefetchedJob option) act" where
  "dispatchBody sv w l = (case l of (prefetched, idleWait) \<Rightarrow> do {
     stopped \<leftarrow> ask (sv_runDone sv);
     leave \<leftarrow> (if stopped then (if prefetched = None then ret True else ask (sv_jobsDone sv)) else ret False);
     if leave then ret (Inr prefetched)
     else (case prefetched of
         Some pj \<Rightarrow> do {
           prefetched' \<leftarrow> runJob sv w (pj_token pj) (pj_jobID pj) (pj_jobMap pj);
           ret (Inl (prefetched', idleWait))
         }
       | None \<Rightarrow> do {
           r \<leftarrow> tryOnce sv w;
           (case r of
              Inl err \<Rightarrow> do {
                emit (Log LWarn ''mkq: dispatch attempt failed''
                  [(AttrQueue, w_queueName w), (AttrError, err_text err)]);
                ok \<leftarrow> sleep sv (wc_idlePollInterval (w_cfg w));
                ret (goOn (None, idleWait) ok)
              }
            | Inr att \<Rightarrow> (case att of
                Processed gotPrefetched \<Rightarrow> ret (Inl (gotPrefetched, wc_idlePollInterval (w_cfg w)))
              | Idle expireTimeMs nextDelayedTs \<Rightarrow> idleRound sv w idleWait expireTimeMs nextDelayedTs))
         })
   })"

definition dispatchLoop :: "('s, 't) services \<Rightarrow> Worker \<Rightarrow> nat \<Rightarrow> ('s, unit option) act" where
  "dispatchLoop sv w fuel = do {
     r \<leftarrow> loop fuel (dispatchBody sv w) (None, wc_idlePollInterval (w_cfg w));
     (case r of
        None \<Rightarrow> ret None
      | Some prefetched \<Rightarrow> do { releasePrefetchedLock sv w prefetched; ret (Some ()) })
   }"

section \<open>The stalled-jobs loop\<close>

definition stalledCheckTTL :: "duration \<Rightarrow> int" where
  "stalledCheckTTL interval =
     (let ttl = Milliseconds (interval - interval sdiv 10) in if ttl < 1 then 1 else ttl)"

definition runStalledCheck :: "('s, 't) services \<Rightarrow> Worker \<Rightarrow> ('s, goerr option) act" where
  "runStalledCheck sv w = do {
     now \<leftarrow> nowMilli sv;
     r \<leftarrow> Run sv RunCtx MoveStalledJobsToWait (moveStalledKeys (w_keys w))
       [GInt (wc_maxStalledCount (w_cfg w)), GStr (k_prefix (w_keys w)), GInt64 now,
        GInt64 (stalledCheckTTL (wc_stalledInterval (w_cfg w)))];
     ret (case r of
         Inl err \<Rightarrow> if errors_Is err Canceled then None else Some (errorf ''moveStalledJobsToWait: '' err)
       | Inr _ \<Rightarrow> None)
   }"

text \<open>The loop's variable is what the timer is set to.\<close>

definition stalledBody :: "('s, 't) services \<Rightarrow> Worker \<Rightarrow> duration \<Rightarrow> ('s, duration + unit) act" where
  "stalledBody sv w d = do {
     fired \<leftarrow> ask (sv_timer sv d);
     if \<not> fired then ret (Inr ())
     else do {
       err \<leftarrow> runStalledCheck sv w;
       (case err of None \<Rightarrow> ret () | Some err \<Rightarrow>
          emit (Log LWarn ''mkq: stalled-jobs scan failed''
            [(AttrQueue, w_queueName w), (AttrError, err_text err)]));
       ret (Inl (wc_stalledInterval (w_cfg w)))
     }
   }"

definition stalledLoop :: "('s, 't) services \<Rightarrow> Worker \<Rightarrow> nat \<Rightarrow> ('s, unit option) act" where
  "stalledLoop sv w fuel = loop fuel (stalledBody sv w) 0"

section \<open>Waking the dispatchers\<close>

definition wakeMembers :: "Worker \<Rightarrow> (string \<times> int) list" where
  "wakeMembers w =
     (let n = (if wc_concurrency (w_cfg w) < 1 then 1 else wc_concurrency (w_cfg w))
      in map (\<lambda>i. (''stop:'' @ fmt_nat i, 0)) [0..<nat n])"

definition wakeDispatchers :: "('s, 't) services \<Rightarrow> Worker \<Rightarrow> ('s, unit) act" where
  "wakeDispatchers sv w =
     (if w_wakeKey w = [] then ret ()
      else do { r \<leftarrow> redis sv (ZAdd (Timeout Second) (w_wakeKey w) (wakeMembers w)); ret () })"

definition dropWakeKey :: "('s, 't) services \<Rightarrow> Worker \<Rightarrow> ('s, unit) act" where
  "dropWakeKey sv w =
     (if w_wakeKey w = [] then ret ()
      else do { r \<leftarrow> redis sv (DelCmd (Timeout Second) [w_wakeKey w]); ret () })"

section \<open>Lemmas: what a job leaves in the trace\<close>

definition extendCall :: "Worker \<Rightarrow> string \<Rightarrow> string \<Rightarrow> event" where
  "extendCall w token jobID = ScriptCall Background ExtendLock
     [jobLock (w_keys w) jobID, k_stalled (w_keys w)] [GStr token, GInt64 (lockMs w), GStr jobID]"

definition releaseCall :: "Worker \<Rightarrow> string \<Rightarrow> string \<Rightarrow> event" where
  "releaseCall w token jobID = ScriptCall Background ReleaseLock [jobLock (w_keys w) jobID]
     [GStr token, GInt64 (lockMs w)]"

lemma does_releaseLock:
  "(\<And>es. obs es = [releaseCall w token jobID] \<Longrightarrow> acquired es = [] \<Longrightarrow> Q () es) \<Longrightarrow> does (releaseLock sv w token jobID) Q"
  unfolding releaseLock_def by (intro does_rules does_script) (simp add: releaseCall_def)

lemma does_extendLock:
  "(\<And>b es. obs es = [extendCall w token jobID] \<Longrightarrow> acquired es = [] \<Longrightarrow> Q b es) \<Longrightarrow> does (extendLock sv w token jobID) Q"
  unfolding extendLock_def by (intro does_rules does_script) (simp add: extendCall_def)

lemma does_heartbeat_ticks:
  "(\<And>c m es. obs es = replicate m (extendCall w token jobID) \<Longrightarrow> acquired es = [] \<Longrightarrow> m \<le> n \<Longrightarrow> Q c es) \<Longrightarrow>
   does (heartbeat_ticks sv w token jobID n) Q"
proof (induction n arbitrary: Q)
  case 0
  then show ?case using "0" [of _ 0] by (auto intro!: does_rules)
next
  case (Suc n)
  have one: "obs es = replicate (Suc 0) (extendCall w token jobID) \<Longrightarrow> acquired es = [] \<Longrightarrow> Q c es" for c es
    by (rule Suc.prems [of _ "Suc 0"]) simp_all
  have more: "obs es = [extendCall w token jobID] \<Longrightarrow> acquired es = [] \<Longrightarrow>
      obs es' = replicate m (extendCall w token jobID) \<Longrightarrow> acquired es' = [] \<Longrightarrow> m \<le> n \<Longrightarrow>
      Q c (es @ es')" for c es es' m
    by (rule Suc.prems [of _ "Suc m"]) simp_all
  show ?case
    by (auto intro!: does_rules does_extendLock Suc.IH intro: one more)
qed

lemma does_heartbeat:
  "(\<And>c m es. obs es = replicate m (extendCall w token jobID) \<Longrightarrow> acquired es = [] \<Longrightarrow> Q c es) \<Longrightarrow> does (heartbeat sv w token jobID) Q"
  unfolding heartbeat_def by (intro does_rules does_heartbeat_ticks) auto

text \<open>Whether the handler is reached: the payload decodes.\<close>

definition decodes :: "('s, 't) services \<Rightarrow> string \<Rightarrow> hash \<Rightarrow> bool" where
  "decodes sv jobID jobMap = (case buildJob (sv_zero sv) (sv_unmarshal sv) jobID jobMap of Inl _ \<Rightarrow> False | Inr _ \<Rightarrow> True)"

lemma does_runHandler:
  assumes "\<And>out. Q out (if decodes sv jobID jobMap then [HandlerCall jobID] else [])"
  shows "does (runHandler sv cancelled jobID jobMap) Q"
  using assms unfolding runHandler_def invokeHandler_def newHandlerShim_def handlerResult_def decodes_def
  by (auto intro!: does_rules split: sum.splits)

lemma does_observeWait:
  assumes "\<And>es. obs es = [] \<or> obs es = [HistogramObserve MetricDispatchWaitSeconds [(AttrQueue, w_queueName w)]] \<Longrightarrow>
      acquired es = [] \<Longrightarrow> Q () es"
  shows "does (observeWait sv w jobMap) Q"
  unfolding observeWait_def by (auto intro!: does_rules assms split: prod.split)

lemma does_rescheduleNext:
  assumes "\<And>es. obs es = [] \<or> (\<exists>as. obs es = [ScriptCall (Timeout (2 * Second)) UpdateJobScheduler
      (rescheduleKeys (w_keys w)) as]) \<Longrightarrow> acquired es = [] \<Longrightarrow> Q () es"
  shows "does (rescheduleNext sv cache w rjk jobID) Q"
proof -
  have with_vals: "does (rescheduleWith sv cache w rjk jobID vals) (\<lambda>u es. acquired es = [] \<and> (obs es = [] \<or>
      (\<exists>as. obs es = [ScriptCall (Timeout (2 * Second)) UpdateJobScheduler (rescheduleKeys (w_keys w)) as])))" for vals
    unfolding rescheduleWith_def sendIteration_def by (intro does_rules does_script) (auto split: if_splits)
  show ?thesis
    unfolding rescheduleNext_def
    by (intro does_rules, auto split: sum.splits gval.splits
        intro!: does_rules does_weaken [OF with_vals] assms)
qed

lemma does_finaliseFailed:
  assumes "\<And>es. err = None \<and> obs es = [] \<or>
      (\<exists>sp. err \<noteq> None \<and> obs es = releaseCall w token jobID # sp \<and> set sp \<subseteq> range SpanSetAttrs \<union> range SpanSetError) \<Longrightarrow>
      acquired es = [] \<Longrightarrow> Q () es"
  shows "does (finaliseFailed sv w token jobID outcome err) Q"
  unfolding finaliseFailed_def
  by (cases err) (auto intro!: does_rules does_releaseLock assms)

text \<open>The counter events and the span events of a status.\<close>

definition statusEvents :: "Worker \<Rightarrow> string \<Rightarrow> handlerOutcome \<Rightarrow> finaliseStatus \<Rightarrow> event list" where
  "statusEvents w jobName outcome status = (case status of
       finaliseStatusCompleted \<Rightarrow> [countProcessed w jobName ''completed'']
     | finaliseStatusFailed \<Rightarrow> [countProcessed w jobName ''failed'', SpanSetError (ho_err outcome)]
     | _ \<Rightarrow> [])"

lemma does_countStatus:
  "Q () (statusEvents w jobName outcome status) \<Longrightarrow> does (countStatus w jobName outcome status) Q"
  unfolding countStatus_def statusEvents_def by (cases status) (auto intro!: does_rules)

lemma does_reschedStep:
  assumes "\<And>es. obs es = [] \<or> hlookup jobMap ''rjk'' \<noteq> [] \<and>
      (\<exists>as. obs es = [ScriptCall (Timeout (2 * Second)) UpdateJobScheduler (rescheduleKeys (w_keys w)) as]) \<Longrightarrow>
      acquired es = [] \<Longrightarrow> Q () es"
  shows "does (if hlookup jobMap ''rjk'' \<noteq> [] then rescheduleNext sv [] w (hlookup jobMap ''rjk'') jobID else ret ()) Q"
  using assms by (auto intro!: does_rules does_rescheduleNext)

section \<open>Lemmas: settling a job\<close>

text \<open>Projections of a trace: the in-flight gauge, the handler runs, the processed counter.\<close>

fun inFlight :: "event list \<Rightarrow> real" where
  "inFlight [] = 0"
| "inFlight (GaugeAdd n d as # es) = (if n = MetricJobsInFlight then d else 0) + inFlight es"
| "inFlight (e # es) = inFlight es"

fun handled :: "event list \<Rightarrow> string list" where
  "handled [] = []"
| "handled (HandlerCall jobID # es) = jobID # handled es"
| "handled (e # es) = handled es"

fun counted :: "event list \<Rightarrow> event list" where
  "counted [] = []"
| "counted (CounterAdd n d as # es) = CounterAdd n d as # counted es"
| "counted (e # es) = counted es"

lemma inFlight_append [simp]: "inFlight (es @ es') = inFlight es + inFlight es'"
  by (induction es rule: inFlight.induct) simp_all

lemma handled_append [simp]: "handled (es @ es') = handled es @ handled es'"
  by (induction es rule: handled.induct) simp_all

lemma counted_append [simp]: "counted (es @ es') = counted es @ counted es'"
  by (induction es rule: counted.induct) simp_all

lemma proj_obs [simp]: "inFlight (obs es) = inFlight es" "handled (obs es) = handled es" "counted (obs es) = counted es"
  by (induction es rule: obs.induct) simp_all

lemma proj_span [simp]:
  assumes "set sp \<subseteq> range SpanSetAttrs \<union> range SpanSetError"
  shows "inFlight sp = 0" "handled sp = []" "counted sp = []" "calls sp = []"
  using assms by (induction sp) auto

lemma proj_replicate [simp]:
  "inFlight (replicate n (extendCall w t j)) = 0" "handled (replicate n (extendCall w t j)) = []"
  "counted (replicate n (extendCall w t j)) = []"
  "calls (replicate n (extendCall w t j)) = replicate n (extendCall w t j)"
  by (induction n) (simp_all add: extendCall_def)

lemma terminalCall_call:
  "\<exists>name keys args. terminalCall sv w jobID token jobMap out v now flag = ScriptCall Background name keys args"
  by (cases v) (auto simp: terminalCall_def finishedCall_def Let_def)

lemma proj_terminal [simp]:
  fixes sv w jobID token jobMap out v now flag
  defines "t \<equiv> terminalCall sv w jobID token jobMap out v now flag"
  shows "inFlight (t # es) = inFlight es" "handled (t # es) = handled es"
    "counted (t # es) = counted es" "calls (t # es) = t # calls es"
  using terminalCall_call [of sv w jobID token jobMap out v now flag] by (auto simp: t_def)

lemma proj_release [simp]:
  "inFlight (releaseCall w t j # es) = inFlight es" "handled (releaseCall w t j # es) = handled es"
  "counted (releaseCall w t j # es) = counted es" "calls (releaseCall w t j # es) = releaseCall w t j # calls es"
  by (simp_all add: releaseCall_def)

lemma proj_status [simp]:
  "inFlight (statusEvents w nm out st) = 0" "handled (statusEvents w nm out st) = []"
  "calls (statusEvents w nm out st) = []"
  "counted (statusEvents w nm out st) = (case st of
      finaliseStatusCompleted \<Rightarrow> [countProcessed w nm ''completed'']
    | finaliseStatusFailed \<Rightarrow> [countProcessed w nm ''failed''] | _ \<Rightarrow> [])"
  by (simp_all add: statusEvents_def countProcessed_def split: finaliseStatus.split)

text \<open>
  What running an acquired job amounts to: lock extensions, one terminal call for the verdict, the
  lock's release when that call failed, at most one rescheduling call for a scheduled job; the
  handler runs at most once and not at all when the job carries a default failure; the gauge is
  back where it was; a job is counted exactly when its terminal call was accepted as completed or
  failed.
\<close>

definition settles ::
  "('s, 't) services \<Rightarrow> Worker \<Rightarrow> string \<Rightarrow> string \<Rightarrow> hash \<Rightarrow> prefetchedJob option \<Rightarrow> event list \<Rightarrow> bool" where
  "settles sv w token jobID jobMap pf es \<longleftrightarrow>
     (\<exists>n out v now flag failed resched.
        calls es = replicate n (extendCall w token jobID) @ [terminalCall sv w jobID token jobMap out v now flag] @
          (if failed then [releaseCall w token jobID] else []) @ resched \<and>
        flag \<in> flags sv \<and>
        (resched = [] \<or> hlookup jobMap ''rjk'' \<noteq> [] \<and> (\<exists>as. resched =
           [ScriptCall (Timeout (2 * Second)) UpdateJobScheduler (rescheduleKeys (w_keys w)) as])) \<and>
        (if hlookup jobMap ''defa'' \<noteq> [] then
           n = 0 \<and> v = VFail \<and> ho_errReason out = hlookup jobMap ''defa'' \<and> handled es = []
         else (\<exists>atm r. v = policy (w_cfg w) jobID jobMap out atm r) \<and>
           handled es = (if decodes sv jobID jobMap then [jobID] else [])) \<and>
        counted es = (if failed then [] else case v of
             VComplete \<Rightarrow> [countProcessed w (hlookup jobMap ''name'') ''completed'']
           | VFail \<Rightarrow> [countProcessed w (hlookup jobMap ''name'') ''failed'']
           | _ \<Rightarrow> []) \<and>
        inFlight es = 0 \<and> acquired es = held pf \<and>
        (case pf of None \<Rightarrow> True | Some pj \<Rightarrow>
           \<not> failed \<and> v \<in> {VComplete, VFail} \<and> pj_token pj = token \<and> pj_jobID pj \<noteq> [] \<and>
           (\<exists>arr. answers sv (terminalCall sv w jobID token jobMap out v now flag) (GArr arr))))"

lemma settlesE:
  assumes "settles sv w token jobID jobMap pf es"
  obtains n out v now flag failed resched where
    "calls es = replicate n (extendCall w token jobID) @ [terminalCall sv w jobID token jobMap out v now flag] @
       (if failed then [releaseCall w token jobID] else []) @ resched"
    "flag \<in> flags sv"
    "resched = [] \<or> hlookup jobMap ''rjk'' \<noteq> [] \<and> (\<exists>as. resched =
       [ScriptCall (Timeout (2 * Second)) UpdateJobScheduler (rescheduleKeys (w_keys w)) as])"
    "case pf of None \<Rightarrow> True | Some pj \<Rightarrow>
       \<not> failed \<and> v \<in> {VComplete, VFail} \<and> pj_token pj = token \<and> pj_jobID pj \<noteq> [] \<and>
       (\<exists>arr. answers sv (terminalCall sv w jobID token jobMap out v now flag) (GArr arr))"
  using assms unfolding settles_def by (elim exE conjE) (rule that; assumption)

lemma proj_of_obs:
  "obs es = X \<Longrightarrow> calls es = calls X \<and> handled es = handled X \<and> counted es = counted X \<and> inFlight es = inFlight X"
  by (metis calls_obs proj_obs)

lemma proj_count [simp]:
  "inFlight (countProcessed w nm s # es) = inFlight es" "handled (countProcessed w nm s # es) = handled es"
  "counted (countProcessed w nm s # es) = countProcessed w nm s # counted es" "calls (countProcessed w nm s # es) = calls es"
  by (simp_all add: countProcessed_def MetricJobsInFlight_def)

definition defaEvents ::
  "('s, 't) services \<Rightarrow> Worker \<Rightarrow> string \<Rightarrow> string \<Rightarrow> hash \<Rightarrow> handlerOutcome \<Rightarrow> prefetchedJob option \<Rightarrow> event list \<Rightarrow> bool" where
  "defaEvents sv w token jobID jobMap out pf es \<longleftrightarrow> acquired es = held pf \<and> (\<exists>now flag failed.
     obs es = [terminalCall sv w jobID token jobMap out VFail now flag] @
       (if failed then [releaseCall w token jobID] else [countProcessed w (hlookup jobMap ''name'') ''failed'']) \<and>
     flag \<in> flags sv \<and>
     (case pf of None \<Rightarrow> True | Some pj \<Rightarrow> \<not> failed \<and> pj_token pj = token \<and> pj_jobID pj \<noteq> [] \<and>
       (\<exists>arr. answers sv (terminalCall sv w jobID token jobMap out VFail now flag) (GArr arr))))"

lemma defaEventsI:
  assumes "finalised sv w jobID token jobMap out VFail (finish_result finaliseStatusFailed r) es"
    "obs es' = (if isl r then [releaseCall w token jobID] else [countProcessed w (hlookup jobMap ''name'') ''failed''])"
    "pf = (case r of Inl _ \<Rightarrow> None | Inr p \<Rightarrow> p)" "acquired es' = []"
  shows "defaEvents sv w token jobID jobMap out pf (es @ es')"
proof -
  obtain now flag where "flag \<in> flags sv" "obs es = [terminalCall sv w jobID token jobMap out VFail now flag]"
      "\<not> isl r \<and> projr r \<noteq> None \<longrightarrow> (\<exists>arr. answers sv (terminalCall sv w jobID token jobMap out VFail now flag) (GArr arr))"
    using assms(1) by (rule finalisedE) (cases r, auto simp: finish_result_def intro: that)
  then show ?thesis
    unfolding defaEvents_def using assms
    by (cases r; intro conjI exI [of _ now] exI [of _ flag] exI [of _ "isl r"];
        auto simp: finalised_def finish_result_def split: option.splits)
qed

lemma runDefa_events:
  assumes m: "marshal_total sv"
  shows "does (runDefa sv w token jobID jobMap defa)
     (defaEvents sv w token jobID jobMap (failedOutcome (PlainErr []) defa))"
proof -
  let ?out = "failedOutcome (PlainErr []) defa"
  have d: "ho_errReason ?out = defa" by (simp add: failedOutcome_def)
  show ?thesis
    unfolding runDefa_def
    by (rule does_bindI, rule does_weaken [OF does_finishFailed [OF m, where out = ?out, unfolded d]],
        intro does_rules does_releaseLock)
      (auto intro!: defaEventsI simp: countProcessed_def)
qed

text \<open>
  The three parts of \<open>processJob\<close>: one that leaves nothing but a wait observation and a span; one
  of lock extensions around the runs of the handler; one that settles the job.
\<close>

definition silent :: "event list \<Rightarrow> bool" where
  "silent es \<longleftrightarrow> calls es = [] \<and> handled es = [] \<and> counted es = [] \<and> inFlight es = 0 \<and> acquired es = []"

definition besideEvents :: "Worker \<Rightarrow> string \<Rightarrow> string \<Rightarrow> string list \<Rightarrow> event list \<Rightarrow> bool" where
  "besideEvents w token jobID hs es \<longleftrightarrow>
     (\<exists>n. calls es = replicate n (extendCall w token jobID)) \<and> handled es = hs \<and> counted es = [] \<and> inFlight es = 0 \<and> acquired es = []"

definition finishEvents ::
  "('s, 't) services \<Rightarrow> Worker \<Rightarrow> string \<Rightarrow> string \<Rightarrow> hash \<Rightarrow> handlerOutcome \<Rightarrow> prefetchedJob option \<Rightarrow> event list \<Rightarrow> bool" where
  "finishEvents sv w token jobID jobMap out pf es \<longleftrightarrow>
     (\<exists>atm r now flag failed resched. let v = policy (w_cfg w) jobID jobMap out atm r in
        calls es = [terminalCall sv w jobID token jobMap out v now flag] @
          (if failed then [releaseCall w token jobID] else []) @ resched \<and>
        flag \<in> flags sv \<and>
        (resched = [] \<or> hlookup jobMap ''rjk'' \<noteq> [] \<and> (\<exists>as. resched =
           [ScriptCall (Timeout (2 * Second)) UpdateJobScheduler (rescheduleKeys (w_keys w)) as])) \<and>
        handled es = [] \<and>
        counted es = (if failed then [] else case v of
             VComplete \<Rightarrow> [countProcessed w (hlookup jobMap ''name'') ''completed'']
           | VFail \<Rightarrow> [countProcessed w (hlookup jobMap ''name'') ''failed'']
           | _ \<Rightarrow> []) \<and>
        inFlight es = 0 \<and> acquired es = held pf \<and>
        (case pf of None \<Rightarrow> True | Some pj \<Rightarrow>
           \<not> failed \<and> v \<in> {VComplete, VFail} \<and> pj_token pj = token \<and> pj_jobID pj \<noteq> [] \<and>
           (\<exists>arr. answers sv (terminalCall sv w jobID token jobMap out v now flag) (GArr arr))))"

lemma does_beginJob:
  assumes "\<And>es. silent es \<Longrightarrow> Q () es"
  shows "does (beginJob sv w jobID jobMap) Q"
  unfolding beginJob_def by (intro does_rules does_observeWait assms) (auto simp: silent_def dest: proj_of_obs)

lemma finishEventsI:
  assumes fin: "carries_out sv w jobID token jobMap out (pf, st, err) efin"
    and cl: "err = None \<and> obs ecl = [] \<or> (\<exists>sp. err \<noteq> None \<and> obs ecl = releaseCall w token jobID # sp \<and>
        set sp \<subseteq> range SpanSetAttrs \<union> range SpanSetError)"
    and rs: "obs ers = [] \<or> hlookup jobMap ''rjk'' \<noteq> [] \<and>
      (\<exists>as. obs ers = [ScriptCall (Timeout (2 * Second)) UpdateJobScheduler (rescheduleKeys (w_keys w)) as])"
    and acq: "acquired ecl = []" "acquired ers = []"
  shows "finishEvents sv w token jobID jobMap out pf
     (efin @ ecl @ statusEvents w (hlookup jobMap ''name'') out st @ ers @ [SpanEnd])"
proof -
  obtain atm r where f: "finalised sv w jobID token jobMap out (policy (w_cfg w) jobID jobMap out atm r) (pf, st, err) efin"
    using fin by (auto simp: carries_out_def)
  let ?v = "policy (w_cfg w) jobID jobMap out atm r"
  from f obtain now flag where c: "flag \<in> flags sv" "obs efin = [terminalCall sv w jobID token jobMap out ?v now flag]"
    "pf \<noteq> None \<longrightarrow> (\<exists>arr. answers sv (terminalCall sv w jobID token jobMap out ?v now flag) (GArr arr))"
    by (rule finalisedE) (auto intro: that)
  have f': "acquired efin = held pf" "if err = None then st = verdict_status ?v else st = finaliseStatusError \<and> pf = None"
      "\<And>pj. pf = Some pj \<Longrightarrow> ?v \<in> {VComplete, VFail} \<and> pj_token pj = token \<and> pj_jobID pj \<noteq> []"
    using f by (auto simp: finalised_def split: option.splits)
  have pcl: "calls ecl = (if err \<noteq> None then [releaseCall w token jobID] else []) \<and> handled ecl = [] \<and>
      counted ecl = [] \<and> inFlight ecl = 0"
    using cl by (auto dest: proj_of_obs)
  have prs: "calls (obs ers) = obs ers \<and> handled ers = [] \<and> counted ers = [] \<and> inFlight ers = 0"
    using rs by (auto simp del: calls_obs dest: proj_of_obs)
  have st: "acquired (statusEvents w nm out st) = []" for nm
    by (simp add: statusEvents_def countProcessed_def split: finaliseStatus.split)
  show ?thesis
    unfolding finishEvents_def Let_def
    apply (rule exI [of _ atm], rule exI [of _ r], rule exI [of _ now], rule exI [of _ flag],
      rule exI [of _ "err \<noteq> None"], rule exI [of _ "obs ers"])
    using c(1,3) f' rs acq pcl prs [unfolded calls_obs] proj_of_obs [OF c(2)] st
    by (intro conjI) (auto split: option.splits verdict.split if_splits)
qed

lemma does_finishJob:
  assumes m: "marshal_total sv"
  shows "does (finishJob sv w token jobID jobMap out) (finishEvents sv w token jobID jobMap out)"
  unfolding finishJob_def Let_def
  apply (rule does_bindI, rule does_weaken [OF finalise_refines_policy [OF m]])
  apply (intro does_case_prod does_bindI does_finaliseFailed does_countStatus does_reschedStep does_emit does_return)
  apply (simp only: append_Nil2)
  apply (rule finishEventsI; simp)
  done

lemma settles_job:
  assumes "silent eb" "besideEvents w token jobID (if decodes sv jobID jobMap then [jobID] else []) em"
    "finishEvents sv w token jobID jobMap out pf ef"
    "hlookup jobMap ''defa'' = []"
  shows "settles sv w token jobID jobMap pf
    (GaugeAdd MetricJobsInFlight 1 [(AttrQueue, w_queueName w)] # (eb @ em @ ef) @
     [GaugeAdd MetricJobsInFlight (- 1) [(AttrQueue, w_queueName w)]])"
proof -
  from assms(2) obtain n where n: "calls em = replicate n (extendCall w token jobID)" by (auto simp: besideEvents_def)
  from assms(3) show ?thesis
    unfolding finishEvents_def settles_def Let_def
    apply (elim exE)
    subgoal for atm r now flag failed resched
      apply (rule exI [of _ n], rule exI [of _ out], rule exI [of _ "policy (w_cfg w) jobID jobMap out atm r"],
        rule exI [of _ now], rule exI [of _ flag], rule exI [of _ failed], rule exI [of _ resched])
      using assms(1,2,4) n by (intro conjI) (auto simp: silent_def besideEvents_def)
    done
qed

lemma processJob_settles:
  assumes m: "marshal_total sv" and d: "hlookup jobMap ''defa'' = []"
  shows "does (processJob sv w token jobID jobMap) (\<lambda>pf es. settles sv w token jobID jobMap pf
    (GaugeAdd MetricJobsInFlight 1 [(AttrQueue, w_queueName w)] # es @
     [GaugeAdd MetricJobsInFlight (- 1) [(AttrQueue, w_queueName w)]]))"
  unfolding processJob_def
  apply (intro does_bindI does_beginJob does_heartbeat does_runHandler does_emit does_weaken [OF does_finishJob [OF m]])
  subgoal for eb c n eh out pf ef
    using settles_job [OF _ _ _ d, of eb w token jobID sv "eh @ (if decodes sv jobID jobMap then [HandlerCall jobID] else []) @ [observeHandler w jobMap]" out pf ef]
    by (auto simp: besideEvents_def observeHandler_def dest: proj_of_obs)
  done

lemma settles_defa:
  assumes "defaEvents sv w token jobID jobMap (failedOutcome (PlainErr []) (hlookup jobMap ''defa'')) pf es"
    "hlookup jobMap ''defa'' \<noteq> []"
  shows "settles sv w token jobID jobMap pf
    (GaugeAdd MetricJobsInFlight 1 [(AttrQueue, w_queueName w)] # es @ [GaugeAdd MetricJobsInFlight (- 1) [(AttrQueue, w_queueName w)]])"
proof -
  let ?out = "failedOutcome (PlainErr []) (hlookup jobMap ''defa'')"
  from assms(1) obtain now flag failed where
    acq: "acquired es = held pf" and o: "obs es = [terminalCall sv w jobID token jobMap ?out VFail now flag] @
     (if failed then [releaseCall w token jobID] else [countProcessed w (hlookup jobMap ''name'') ''failed''])"
    and rest: "flag \<in> flags sv" "case pf of None \<Rightarrow> True | Some pj \<Rightarrow> \<not> failed \<and> pj_token pj = token \<and> pj_jobID pj \<noteq> [] \<and>
     (\<exists>arr. answers sv (terminalCall sv w jobID token jobMap ?out VFail now flag) (GArr arr))"
    unfolding defaEvents_def by (elim exE conjE) (rule that)
  show ?thesis
    unfolding settles_def
    apply (rule exI [of _ 0], rule exI [of _ ?out], rule exI [of _ VFail],
      rule exI [of _ now], rule exI [of _ flag], rule exI [of _ failed], rule exI [of _ "[]"])
    using rest proj_of_obs [OF o] assms(2) acq
    by (cases failed; cases pf) (auto simp: failedOutcome_def)
qed

lemma runJob_settles:
  assumes m: "marshal_total sv"
  shows "does (runJob sv w token jobID jobMap) (settles sv w token jobID jobMap)"
  unfolding runJob_def Let_def
  by (intro does_rules does_weaken [OF runDefa_events [OF m]] does_weaken [OF processJob_settles [OF m]])
    (auto intro!: does_rules intro: settles_defa)

section \<open>Lemmas: waking and stalled jobs\<close>

text \<open>
  Waking pushes one distinct member per dispatcher, all with score 0, and at least one: a
  sorted set keeps each of them, so one push per dispatcher reaches the key whatever the configured
  concurrency.
\<close>

lemma wakeMembers_one_per_dispatcher:
  "distinct (map fst (wakeMembers w)) \<and> int (length (wakeMembers w)) = max 1 (wc_concurrency (w_cfg w)) \<and>
   snd ` set (wakeMembers w) = {0}"
proof -
  have "inj (\<lambda>i. ''stop:'' @ fmt_nat i)"
    by (rule injI) (metis append_eq_append_conv digits_val_fmt_nat_0 option.inject)
  then have "distinct (map (\<lambda>i. ''stop:'' @ fmt_nat i) [0..<n])" for n
    by (simp add: distinct_map inj_on_subset [OF _ subset_UNIV])
  moreover have "wakeMembers w \<noteq> []" "\<forall>m \<in> set (wakeMembers w). snd m = 0" by (auto simp: wakeMembers_def Let_def)
  then have "snd ` set (wakeMembers w) = {0}" by (cases "wakeMembers w") auto
  ultimately show ?thesis by (auto simp: wakeMembers_def Let_def comp_def)
qed

lemma stalledCheckTTL_below_interval:
  assumes "Millisecond < interval"
  shows "1 \<le> stalledCheckTTL interval \<and> stalledCheckTTL interval * Millisecond < interval"
proof -
  have d: "interval sdiv 10 = interval div 10" and p: "0 \<le> interval - interval div 10"
    using assms by (auto simp: go_arith Millisecond_def)
  have "(interval - interval div 10) div 1000000 * 1000000 \<le> interval - interval div 10"
    by (simp add: div_mult2_eq [symmetric] minus_mod_eq_div_mult [symmetric])
  moreover have "interval - interval div 10 < interval" using assms by (simp add: Millisecond_def)
  ultimately show ?thesis
    using assms by (simp add: stalledCheckTTL_def Let_def d Milliseconds_nonneg [OF p] Millisecond_def)
qed

text \<open>
  A scan for stalled jobs: the keys, and a guard that lives at least a millisecond and expires
  before the next round is due.
\<close>

definition stalledScan :: "Worker \<Rightarrow> event \<Rightarrow> bool" where
  "stalledScan w e \<longleftrightarrow> (\<exists>now ttl. e = ScriptCall RunCtx MoveStalledJobsToWait (moveStalledKeys (w_keys w))
       [GInt (wc_maxStalledCount (w_cfg w)), GStr (k_prefix (w_keys w)), GInt64 now, GInt64 ttl] \<and>
     1 \<le> ttl \<and> ttl * Millisecond < wc_stalledInterval (w_cfg w))"

lemma does_runStalledCheck:
  assumes "Millisecond < wc_stalledInterval (w_cfg w)"
    and Q: "\<And>e es c. calls es = [c] \<Longrightarrow> stalledScan w c \<Longrightarrow> Q e es"
  shows "does (runStalledCheck sv w) Q"
  unfolding runStalledCheck_def
  by (intro does_rules does_script Q) (use stalledCheckTTL_below_interval [OF assms(1)] in \<open>auto simp: stalledScan_def dest: proj_of_obs\<close>)

lemma does_stalledBody:
  assumes i: "Millisecond < wc_stalledInterval (w_cfg w)"
    and stop: "Q (Inr ()) []"
    and on: "\<And>es c. calls es = [c] \<Longrightarrow> stalledScan w c \<Longrightarrow> Q (Inl (wc_stalledInterval (w_cfg w))) es"
  shows "does (stalledBody sv w d) Q"
  unfolding stalledBody_def
  by (intro does_rules does_runStalledCheck [OF i]) (auto intro: stop on)

lemma does_stalled_rounds:
  assumes i: "Millisecond < wc_stalledInterval (w_cfg w)"
  shows "does (loop n (stalledBody sv w) d) (\<lambda>r es. list_all (stalledScan w) (calls es) \<and>
     (if r = None then length (calls es) = n else length (calls es) < n))"
proof (induction n arbitrary: d)
  case 0
  then show ?case by (auto intro!: does_return)
next
  case (Suc n)
  show ?case
    unfolding loop.simps
    by (intro does_bindI does_stalledBody [OF i]) (auto intro!: does_return does_weaken [OF Suc])
qed

section \<open>Properties\<close>

text \<open>
  C30: The stalled-jobs loop scans once per round and is ended by nothing but the shutdown: every
  round before it makes exactly one \<open>moveStalledJobsToWait\<close> call, whatever the earlier ones
  answered, with a guard that lives at least a millisecond and expires before the next round is
  due (for an interval above a millisecond), so no round blocks the following one; and once the
  worker is stopped the loop returns without another call.
\<close>

theorem stalled_scans:
  assumes "Millisecond < wc_stalledInterval (w_cfg w)"
  shows "does (stalledLoop sv w fuel) (\<lambda>r es. list_all (stalledScan w) (calls es) \<and>
       (if r = None then length (calls es) = fuel else length (calls es) < fuel)) \<and>
     ((\<forall>d s. \<not> fst (sv_timer sv d s)) \<longrightarrow>
       does (loop (Suc fuel) (stalledBody sv w) d) (\<lambda>r es. r = Some () \<and> es = []))"
proof (intro conjI impI)
  show "does (stalledLoop sv w fuel) (\<lambda>r es. list_all (stalledScan w) (calls es) \<and>
      (if r = None then length (calls es) = fuel else length (calls es) < fuel))"
    unfolding stalledLoop_def by (rule does_stalled_rounds [OF assms])
  assume "\<forall>d s. \<not> fst (sv_timer sv d s)"
  then show "does (loop (Suc fuel) (stalledBody sv w) d) (\<lambda>r es. r = Some () \<and> es = [])"
    unfolding loop.simps stalledBody_def by (intro does_bindI does_ask_val) (auto intro!: does_rules)
qed

end
