(* ===== verification/Dispatcher.thy ===== *)
theory Dispatcher
  imports Dispatch
begin

text \<open>
  The dispatcher's loop over many jobs: every job it acquires is settled by exactly one
  terminal call or, when the loop ends while holding one, has its lock released; after the worker
  was stopped it takes no new job and returns within two rounds; its idle wait stays in range.
\<close>

section \<open>The ledger of jobs\<close>

text \<open>The job a terminal call is about.\<close>

fun terminalJob :: "event \<Rightarrow> string list" where
  "terminalJob (ScriptCall c name keys args) =
     (if name = MoveToFinished then [asString (args ! 0)]
      else if name = RetryJob then [asString (args ! 3)]
      else if name = MoveToDelayed then [asString (args ! 2)]
      else [])"
| "terminalJob e = []"

definition settled :: "event list \<Rightarrow> string list" where
  "settled es = concat (map terminalJob (calls es))"

lemma settled_Nil [simp]: "settled [] = []"
  by (simp add: settled_def)

lemma settled_Log [simp]: "settled (Log l m a # es) = settled es"
  by (simp add: settled_def)

lemma settled_append [simp]: "settled (es @ es') = settled es @ settled es'"
  by (simp add: settled_def)

lemma settled_calls: "calls es = cs \<Longrightarrow> settled es = concat (map terminalJob cs)"
  by (simp add: settled_def)

lemma settled_obs: "obs es = X \<Longrightarrow> settled es = settled X"
  unfolding settled_def by (metis calls_obs)

lemma terminalJob_simps [simp]:
  "terminalJob (extendCall w t j) = []" "terminalJob (releaseCall w t j) = []"
  "terminalJob (terminalCall sv w jobID token jobMap out v now flag) = [jobID]"
  by (cases v; simp add: extendCall_def releaseCall_def terminalCall_def finishedCall_def asString_def Let_def
      script_name_defs)+

lemma settles_settled:
  assumes "settles sv w token jobID jobMap pf es"
  shows "settled es = [jobID] \<and> acquired es = held pf \<and> inFlight es = 0"
proof -
  from assms obtain n out v now flag failed resched where
    c: "calls es = replicate n (extendCall w token jobID) @ [terminalCall sv w jobID token jobMap out v now flag] @
          (if failed then [releaseCall w token jobID] else []) @ resched"
    and r: "resched = [] \<or> hlookup jobMap ''rjk'' \<noteq> [] \<and> (\<exists>as. resched =
           [ScriptCall (Timeout (2 * Second)) UpdateJobScheduler (rescheduleKeys (w_keys w)) as])"
    by (rule settlesE)
  have "concat (map terminalJob (replicate n (extendCall w token jobID))) = []" by (simp add: map_replicate_const)
  then have "settled es = [jobID]"
    using r by (auto simp: settled_calls [OF c] script_name_defs)
  moreover have "acquired es = held pf" "inFlight es = 0"
    using assms unfolding settles_def by blast+
  ultimately show ?thesis by simp
qed

lemma does_case_fetch:
  "(\<And>a b. x = NoJob a b \<Longrightarrow> does (f a b) Q) \<Longrightarrow> (\<And>m j. x = GotJob m j \<Longrightarrow> does (g m j) Q) \<Longrightarrow>
   does (case x of NoJob a b \<Rightarrow> f a b | GotJob m j \<Rightarrow> g m j) Q"
  by (cases x) simp_all

lemma tryOnce_ledger:
  assumes m: "marshal_total sv"
  shows "does (tryOnce sv w) (\<lambda>r es. case r of
     Inr (Processed pf) \<Rightarrow> acquired es = settled es @ held pf \<and> inFlight es = 0
   | _ \<Rightarrow> acquired es = [] \<and> settled es = [] \<and> inFlight es = 0)"
proof -
  have other: "settled es = [] \<and> inFlight es = 0" if "obs es = [ScriptCall c MoveToActive ks as]" for es c ks as
    using proj_of_obs [OF that] settled_obs [OF that] by (simp add: settled_def script_name_defs)
  show ?thesis
    unfolding tryOnce_def
    by (intro does_bindI does_ask does_nowMilli does_case_sum does_return does_script does_if does_case_fetch
        does_weaken [OF runJob_settles [OF m]])
      (auto dest!: other settles_settled simp: jobs_of_def)
qed

text \<open>The events of a round that only waits.\<close>

definition waiting :: "event list \<Rightarrow> bool" where
  "waiting es \<longleftrightarrow> acquired es = [] \<and> set (obs es) \<subseteq> range Sleep"

lemma waiting_simps [simp]:
  "waiting []" "waiting (Cmd c r # es) = waiting es" "waiting (Log l m a # es) = waiting es"
  "waiting (Sleep d # es) = waiting es" "waiting es \<Longrightarrow> waiting es' \<Longrightarrow> waiting (es @ es')"
  by (auto simp: waiting_def)

lemma proj_sleeps: "set es \<subseteq> range Sleep \<Longrightarrow> inFlight es = 0 \<and> calls es = []"
  by (induction es) auto

lemma waitingD: "waiting es \<Longrightarrow> acquired es = [] \<and> settled es = [] \<and> inFlight es = 0 \<and> calls es = []"
  using proj_sleeps [of "obs es"] by (auto simp: waiting_def settled_def)

lemma does_sleep: "(\<And>ok es. waiting es \<Longrightarrow> Q ok es) \<Longrightarrow> does (sleep sv d) Q"
  unfolding sleep_def running_def by (intro does_rules) auto

lemma does_awaitMarker: "(\<And>ok es. waiting es \<Longrightarrow> Q ok es) \<Longrightarrow> does (awaitMarker sv w d) Q"
  unfolding awaitMarker_def running_def by (intro does_rules) auto

lemma does_idleRound:
  assumes "\<And>r es. waiting es \<Longrightarrow> (\<exists>iw. r = Inl (None, iw)) \<or> r = Inr None \<Longrightarrow> Q r es"
  shows "does (idleRound sv w idleWait e n) Q"
  unfolding idleRound_def
  by (intro does_rules does_sleep does_awaitMarker assms) (auto simp: goOn_def)

text \<open>The books balance: what was acquired is what was settled and what is still held.\<close>

definition balanced :: "prefetchedJob option \<Rightarrow> event list \<Rightarrow> bool" where
  "balanced pf es \<longleftrightarrow> acquired es = settled es @ held pf \<and> inFlight es = 0"

lemma does_case_attempt:
  "(\<And>pf. x = Processed pf \<Longrightarrow> does (f pf) Q) \<Longrightarrow> (\<And>a b. x = Idle a b \<Longrightarrow> does (g a b) Q) \<Longrightarrow>
   does (case x of Processed pf \<Rightarrow> f pf | Idle a b \<Rightarrow> g a b) Q"
  by (cases x) simp_all

lemma dispatchBody_balanced:
  assumes m: "marshal_total sv" and b: "balanced (fst l) es"
  shows "does (dispatchBody sv w l) (\<lambda>r es'. case r of
     Inl l' \<Rightarrow> balanced (fst l') (es @ es') | Inr pf \<Rightarrow> balanced pf (es @ es'))"
proof -
  obtain pf iw where l: "l = (pf, iw)" by fastforce
  show ?thesis
    using b unfolding l dispatchBody_def prod.case
    by (intro does_bindI does_ask does_if does_return does_case_option does_case_sum does_case_attempt does_emit
        does_sleep does_idleRound does_weaken [OF runJob_settles [OF m]] does_weaken [OF tryOnce_ledger [OF m]])
      (auto simp: balanced_def held_def goOn_def dest!: settles_settled waitingD split: option.splits)
qed

lemma dispatchLoop_balanced:
  assumes m: "marshal_total sv"
  shows "does (dispatchLoop sv w fuel) (\<lambda>r es. r = Some () \<longrightarrow>
     (\<exists>pf. balanced pf es \<and> (case pf of None \<Rightarrow> True
        | Some pj \<Rightarrow> last (calls es) = releaseCall w (pj_token pj) (pj_jobID pj))))"
proof -
  have rel: "does (releasePrefetchedLock sv w pf) (\<lambda>u es. acquired es = [] \<and> settled es = [] \<and> inFlight es = 0 \<and>
      (case pf of None \<Rightarrow> True | Some pj \<Rightarrow> calls es = [releaseCall w (pj_token pj) (pj_jobID pj)]))" for pf
    unfolding releasePrefetchedLock_def
    by (cases pf) (auto intro!: does_rules does_releaseLock dest!: proj_of_obs simp: settled_def)
  have lp: "does (loop fuel (dispatchBody sv w) (None, wc_idlePollInterval (w_cfg w)))
      (\<lambda>r es. case r of None \<Rightarrow> True | Some pf \<Rightarrow> balanced pf es)"
    using does_loop [of "\<lambda>l. balanced (fst l)" "dispatchBody sv w" balanced "(None, wc_idlePollInterval (w_cfg w))" "[]"]
      dispatchBody_balanced [OF m] by (simp add: balanced_def held_def cong: option.case_cong)
  show ?thesis
    unfolding dispatchLoop_def
    by (rule does_bindI, rule does_weaken [OF lp], rule does_case_option)
      (auto intro!: does_return does_bindI does_weaken [OF rel] simp: balanced_def split: option.splits)
qed

section \<open>After a shutdown began\<close>

text \<open>
  \<open>runCtx\<close> is cancelled for good, and Redis runs \<open>moveToFinished\<close>: without the fetchNext flag
  its reply is not an array (there is no next job in it).
\<close>

definition stopped :: "('s, 't) services \<Rightarrow> bool" where
  "stopped sv \<longleftrightarrow> (\<forall>s. fst (sv_runDone sv s))"

definition honours_flag :: "('s, 't) services \<Rightarrow> bool" where
  "honours_flag sv \<longleftrightarrow> (\<forall>sha ks as s arr. length as = 9 \<longrightarrow> as ! 5 = GStr [] \<longrightarrow>
     fst (sv_redis sv (EvalSha Background sha ks as) s) \<noteq> Inr (GArr arr))"

definition shut :: "('s, 't) services \<Rightarrow> bool" where
  "shut sv \<longleftrightarrow> stopped sv \<and> honours_flag sv \<and> marshal_total sv"

lemma flags_stopped: "stopped sv \<Longrightarrow> flags sv = {[]}"
  by (auto simp: flags_def stopped_def)

lemma terminalCall_no_fetch:
  assumes "honours_flag sv" "v \<in> {VComplete, VFail}"
  shows "\<not> answers sv (terminalCall sv w jobID token jobMap out v now []) (GArr arr)"
  using assms by (auto simp: answers_def terminalCall_def finishedCall_def honours_flag_def Let_def)

text \<open>Names of the calls a job makes: none of them takes a job from the queue by itself.\<close>

fun callName :: "event \<Rightarrow> string" where
  "callName (ScriptCall c n ks as) = n"
| "callName e = []"

lemma terminalCall_name:
  "callName (terminalCall sv w jobID token jobMap out v now flag) \<in> {MoveToFinished, RetryJob, MoveToDelayed}"
  by (cases v) (simp_all add: terminalCall_def finishedCall_def Let_def)

lemma runJob_shut:
  assumes "shut sv"
  shows "does (runJob sv w token jobID jobMap) (\<lambda>pf es. pf = None \<and> MoveToActive \<notin> callName ` set (calls es))"
proof (rule does_weaken [OF runJob_settles])
  show "marshal_total sv" using assms by (simp add: shut_def)
  fix pf es
  assume "settles sv w token jobID jobMap pf es"
  then obtain n out v now flag failed resched where
    c: "calls es = replicate n (extendCall w token jobID) @ [terminalCall sv w jobID token jobMap out v now flag] @
          (if failed then [releaseCall w token jobID] else []) @ resched"
    and fl: "flag \<in> flags sv"
    and r: "resched = [] \<or> hlookup jobMap ''rjk'' \<noteq> [] \<and> (\<exists>as. resched =
           [ScriptCall (Timeout (2 * Second)) UpdateJobScheduler (rescheduleKeys (w_keys w)) as])"
    and pf: "case pf of None \<Rightarrow> True | Some pj \<Rightarrow>
       \<not> failed \<and> v \<in> {VComplete, VFail} \<and> pj_token pj = token \<and> pj_jobID pj \<noteq> [] \<and>
       (\<exists>arr. answers sv (terminalCall sv w jobID token jobMap out v now flag) (GArr arr))"
    by (rule settlesE)
  have "flag = []" using fl assms by (simp add: flags_stopped shut_def)
  then have "pf = None"
    using pf assms terminalCall_no_fetch [of sv v] by (auto simp: shut_def split: option.splits)
  moreover have "MoveToActive \<notin> callName ` set (calls es)"
    using terminalCall_name [of sv w jobID token jobMap out v now flag] r
    by (auto simp: c extendCall_def releaseCall_def script_name_defs split: if_splits)
  ultimately show "pf = None \<and> MoveToActive \<notin> callName ` set (calls es)" by simp
qed

lemma dispatchBody_shut:
  assumes "shut sv"
  shows "does (dispatchBody sv w l) (\<lambda>r es. MoveToActive \<notin> callName ` set (calls es) \<and>
     (case r of Inl l' \<Rightarrow> fst l \<noteq> None \<and> fst l' = None | Inr pf \<Rightarrow> pf = fst l))"
proof -
  obtain pf iw where l: "l = (pf, iw)" by fastforce
  have st: "fst (sv_runDone sv s)" for s using assms by (simp add: shut_def stopped_def)
  show ?thesis
    unfolding l dispatchBody_def prod.case
    by (rule does_bindI, rule does_ask_val)
      (cases pf; auto simp: st intro!: does_bindI does_ask does_return does_weaken [OF runJob_shut [OF assms]] does_if)
qed

interpretation dispatch_stop: bounded_loop "dispatchBody sv w" "\<lambda>l wd. shut sv"
  "\<lambda>l. if fst l = None then 0 else 1" for sv :: "('s, 't) services" and w
proof (unfold_locales, intro conjI)
  fix l :: dispatchState and wd l' wd'
  assume a: "shut sv" "run_state (dispatchBody sv w l) wd = (Inl l', wd')"
  show "shut sv" by fact
  from doesD [OF dispatchBody_shut [OF a(1)] a(2)] have "fst l \<noteq> None \<and> fst l' = None" by auto
  then show "(if fst l' = None then 0 else 1) < (if fst l = None then 0 else 1 :: nat)" by simp
qed

section \<open>The contract of a dispatcher's parts\<close>

text \<open>
  What the loop relies on to keep a law of traces: jobs, dequeue calls, waiting and the release of
  a lock keep it.
\<close>

locale dispatcher_law = trace_law R for R +
  fixes sv :: "('s, 't) services" and w :: Worker
  assumes law_job: "marshal_total sv \<Longrightarrow> does (runJob sv w token jobID jobMap) (\<lambda>_. R)"
    and law_take: "obs es = [ScriptCall RunCtx MoveToActive (moveToActiveKeys (w_keys w)) as] \<Longrightarrow> R es"
    and law_wait: "set (obs es) \<subseteq> range Sleep \<Longrightarrow> R es"
    and law_release: "obs es = [releaseCall w token jobID] \<Longrightarrow> R es"
begin

lemma law_tryOnce: "marshal_total sv \<Longrightarrow> does (tryOnce sv w) (\<lambda>_. R)"
  unfolding tryOnce_def nowMilli_def
  by (intro law_bind law_ask law_return law_job does_case_sum does_if does_case_fetch) (auto intro: does_script law_take)

lemma law_waiting: "waiting es \<Longrightarrow> R es"
  by (simp add: waiting_def law_wait)

lemma law_dispatchBody: "marshal_total sv \<Longrightarrow> does (dispatchBody sv w l) (\<lambda>_. R)"
  unfolding dispatchBody_def
  by (intro does_case_prod law_bind law_ask law_return law_job law_tryOnce does_if does_case_option does_case_sum
      does_case_attempt does_sleep does_idleRound does_emit law_waiting) (auto intro: law_wait)

lemma law_dispatchLoop:
  assumes "marshal_total sv"
  shows "does (dispatchLoop sv w fuel) (\<lambda>_. R)"
proof -
  have "does (releasePrefetchedLock sv w pf) (\<lambda>_. R)" for pf
    unfolding releasePrefetchedLock_def
    by (intro does_case_option law_bind law_return does_emit does_releaseLock) (auto intro: law_wait law_release)
  then show ?thesis
    unfolding dispatchLoop_def
    by (intro law_bind law_loop law_dispatchBody assms does_case_option law_return)
qed

end

section \<open>Lemmas: the arity of the script calls\<close>

text \<open>A call passes as many KEYS as the suffix of the script's name announces.\<close>

fun well_keyed :: "event \<Rightarrow> bool" where
  "well_keyed (ScriptCall c name keys args) \<longleftrightarrow> keyCount name = int (length keys)"
| "well_keyed e \<longleftrightarrow> True"

lemma keyCounts:
  "keyCount MoveToActive = 11" "keyCount MoveToFinished = 14" "keyCount RetryJob = 11" "keyCount MoveToDelayed = 11"
  "keyCount ExtendLock = 2" "keyCount ReleaseLock = 1" "keyCount UpdateJobScheduler = 12" "keyCount MoveStalledJobsToWait = 9"
  unfolding script_name_defs by code_simp+

lemmas key_list_defs = moveToActiveKeys_def moveToFinishedKeys_def retryJobKeys_def moveToDelayedKeys_def moveStalledKeys_def
  rescheduleKeys_def

lemma well_keyed_calls:
  "well_keyed (extendCall w t j)" "well_keyed (releaseCall w t j)"
  "well_keyed (terminalCall sv w jobID token jobMap out v now flag)"
  by (cases v; simp add: extendCall_def releaseCall_def terminalCall_def finishedCall_def keyCounts key_list_defs Let_def)+

lemma settles_well_keyed:
  assumes "settles sv w token jobID jobMap pf es"
  shows "list_all well_keyed (calls es)"
  using assms
  by (rule settlesE) (auto simp: list_all_iff well_keyed_calls keyCounts key_list_defs split: if_splits)

text \<open>The law of well-keyed calls.\<close>

interpretation keyed: dispatcher_law "\<lambda>es. list_all well_keyed (calls es)" sv w for sv :: "('s, 't) services" and w
proof unfold_locales
  show "marshal_total sv \<Longrightarrow> does (runJob sv w token jobID jobMap) (\<lambda>_ es. list_all well_keyed (calls es))" for token jobID jobMap
    by (rule does_weaken [OF runJob_settles]) (auto dest: settles_well_keyed)
  show "list_all well_keyed (calls es)"
    if "obs es = [ScriptCall RunCtx MoveToActive (moveToActiveKeys (w_keys w)) as]" for es as
    using proj_of_obs [OF that] by (simp add: keyCounts key_list_defs)
  show "list_all well_keyed (calls es)" if "set (obs es) \<subseteq> range Sleep" for es
    using proj_sleeps [OF that] by simp
  show "list_all well_keyed (calls es)" if "obs es = [releaseCall w token jobID]" for es token jobID
    using proj_of_obs [OF that] by (simp add: well_keyed_calls)
qed simp_all

section \<open>Lemmas: the idle wait\<close>

definition idle_ok :: "duration \<Rightarrow> duration \<Rightarrow> bool" where
  "idle_ok base cur \<longleftrightarrow> base \<le> cur \<and> cur \<le> max base maxIdleWait"

lemma nextIdleWait_ok:
  assumes "0 < base" "idle_ok base cur"
  shows "idle_ok base (nextIdleWait cur base)" "cur \<le> nextIdleWait cur base"
proof -
  have "wrap64 (cur * 2) = cur * 2" if "base < maxIdleWait"
    using assms that by (intro wrap64_id) (auto simp: is_int64_def idle_ok_def maxIdleWait_def Second_def)
  then show "idle_ok base (nextIdleWait cur base)" "cur \<le> nextIdleWait cur base"
    using assms by (auto simp: nextIdleWait_def idle_ok_def Let_def)
qed

lemma does_idleRound_wait:
  assumes b: "0 < wc_idlePollInterval (w_cfg w)" "idle_ok (wc_idlePollInterval (w_cfg w)) idleWait"
    and Q: "\<And>iw es. idle_ok (wc_idlePollInterval (w_cfg w)) iw \<Longrightarrow> Q (Inl (None, iw)) es" "\<And>es. Q (Inr None) es"
  shows "does (idleRound sv w idleWait e n) Q"
  unfolding idleRound_def
  by (intro does_rules does_sleep does_awaitMarker) (use nextIdleWait_ok [OF b] b Q in \<open>auto simp: goOn_def\<close>)

lemma dispatchBody_idle:
  assumes m: "marshal_total sv"
    and b: "0 < wc_idlePollInterval (w_cfg w)" "idle_ok (wc_idlePollInterval (w_cfg w)) (snd l)"
  shows "does (dispatchBody sv w l) (\<lambda>r es. case r of Inl l' \<Rightarrow> idle_ok (wc_idlePollInterval (w_cfg w)) (snd l') | Inr _ \<Rightarrow> True)"
proof -
  obtain pf iw where l: "l = (pf, iw)" by fastforce
  have iw: "idle_ok (wc_idlePollInterval (w_cfg w)) iw" using b(2) by (simp add: l)
  have base: "idle_ok (wc_idlePollInterval (w_cfg w)) (wc_idlePollInterval (w_cfg w))" by (simp add: idle_ok_def)
  show ?thesis
    unfolding l dispatchBody_def prod.case
    by (intro does_bindI does_ask does_if does_return does_case_option does_case_sum does_case_attempt does_emit
        does_sleep does_idleRound_wait [OF b(1) iw] does_weaken [OF runJob_settles [OF m]] does_weaken [OF tryOnce_ledger [OF m]])
      (use iw base in \<open>auto simp: goOn_def\<close>)
qed

section \<open>Properties\<close>

text \<open>
  C29: The wait of an idle dispatcher grows but stays in range: it never falls below the configured
  interval, never exceeds the larger of that interval and thirty seconds (so the doubling never
  overflows), and an idle round never shortens it.  This is an invariant of every round of the
  loop.
\<close>

theorem idle_wait_in_range:
  assumes "marshal_total sv" "0 < wc_idlePollInterval (w_cfg w)"
    "wc_idlePollInterval (w_cfg w) \<le> iw" "iw \<le> max (wc_idlePollInterval (w_cfg w)) maxIdleWait"
  shows "does (dispatchBody sv w (pf, iw)) (\<lambda>r es. case r of
      Inl (pf', iw') \<Rightarrow> wc_idlePollInterval (w_cfg w) \<le> iw' \<and> iw' \<le> max (wc_idlePollInterval (w_cfg w)) maxIdleWait
    | Inr _ \<Rightarrow> True) \<and> iw \<le> nextIdleWait iw (wc_idlePollInterval (w_cfg w))"
proof
  have ok: "idle_ok (wc_idlePollInterval (w_cfg w)) iw" using assms(3,4) by (simp add: idle_ok_def)
  show "does (dispatchBody sv w (pf, iw)) (\<lambda>r es. case r of
      Inl (pf', iw') \<Rightarrow> wc_idlePollInterval (w_cfg w) \<le> iw' \<and> iw' \<le> max (wc_idlePollInterval (w_cfg w)) maxIdleWait
    | Inr _ \<Rightarrow> True)"
    by (rule does_weaken [OF dispatchBody_idle [OF assms(1,2), of "(pf, iw)"]])
      (use ok in \<open>auto simp: idle_ok_def split: sum.splits\<close>)
  show "iw \<le> nextIdleWait iw (wc_idlePollInterval (w_cfg w))" by (rule nextIdleWait_ok(2) [OF assms(2) ok])
qed

text \<open>
  C28: Every script call a dispatcher makes passes exactly the number of KEYS that the script's name
  announces, over a whole run, on every path: dequeue, completion, failure, retry, delay, lock
  extension and release, and rescheduling.
\<close>

theorem dispatcher_calls_well_keyed:
  assumes "marshal_total sv"
  shows "does (dispatchLoop sv w fuel) (\<lambda>r es. list_all well_keyed (calls es))"
  using assms by (rule keyed.law_dispatchLoop)

end
