(* ===== verification/Lifecycle.thy ===== *)
theory Lifecycle
  imports Dispatcher
begin

text \<open>
  Starting and stopping a worker (\<open>Process\<close>, \<open>Stop\<close>, \<open>Drain\<close>, \<open>beginShutdown\<close> of
  \<open>worker.go\<close>).  The shutdown is a state machine: the two contexts, the \<open>sync.Once\<close>, the wait
  group of the dispatch and stalled goroutines, the waiter goroutine, and every caller of \<open>Stop\<close>
  or \<open>Drain\<close> with its own program point.  Steps of different callers interleave freely.
\<close>

section \<open>Process\<close>

text \<open>
  \<open>host\<close> is \<open>os.Hostname\<close> (an error yields \<open>None\<close>), \<open>pid\<close> the process id, \<open>gomaxprocs\<close>
  the value of \<open>runtime.GOMAXPROCS(0)\<close>, \<open>poolSize\<close> the configured pool size of the client.
\<close>

record runtime_info =
  ri_host :: "string option"
  ri_pid :: nat
  ri_gomaxprocs :: int
  ri_poolSize :: int

definition defaultWorkerName :: "runtime_info \<Rightarrow> string \<Rightarrow> string" where
  "defaultWorkerName ri uuid =
     (case ri_host ri of None \<Rightarrow> ''unknown'' | Some h \<Rightarrow> h) @ ''-'' @ fmt_nat (ri_pid ri) @ ''-'' @ take 8 uuid"

definition goroutines :: "workerConfig \<Rightarrow> nat" where
  "goroutines cfg = nat (wc_concurrency cfg) + (if wc_stalledInterval cfg > 0 then 1 else 0)"

definition warnings :: "runtime_info \<Rightarrow> string \<Rightarrow> workerConfig \<Rightarrow> ('s, unit) act" where
  "warnings ri name cfg = do {
     let pool = (if ri_poolSize ri = 0 then 10 * ri_gomaxprocs ri else ri_poolSize ri);
     (if wc_concurrency cfg + 8 > pool then
        emit (Log LWarn ''mkq: redis pool size below recommended (concurrency + 8)''
          [(AttrQueue, name), (''concurrency'', FormatInt (wc_concurrency cfg)), (''pool_size'', FormatInt pool),
           (''recommended_minimum'', FormatInt (wc_concurrency cfg + 8))])
      else ret ());
     (if wc_backoffFunc cfg \<noteq> None \<and> wc_backoffStrategy cfg \<noteq> None then
        emit (Log LWarn (''mkq: both WithBackoffStrategyFunc and WithBackoffStrategy are set; '' @
          ''the context-aware one is used'') [(AttrQueue, name)])
      else ret ())
   }"

text \<open>The worker and the number of goroutines started; a nil queue or handler is an error.\<close>

definition Process ::
  "('s, 't) services \<Rightarrow> runtime_info \<Rightarrow> Queue option \<Rightarrow> bool \<Rightarrow> WorkerOption list \<Rightarrow>
   ('s, goerr + (Worker \<times> nat)) act" where
  "Process sv ri q hasHandler opts = (case q of
       None \<Rightarrow> ret (Inl (PlainErr ''mkq: Process requires a non-nil queue''))
     | Some q \<Rightarrow>
         if \<not> hasHandler then ret (Inl (PlainErr ''mkq: Process requires a non-nil handler''))
         else do {
           let cfg = apply_options opts default_workerConfig;
           let cfg = (if wc_concurrency cfg < 1 then cfg\<lparr>wc_concurrency := 1\<rparr> else cfg);
           cfg \<leftarrow> (if wc_workerName cfg = [] then do {
               u \<leftarrow> ask (sv_uuid sv);
               ret (cfg\<lparr>wc_workerName := defaultWorkerName ri u\<rparr>)
             } else ret cfg);
           let qk = newQueueKeys (q_keys q);
           u \<leftarrow> ask (sv_uuid sv);
           warnings ri (q_name q) cfg;
           ret (Inr (\<lparr>w_cfg = cfg, w_keys = qk, w_queueName = q_name q,
             w_wakeKey = Base (k_builder qk) @ ''mkq:wake:'' @ u\<rparr>, goroutines cfg))
         })"

section \<open>The shutdown state machine\<close>

datatype kind = StopK | DrainK

text \<open>
  Where a caller is: before \<open>beginShutdown\<close>, in the \<open>select\<close>, or returned (with \<open>ctx.Err()\<close>
  when the flag is set).
\<close>

datatype point = AtShutdown | Selecting | Returned bool

text \<open>
  \<open>wakePushed\<close> and \<open>wakeDropped\<close> say that \<open>wakeDispatchers\<close> and \<open>dropWakeKey\<close> were called: both are
  best effort, they do nothing without a Redis client or a wake key and ignore Redis's error.
\<close>

record lifecycle =
  runCancelled :: bool
  jobsCancelled :: bool
  stopOnce :: bool
  wakePushed :: bool
  wakeDropped :: bool
  running_count :: nat
  waiter :: bool
  stopDone :: bool
  callers :: "(kind \<times> point) list"

definition started :: "nat \<Rightarrow> lifecycle" where
  "started n = \<lparr>runCancelled = False, jobsCancelled = False, stopOnce = False, wakePushed = False,
     wakeDropped = False, running_count = n, waiter = False, stopDone = False, callers = []\<rparr>"

definition setPoint :: "nat \<Rightarrow> point \<Rightarrow> lifecycle \<Rightarrow> lifecycle" where
  "setPoint i p s = s\<lparr>callers := (callers s)[i := (fst (callers s ! i), p)]\<rparr>"

text \<open>\<open>Stop\<close> cancels the job contexts before anything else; \<open>Drain\<close> does not.\<close>

definition enter :: "kind \<Rightarrow> lifecycle \<Rightarrow> lifecycle" where
  "enter k s =
     (let s = (if k = StopK then s\<lparr>jobsCancelled := True\<rparr> else s)
      in s\<lparr>callers := callers s @ [(k, AtShutdown)]\<rparr>)"

text \<open>\<open>stopOnce.Do\<close> runs its function for the first caller only.\<close>

definition beginShutdown :: "lifecycle \<Rightarrow> lifecycle" where
  "beginShutdown s =
     (if stopOnce s then s
      else s\<lparr>stopOnce := True, runCancelled := True, wakePushed := True, waiter := True\<rparr>)"

text \<open>The waiter goroutine after \<open>run.Wait()\<close>.\<close>

definition waiterDone :: "lifecycle \<Rightarrow> lifecycle" where
  "waiterDone s = s\<lparr>jobsCancelled := True, wakeDropped := True, stopDone := True, waiter := False\<rparr>"

text \<open>The \<open>ctx.Done()\<close> branch: \<open>Drain\<close> cancels the running handlers, then returns.\<close>

definition expire :: "nat \<Rightarrow> lifecycle \<Rightarrow> lifecycle" where
  "expire i s =
     (let s = (if fst (callers s ! i) = DrainK then s\<lparr>jobsCancelled := True\<rparr> else s)
      in setPoint i (Returned True) s)"

definition stands :: "lifecycle \<Rightarrow> nat \<Rightarrow> point \<Rightarrow> bool" where
  "stands s i p \<longleftrightarrow> i < length (callers s) \<and> snd (callers s ! i) = p"

inductive step :: "lifecycle \<Rightarrow> lifecycle \<Rightarrow> bool" where
  call: "step s (enter k s)"
| shutdown: "stands s i AtShutdown \<Longrightarrow> step s (setPoint i Selecting (beginShutdown s))"
| leave: "runCancelled s \<Longrightarrow> running_count s = Suc n \<Longrightarrow> step s (s\<lparr>running_count := n\<rparr>)"
| waited: "waiter s \<Longrightarrow> running_count s = 0 \<Longrightarrow> step s (waiterDone s)"
| return_nil: "stands s i Selecting \<Longrightarrow> stopDone s \<Longrightarrow> step s (setPoint i (Returned False) s)"
| return_err: "stands s i Selecting \<Longrightarrow> step s (expire i s)"

inductive reach :: "nat \<Rightarrow> lifecycle \<Rightarrow> bool" for n where
  init: "reach n (started n)"
| steps: "reach n s \<Longrightarrow> step s s' \<Longrightarrow> reach n s'"

inductive_cases stepE: "step s s'"

section \<open>Lemmas\<close>

lemmas lifecycle_defs = setPoint_def enter_def beginShutdown_def waiterDone_def expire_def Let_def

text \<open>A caller of \<open>Stop\<close>, or one whose context expired.\<close>

definition asked :: "lifecycle \<Rightarrow> bool" where
  "asked s \<longleftrightarrow> (\<exists>i < length (callers s). fst (callers s ! i) = StopK \<or> snd (callers s ! i) = Returned True)"

definition caller_inv :: "lifecycle \<Rightarrow> kind \<times> point \<Rightarrow> bool" where
  "caller_inv s c \<longleftrightarrow>
     (snd c \<noteq> AtShutdown \<longrightarrow> stopOnce s) \<and> (snd c = Returned False \<longrightarrow> stopDone s) \<and>
     (fst c = StopK \<or> snd c = Returned True \<longrightarrow> jobsCancelled s)"

definition lifecycle_inv :: "lifecycle \<Rightarrow> bool" where
  "lifecycle_inv s \<longleftrightarrow>
     runCancelled s = stopOnce s \<and> wakePushed s = stopOnce s \<and>
     (waiter s \<longrightarrow> stopOnce s \<and> \<not> stopDone s) \<and> (stopOnce s \<longrightarrow> waiter s \<or> stopDone s) \<and>
     (stopDone s \<longrightarrow> stopOnce s \<and> running_count s = 0 \<and> wakeDropped s \<and> jobsCancelled s) \<and>
     (jobsCancelled s \<longrightarrow> asked s \<or> stopDone s) \<and>
     (\<forall>i < length (callers s). caller_inv s (callers s ! i))"

lemma inv_started: "lifecycle_inv (started n)"
  by (simp add: lifecycle_inv_def started_def)

lemma inv_enter: "lifecycle_inv s \<Longrightarrow> lifecycle_inv (enter k s)"
  unfolding lifecycle_inv_def enter_def Let_def asked_def caller_inv_def
  by (cases k) (auto simp: nth_append less_Suc_eq all_simps)

lemma inv_setPoint:
  assumes inv: "lifecycle_inv s" and i: "stands s i q" "q \<noteq> Returned True"
    and p: "caller_inv s (fst (callers s ! i), p)"
  shows "lifecycle_inv (setPoint i p s)"
proof -
  have a: "asked s \<Longrightarrow> asked (setPoint i p s)"
    using i unfolding asked_def stands_def setPoint_def
    by (auto simp: nth_list_update)
  have "caller_inv (setPoint i p s) (callers (setPoint i p s) ! j)" if "j < length (callers (setPoint i p s))" for j
    using that inv p by (cases "j = i") (auto simp: setPoint_def caller_inv_def lifecycle_inv_def)
  with inv a show ?thesis
    unfolding lifecycle_inv_def by (simp add: setPoint_def) blast
qed

lemma inv_beginShutdown: "lifecycle_inv s \<Longrightarrow> lifecycle_inv (beginShutdown s)"
  by (auto simp: lifecycle_inv_def beginShutdown_def asked_def caller_inv_def)

lemma inv_expire:
  assumes "lifecycle_inv s" "stands s i Selecting"
  shows "lifecycle_inv (expire i s)"
proof -
  have "asked (expire i s)" using assms(2)
    by (auto simp: asked_def expire_def setPoint_def stands_def nth_list_update Let_def intro!: exI [of _ i])
  moreover have "jobsCancelled (expire i s)"
    using assms by (cases "fst (callers s ! i)")
      (auto simp: expire_def setPoint_def lifecycle_inv_def caller_inv_def stands_def)
  moreover have "stopOnce s" using assms by (auto simp: lifecycle_inv_def caller_inv_def stands_def)
  moreover have "caller_inv (expire i s) (callers (expire i s) ! j)" if "j < length (callers (expire i s))" for j
  proof -
    have len: "j < length (callers s)" using that by (simp add: expire_def setPoint_def Let_def split: if_splits)
    then have "caller_inv s (callers s ! j)" using assms(1) by (simp add: lifecycle_inv_def)
    then show ?thesis
      using len \<open>stopOnce s\<close> \<open>jobsCancelled (expire i s)\<close>
      by (cases "j = i") (auto simp: expire_def setPoint_def caller_inv_def Let_def split: if_splits)
  qed
  ultimately show ?thesis
    using assms(1) unfolding lifecycle_inv_def by (simp add: expire_def setPoint_def Let_def split: if_splits)
qed

lemma inv_step: "step s s' \<Longrightarrow> lifecycle_inv s \<Longrightarrow> lifecycle_inv s'"
proof (induction rule: step.induct)
  case (call s k)
  then show ?case by (rule inv_enter)
next
  case (shutdown s i)
  have "stands (beginShutdown s) i AtShutdown" "stopOnce (beginShutdown s)"
    using shutdown.hyps by (auto simp: beginShutdown_def stands_def)
  moreover from this have "caller_inv (beginShutdown s) (fst (callers (beginShutdown s) ! i), Selecting)"
    using inv_beginShutdown [OF shutdown.prems]
    by (auto simp: lifecycle_inv_def caller_inv_def stands_def)
  ultimately show ?case by (intro inv_setPoint inv_beginShutdown shutdown.prems) auto
next
  case (leave s n)
  then show ?case by (auto simp: lifecycle_inv_def asked_def caller_inv_def)
next
  case (waited s)
  then show ?case by (auto simp: lifecycle_inv_def waiterDone_def caller_inv_def)
next
  case (return_nil s i)
  then have "caller_inv s (fst (callers s ! i), Returned False)"
    by (auto simp: lifecycle_inv_def caller_inv_def stands_def)
  with return_nil show ?case by (intro inv_setPoint) auto
next
  case (return_err s i)
  then show ?case by (intro inv_expire)
qed

lemma reach_inv: "reach n s \<Longrightarrow> lifecycle_inv s"
  by (induction rule: reach.induct) (auto intro: inv_started inv_step)

lemma reach_step_star: "step\<^sup>*\<^sup>* s s' \<Longrightarrow> reach n s \<Longrightarrow> reach n s'"
  by (induction rule: rtranclp_induct) (auto intro: reach.steps)

text \<open>Once the shutdown began, the goroutines can leave one by one and the waiter closes the channel.\<close>

lemma drain_out:
  assumes "runCancelled s" "waiter s"
  shows "\<exists>s'. step\<^sup>*\<^sup>* s s' \<and> stopDone s' \<and> callers s' = callers s"
  using assms
proof (induction "running_count s" arbitrary: s)
  case 0
  then have "step s (waiterDone s)" by (intro step.waited) auto
  then show ?case by (intro exI [of _ "waiterDone s"]) (auto simp: waiterDone_def)
next
  case (Suc n)
  let ?s = "s\<lparr>running_count := n\<rparr>"
  have st: "step s ?s" using Suc by (intro step.leave) auto
  from Suc.hyps(1) [of ?s] Suc.prems obtain s' where "step\<^sup>*\<^sup>* ?s s'" "stopDone s'" "callers s' = callers s"
    by auto
  with st show ?case by (meson converse_rtranclp_into_rtranclp)
qed

section \<open>Properties\<close>

text \<open>
  C5: When a call of \<open>Stop\<close> or \<open>Drain\<close> returns nil, every dispatch and stalled-jobs goroutine
  of the worker is gone, the shutdown ran, the wake-up of the dispatchers and the deletion of the
  wake key were attempted and the handlers' contexts are cancelled.  This holds whatever other calls of \<open>Stop\<close> and \<open>Drain\<close> are under way and however
  their steps interleave.
\<close>

theorem nil_return_means_stopped:
  assumes "reach n s" "stands s i (Returned False)"
  shows "running_count s = 0 \<and> runCancelled s \<and> wakePushed s \<and> wakeDropped s \<and> jobsCancelled s \<and> \<not> waiter s"
  using reach_inv [OF assms(1)] assms(2) by (auto simp: lifecycle_inv_def caller_inv_def stands_def)

definition quick_stop :: lifecycle where
  "quick_stop = setPoint 0 (Returned False) (waiterDone (setPoint 0 Selecting (beginShutdown (enter DrainK (started 0)))))"

lemma reach_quick_stop: "reach 0 quick_stop"
  unfolding quick_stop_def
  by (intro reach.steps [OF _ step.return_nil] reach.steps [OF _ step.waited] reach.steps [OF _ step.shutdown]
      reach.steps [OF _ step.call] reach.init) (simp_all add: lifecycle_defs stands_def started_def)

theorem nil_return_means_stopped_witness:
  "stands quick_stop 0 (Returned False) \<and> running_count quick_stop = 0 \<and> wakeDropped quick_stop"
proof -
  have "stands quick_stop 0 (Returned False)" by code_simp
  with nil_return_means_stopped [OF reach_quick_stop] show ?thesis by blast
qed

text \<open>
  C9: \<open>Drain\<close> lets running handlers finish: while the shutdown is not over, the handlers' contexts
  are cancelled only when some caller used \<open>Stop\<close> or some caller's own context expired (and that
  caller returned the error).  Draining callers that are still waiting never cancel a handler.
\<close>

theorem drain_spares_handlers:
  assumes "reach n s" "\<not> stopDone s" "list_all (\<lambda>(k, p). k = DrainK \<and> p \<noteq> Returned True) (callers s)"
  shows "\<not> jobsCancelled s"
proof -
  have "\<not> asked s"
  proof
    assume "asked s"
    then obtain i where i: "i < length (callers s)" "fst (callers s ! i) = StopK \<or> snd (callers s ! i) = Returned True"
      unfolding asked_def by blast
    with assms(3) show False by (cases "callers s ! i") (auto simp: list_all_length)
  qed
  then show ?thesis using reach_inv [OF assms(1)] assms(2) by (simp add: lifecycle_inv_def)
qed

definition draining :: lifecycle where
  "draining = setPoint 0 Selecting (beginShutdown (enter DrainK (started 2)))"

lemma reach_draining: "reach 2 draining"
  unfolding draining_def
  by (intro reach.steps [OF _ step.shutdown] reach.steps [OF _ step.call] reach.init)
    (simp add: lifecycle_defs stands_def started_def)

theorem drain_spares_handlers_witness: "\<not> stopDone draining \<and> runCancelled draining \<and> \<not> jobsCancelled draining"
proof -
  have 1: "\<not> stopDone draining \<and> runCancelled draining" by code_simp
  have 2: "list_all (\<lambda>(k, p). k = DrainK \<and> p \<noteq> Returned True) (callers draining)" by code_simp
  from drain_spares_handlers [OF reach_draining] 1 2 show ?thesis by blast
qed

text \<open>
  C8: A shutdown can always finish: from any reachable state in which a caller waits in its
  \<open>select\<close>, the goroutines can leave, the waiter closes the channel and that caller returns nil.
  No interleaving of \<open>Stop\<close> and \<open>Drain\<close> calls loses the wake-up of a waiting caller.
\<close>

theorem shutdown_can_finish:
  assumes "reach n s" "stands s i Selecting"
  shows "\<exists>s'. step\<^sup>*\<^sup>* s s' \<and> reach n s' \<and> stands s' i (Returned False) \<and> running_count s' = 0"
proof -
  have inv: "lifecycle_inv s" by (rule reach_inv) fact
  then have "stopOnce s" using assms(2) by (auto simp: lifecycle_inv_def caller_inv_def stands_def)
  with inv have r: "runCancelled s" and w: "waiter s \<or> stopDone s" by (auto simp: lifecycle_inv_def)
  obtain s1 where s1: "step\<^sup>*\<^sup>* s s1" "stopDone s1" "callers s1 = callers s"
    using w drain_out [OF r] by blast
  let ?s' = "setPoint i (Returned False) s1"
  have "stands s1 i Selecting" using assms(2) s1(3) by (simp add: stands_def)
  then have "step s1 ?s'" using s1(2) by (rule step.return_nil)
  with s1(1) have st: "step\<^sup>*\<^sup>* s ?s'" by (rule rtranclp.rtrancl_into_rtrancl)
  have re: "reach n ?s'" using st assms(1) by (rule reach_step_star)
  have "stands ?s' i (Returned False)" using \<open>stands s1 i Selecting\<close> by (simp add: stands_def setPoint_def)
  moreover have "running_count ?s' = 0" using reach_inv [OF re] s1(2) by (simp add: lifecycle_inv_def setPoint_def)
  ultimately show ?thesis using st re by blast
qed

theorem shutdown_can_finish_witness: "\<exists>s'. step\<^sup>*\<^sup>* draining s' \<and> stands s' 0 (Returned False) \<and> running_count s' = 0"
proof -
  have "stands draining 0 Selecting" by code_simp
  from shutdown_can_finish [OF reach_draining this] show ?thesis by blast
qed

text \<open>
  \<open>Process\<close> starts a usable worker or an error: a missing queue or handler is an error and
  nothing is started; otherwise at least one dispatcher runs whatever concurrency was asked for,
  the stalled-jobs loop runs exactly when its interval is positive, the worker has a name, and its
  wake key lies in the queue's own key space but differs from the marker key it is waited on with.
\<close>

lemma Process_starts_a_worker:
  "does (Process sv ri q hasHandler opts) (\<lambda>r es. calls es = [] \<and> (case r of
       Inl e \<Rightarrow> q = None \<or> hasHandler = False
     | Inr (w, n) \<Rightarrow> (\<exists>q'. q = Some q' \<and> hasHandler \<and> w_keys w = newQueueKeys (q_keys q') \<and>
         1 \<le> wc_concurrency (w_cfg w) \<and> wc_workerName (w_cfg w) \<noteq> [] \<and>
         int n = wc_concurrency (w_cfg w) + (if 0 < wc_stalledInterval (w_cfg w) then 1 else 0) \<and>
         HasPrefix (w_wakeKey w) (Base (q_keys q')) \<and> w_wakeKey w \<noteq> k_marker (w_keys w))))"
proof -
  have warn: "does (warnings ri name cfg) (\<lambda>u es. calls es = [])" for name cfg
    unfolding warnings_def Let_def by (intro does_rules) simp_all
  have nm: "defaultWorkerName ri u \<noteq> []" for u by (simp add: defaultWorkerName_def)
  have key: "HasPrefix (Base (k_builder (newQueueKeys (q_keys q'))) @ ''mkq:wake:'' @ u) (Base (q_keys q')) \<and>
      Base (k_builder (newQueueKeys (q_keys q'))) @ ''mkq:wake:'' @ u \<noteq> k_marker (newQueueKeys (q_keys q'))" for q' u
    by (auto simp: HasPrefix_iff newQueueKeys_def Marker_def)
  show ?thesis
    unfolding Process_def Let_def
    by (intro does_case_option does_if does_return does_bindI does_ask does_weaken [OF warn])
      (use nm key in \<open>auto simp: goroutines_def\<close>)
qed

end
