(* ===== verification/Queue_Add.thy ===== *)
theory Queue_Add
  imports Dispatch
begin

text \<open>
  The producer side (\<open>queue.go\<close>): \<open>Define\<close>, \<open>Add\<close> with its choice of script, and \<open>Get\<close>.
\<close>

definition Version :: string where
  "Version = ''1.5.1''"

definition versionTag :: string where
  "versionTag = ''mkq:'' @ Version"

definition bootstrap :: "('s, 't) services \<Rightarrow> string \<Rightarrow> Queue \<Rightarrow> ('s, unit) act" where
  "bootstrap sv keyPrefix q = do {
     r \<leftarrow> redis sv (Pipeline [HSetNX (Timeout (2 * Second)) (Meta (q_keys q)) ''version'' versionTag,
       SAdd (Timeout (2 * Second)) (queueRegistryKey keyPrefix) (q_name q)]);
     ret ()
   }"

definition Define :: "('s, 't) services \<Rightarrow> string \<Rightarrow> string \<Rightarrow> ('s, Queue) act" where
  "Define sv keyPrefix name = do {
     let q = \<lparr>q_name = name, q_keys = New keyPrefix name\<rparr>;
     bootstrap sv keyPrefix q;
     ret q
   }"

section \<open>Add\<close>

definition dispatch :: "Queue \<Rightarrow> int \<Rightarrow> int \<Rightarrow> string \<times> string list" where
  "dispatch q delayMs priority =
     (let k = q_keys q
      in if delayMs > 0 then
           (AddDelayedJob, [Marker k, Meta k, ID k, Delayed k, Completed k, Events k])
         else if priority > 0 then
           (AddPrioritizedJob, [Marker k, Meta k, ID k, Prioritized k, Delayed k, Completed k, Active k, Events k,
              PriorityCounter k])
         else
           (AddStandardJob, [Wait k, Paused k, Meta k, ID k, Completed k, Delayed k, Active k, Events k, Marker k]))"

text \<open>The checks before anything is sent; \<open>None\<close> lets the call go on.\<close>

definition addGuard :: "addConfig \<Rightarrow> int \<Rightarrow> goerr option" where
  "addGuard cfg delayMs =
     (if delayMs > 0 \<and> ac_priority cfg > 0 then Some (Sentinel ErrPriorityWithDelay)
      else if ac_dedupSet cfg \<and> ac_dedupID cfg = [] then
        Some (PlainErr ''mkq: WithDeduplication / WithUnique id must be non-empty'')
      else if ac_jobNameSet cfg \<and> ac_jobName cfg = [] then
        Some (PlainErr ''mkq: WithJobName name must be non-empty'')
      else None)"

definition addArgs :: "Queue \<Rightarrow> addConfig \<Rightarrow> string \<Rightarrow> int \<Rightarrow> AddArgs" where
  "addArgs q cfg jobName timestampMs =
     \<lparr>aa_Prefix = Base (q_keys q), aa_CustomID = ac_jobID cfg, aa_Name = jobName, aa_Timestamp = timestampMs,
      aa_ParentKey = [], aa_ParentDependencies = [], aa_Parent = None, aa_RepeatJobKey = [],
      aa_DeduplicationKey = (if ac_dedupID cfg \<noteq> [] then Dedup (q_keys q) (ac_dedupID cfg) else [])\<rparr>"

definition preGet :: "('s, 't) services \<Rightarrow> string \<Rightarrow> ('s, string) act" where
  "preGet sv dedupKey =
     (if dedupKey = [] then ret []
      else do { r \<leftarrow> redis sv (GetCmd CallerCtx dedupKey); ret (case r of Inr (GStr v) \<Rightarrow> v | _ \<Rightarrow> []) })"

definition newJob :: "string \<Rightarrow> string \<Rightarrow> 't \<Rightarrow> int \<Rightarrow> 't Job" where
  "newJob jobID jobName payload timestampMs =
     \<lparr>j_ID = jobID, j_Name = jobName, j_Data = payload, j_Timestamp = timestampMs, j_AttemptsMade = 0,
      j_AttemptsStarted = 0, j_StalledCounter = 0, j_ProcessedBy = []\<rparr>"

text \<open>The end of \<open>Add\<close>, from the script's reply on.\<close>

definition addReply ::
  "Queue \<Rightarrow> string \<Rightarrow> 't \<Rightarrow> int \<Rightarrow> string \<Rightarrow> string \<Rightarrow> goerr + gval \<Rightarrow> ('s, 't Job option \<times> goerr option) act" where
  "addReply q jobName payload timestampMs script preDedupID r = (case r of
       Inl err \<Rightarrow> ret (None, Some (errorf (''mkq: '' @ script @ '': '') err))
     | Inr res \<Rightarrow> (case parseAddResult res of
         Inl err \<Rightarrow> ret (None, Some err)
       | Inr jobID \<Rightarrow> do {
           emit (SpanSetAttrs [(AttrJobID, jobID)]);
           let job = newJob jobID jobName payload timestampMs;
           if preDedupID \<noteq> [] \<and> preDedupID = jobID then do {
             emit (SpanSetAttrs [(''mkq.dedup.hit'', ''true'')]);
             ret (Some job, Some (Sentinel ErrDuplicateJob))
           }
           else do {
             emit (CounterAdd MetricJobsAddedTotal 1 [(AttrQueue, q_name q), (AttrJobName, jobName)]);
             ret (Some job, None)
           }
         }))"

text \<open>\<open>Add\<close> from the timestamp on.\<close>

definition addSend ::
  "('s, 't) services \<Rightarrow> Queue \<Rightarrow> addConfig \<Rightarrow> 't \<Rightarrow> string \<Rightarrow> ('s, 't Job option \<times> goerr option) act" where
  "addSend sv q cfg payload dataJSON = do {
     timestampMs \<leftarrow> nowMilli sv;
     let delayMs = Milliseconds (ac_delay cfg);
     let jobName = (if ac_jobName cfg \<noteq> [] then ac_jobName cfg else q_name q);
     emit (SpanSetAttrs [(AttrJobName, jobName)]);
     let args = addArgs q cfg jobName timestampMs;
     (case EncodeAddArgs (sv_marshal sv) args of
        Inl err \<Rightarrow> ret (None, Some (errorf ''mkq: encode args: '' err))
      | Inr argsBytes \<Rightarrow>
     (case EncodeAddOpts (sv_marshal sv) (toProtoOpts cfg delayMs) of
        Inl err \<Rightarrow> ret (None, Some (errorf ''mkq: encode opts: '' err))
      | Inr optsBytes \<Rightarrow> do {
          preDedupID \<leftarrow> preGet sv (aa_DeduplicationKey args);
          let (script, ks) = dispatch q delayMs (ac_priority cfg);
          r \<leftarrow> Run sv CallerCtx script ks [GBytes argsBytes, GBytes dataJSON, GBytes optsBytes];
          addReply q jobName payload timestampMs script preDedupID r
        }))
   }"

definition addBody ::
  "('s, 't) services \<Rightarrow> Queue \<Rightarrow> 't \<Rightarrow> AddOption list \<Rightarrow> ('s, 't Job option \<times> goerr option) act" where
  "addBody sv q payload opts =
     (let cfg = apply_options opts zero_addConfig
      in case addGuard cfg (Milliseconds (ac_delay cfg)) of
           Some err \<Rightarrow> ret (None, Some err)
         | None \<Rightarrow>
         (case sv_marshal_data sv payload of
            Inl err \<Rightarrow> ret (None, Some (errorf ''mkq: marshal payload: '' err))
          | Inr dataJSON \<Rightarrow> addSend sv q cfg payload dataJSON))"

definition Add ::
  "('s, 't) services \<Rightarrow> Queue \<Rightarrow> 't \<Rightarrow> AddOption list \<Rightarrow> ('s, 't Job option \<times> goerr option) act" where
  "Add sv q payload opts = do {
     emit (SpanStart SpanQueueAdd [(AttrQueue, q_name q)]);
     (job, err) \<leftarrow> addBody sv q payload opts;
     (case err of
        Some e \<Rightarrow> if \<not> errors_Is e (Sentinel ErrDuplicateJob) then emit (SpanSetError e) else ret ()
      | None \<Rightarrow> ret ());
     emit SpanEnd;
     ret (job, err)
   }"

section \<open>Get\<close>

text \<open>HGETALL replies with a map, here a list of pairs.\<close>

definition Get :: "('s, 't) services \<Rightarrow> Queue \<Rightarrow> string \<Rightarrow> ('s, goerr + ('t Job \<times> JobState)) act" where
  "Get sv q jobID = do {
     r \<leftarrow> redis sv (HGetAll CallerCtx (JobKey (q_keys q) jobID));
     ret (case r of
         Inl err \<Rightarrow> Inl (errorf (''mkq: HGetAll '' @ jobID @ '': '') err)
       | Inr v \<Rightarrow>
           (case (case v of GArr arr \<Rightarrow> flatHashToMap arr | _ \<Rightarrow> Inr []) of
              Inl err \<Rightarrow> Inl err
            | Inr hash \<Rightarrow>
                if hash = [] then Inl (Sentinel ErrJobNotFound)
                else (case buildJob (sv_zero sv) (sv_unmarshal sv) jobID hash of
                    Inl err \<Rightarrow> Inl err
                  | Inr job \<Rightarrow> Inr (job, buildJobState hash))))
   }"

section \<open>Lemmas\<close>

lemma dispatch_arity: "keyCount (fst (dispatch q d p)) = int (length (snd (dispatch q d p)))"
proof -
  have "keyCount AddDelayedJob = 6" "keyCount AddPrioritizedJob = 9" "keyCount AddStandardJob = 9"
    unfolding script_name_defs by code_simp+
  then show ?thesis by (simp add: dispatch_def Let_def)
qed

text \<open>What \<open>Add\<close> returns for a reply, given what the dedup key held before the call.\<close>

definition addOutcome ::
  "string \<Rightarrow> 't \<Rightarrow> int \<Rightarrow> string \<Rightarrow> string \<Rightarrow> goerr + gval \<Rightarrow> 't Job option \<times> goerr option" where
  "addOutcome jobName payload timestampMs script preDedupID r = (case r of
       Inl err \<Rightarrow> (None, Some (errorf (''mkq: '' @ script @ '': '') err))
     | Inr res \<Rightarrow> (case parseAddResult res of
         Inl err \<Rightarrow> (None, Some err)
       | Inr jobID \<Rightarrow> (Some (newJob jobID jobName payload timestampMs),
           if preDedupID \<noteq> [] \<and> preDedupID = jobID then Some (Sentinel ErrDuplicateJob) else None)))"

definition jobNameOf :: "Queue \<Rightarrow> addConfig \<Rightarrow> string" where
  "jobNameOf q cfg = (if ac_jobName cfg \<noteq> [] then ac_jobName cfg else q_name q)"

definition addCall :: "('s, 't) services \<Rightarrow> Queue \<Rightarrow> addConfig \<Rightarrow> string \<Rightarrow> int \<Rightarrow> event" where
  "addCall sv q cfg dataJSON ts =
     (let delayMs = Milliseconds (ac_delay cfg); (script, ks) = dispatch q delayMs (ac_priority cfg);
          args = MArr [MStr (Base (q_keys q)), MStr (ac_jobID cfg), MStr (jobNameOf q cfg), MInt ts, MNil, MNil, MNil,
            MNil, nilOrString (if ac_dedupID cfg \<noteq> [] then Dedup (q_keys q) (ac_dedupID cfg) else [])]
      in ScriptCall CallerCtx script ks [GBytes (encoded sv args), GBytes dataJSON,
           GBytes (encoded sv (MMap (addOptsMap (toProtoOpts cfg delayMs))))])"

definition strReply :: "goerr + gval \<Rightarrow> string" where
  "strReply r = (case r of Inr (GStr v) \<Rightarrow> v | _ \<Rightarrow> [])"

lemma does_preGet:
  assumes "\<And>pre es. obs es = [] \<Longrightarrow> replies es = [] \<Longrightarrow> (k = [] \<Longrightarrow> pre = []) \<Longrightarrow>
     (k \<noteq> [] \<Longrightarrow> \<exists>rep. Cmd (GetCmd CallerCtx k) rep \<in> set es \<and> pre = strReply rep) \<Longrightarrow> Q pre es"
  shows "does (preGet sv k) Q"
  unfolding preGet_def using assms by (intro does_rules) (auto simp: strReply_def)

lemma does_addReply:
  assumes "\<And>es. calls es = [] \<Longrightarrow> replies es = [] \<Longrightarrow>
      (snd (addOutcome jobName payload ts script pre r) = None \<Longrightarrow>
         counted es = [CounterAdd MetricJobsAddedTotal 1 [(AttrQueue, q_name q), (AttrJobName, jobName)]]) \<Longrightarrow>
      (snd (addOutcome jobName payload ts script pre r) \<noteq> None \<Longrightarrow> counted es = []) \<Longrightarrow>
      Q (addOutcome jobName payload ts script pre r) es"
  shows "does (addReply q jobName payload ts script pre r) Q"
  using assms unfolding addReply_def addOutcome_def Let_def
  by (intro does_rules) (auto split: sum.splits if_splits)

text \<open>The script the documentation of \<open>Add\<close> names for a delay in milliseconds and a priority.\<close>

definition pickedScript :: "int \<Rightarrow> int \<Rightarrow> string" where
  "pickedScript delayMs priority =
     (if delayMs > 0 then AddDelayedJob else if priority > 0 then AddPrioritizedJob else AddStandardJob)"

definition addPost ::
  "('s, 't) services \<Rightarrow> Queue \<Rightarrow> addConfig \<Rightarrow> 't \<Rightarrow> string \<Rightarrow> 't Job option \<times> goerr option \<Rightarrow> event list \<Rightarrow> bool" where
  "addPost sv q cfg payload dataJSON res es \<longleftrightarrow>
     (let script = pickedScript (Milliseconds (ac_delay cfg)) (ac_priority cfg) in \<exists>ts pre r.
        keyCount script = int (length (snd (dispatch q (Milliseconds (ac_delay cfg)) (ac_priority cfg)))) \<and>
        calls es = [addCall sv q cfg dataJSON ts] \<and> replies es = [(script, r)] \<and>
        res = addOutcome (jobNameOf q cfg) payload ts script pre r \<and>
        (if ac_dedupID cfg = [] then pre = []
         else \<exists>rep. Cmd (GetCmd CallerCtx (Dedup (q_keys q) (ac_dedupID cfg))) rep \<in> set es \<and> pre = strReply rep) \<and>
        counted es = (if snd res = None
          then [CounterAdd MetricJobsAddedTotal 1 [(AttrQueue, q_name q), (AttrJobName, jobNameOf q cfg)]] else []))"

lemma dispatch_pick: "fst (dispatch q delayMs priority) = pickedScript delayMs priority"
  by (simp add: dispatch_def pickedScript_def Let_def)

lemma picked_arity: "keyCount (pickedScript delayMs priority) = int (length (snd (dispatch q delayMs priority)))"
  using dispatch_arity [of q delayMs priority] by (simp add: dispatch_pick)

lemma addPostI:
  assumes "obs eget = []" "replies eget = []"
    "if ac_dedupID cfg = [] then pre = []
     else \<exists>rep. Cmd (GetCmd CallerCtx (Dedup (q_keys q) (ac_dedupID cfg))) rep \<in> set eget \<and> pre = strReply rep"
    "obs erun = [addCall sv q cfg dataJSON ts]" "replies erun = [(script, r)]"
    "script = pickedScript (Milliseconds (ac_delay cfg)) (ac_priority cfg)"
    "calls eend = []" "replies eend = []"
    "counted eend = (if snd (addOutcome (jobNameOf q cfg) payload ts script pre r) = None
       then [CounterAdd MetricJobsAddedTotal 1 [(AttrQueue, q_name q), (AttrJobName, jobNameOf q cfg)]] else [])"
  shows "addPost sv q cfg payload dataJSON (addOutcome (jobNameOf q cfg) payload ts script pre r)
    (SpanSetAttrs a # eget @ erun @ eend)"
  unfolding addPost_def Let_def
proof (intro exI [of _ ts] exI [of _ pre] exI [of _ r] conjI)
  have c: "\<exists>n ks as. addCall sv q cfg dataJSON ts = ScriptCall CallerCtx n ks as"
    by (simp add: addCall_def Let_def split: prod.split)
  then have p: "calls eget = []" "counted eget = []" "calls erun = [addCall sv q cfg dataJSON ts]" "counted erun = []"
    using proj_of_obs [OF assms(1)] proj_of_obs [OF assms(4)] by auto
  show "calls (SpanSetAttrs a # eget @ erun @ eend) = [addCall sv q cfg dataJSON ts]"
    using p assms(7) by simp
  show "counted (SpanSetAttrs a # eget @ erun @ eend) = (if snd (addOutcome (jobNameOf q cfg) payload ts script pre r) = None
       then [CounterAdd MetricJobsAddedTotal 1 [(AttrQueue, q_name q), (AttrJobName, jobNameOf q cfg)]] else [])"
    using p assms(9) by simp
  show "if ac_dedupID cfg = [] then pre = [] else \<exists>rep. Cmd (GetCmd CallerCtx (Dedup (q_keys q) (ac_dedupID cfg))) rep
      \<in> set (SpanSetAttrs a # eget @ erun @ eend) \<and> pre = strReply rep"
    using assms(3) by (auto split: if_splits)
qed (use assms in \<open>simp_all add: picked_arity\<close>)

lemma addPost_span:
  assumes "addPost sv q cfg payload dataJSON res es" "calls sp = []" "replies sp = []" "counted sp = []"
    "calls sp' = []" "replies sp' = []" "counted sp' = []"
  shows "addPost sv q cfg payload dataJSON res (sp @ es @ sp')"
  using assms(1) unfolding addPost_def Let_def
  by (elim exE, intro exI) (use assms(2-) in auto)

lemma addSend_post:
  assumes m: "marshal_total sv"
  shows "does (addSend sv q cfg payload dataJSON) (addPost sv q cfg payload dataJSON)"
proof -
  let ?ms = "Milliseconds (ac_delay cfg)" and ?nm = "jobNameOf q cfg"
  obtain script ks where sc: "dispatch q ?ms (ac_priority cfg) = (script, ks)" by fastforce
  have picked: "script = pickedScript ?ms (ac_priority cfg)"
    using sc dispatch_pick [of q ?ms "ac_priority cfg"] by simp
  have enc: "sv_marshal sv v = Inr (encoded sv v)" for v using m by (simp add: marshal_total_def)
  have dk: "Dedup (q_keys q) (ac_dedupID cfg) \<noteq> []" by (simp add: Dedup_def)
  have args: "EncodeAddArgs (sv_marshal sv) (addArgs q cfg ?nm ts) = Inr (encoded sv (MArr
       [MStr (Base (q_keys q)), MStr (ac_jobID cfg), MStr ?nm, MInt ts, MNil, MNil, MNil, MNil,
        nilOrString (if ac_dedupID cfg \<noteq> [] then Dedup (q_keys q) (ac_dedupID cfg) else [])]))" for ts
    by (simp add: EncodeAddArgs_def addArgs_def enc parentToAny_def nilOrString_def)
  have call: "ScriptCall CallerCtx script ks [GBytes (encoded sv (MArr
       [MStr (Base (q_keys q)), MStr (ac_jobID cfg), MStr ?nm, MInt ts, MNil, MNil, MNil, MNil,
        nilOrString (if ac_dedupID cfg \<noteq> [] then Dedup (q_keys q) (ac_dedupID cfg) else [])])), GBytes dataJSON,
        GBytes (encoded sv (MMap (addOptsMap (toProtoOpts cfg ?ms))))] = addCall sv q cfg dataJSON ts" for ts
    by (simp add: addCall_def sc Let_def)
  have dedup: "aa_DeduplicationKey (addArgs q cfg ?nm ts) = (if ac_dedupID cfg \<noteq> [] then Dedup (q_keys q) (ac_dedupID cfg) else [])" for ts
    by (simp add: addArgs_def)
  show ?thesis
    unfolding addSend_def Let_def jobNameOf_def [symmetric] args EncodeAddOpts_def enc sum.case sc prod.case dedup
    apply (intro does_bindI does_nowMilli does_emit does_preGet does_Run does_addReply)
    unfolding call append_Nil append_Cons
    apply (rule addPostI)
            apply (auto simp: dk picked split: if_splits)
    done
qed

lemma Add_post:
  assumes cfg: "cfg = apply_options opts zero_addConfig" and m: "marshal_total sv"
    and d: "sv_marshal_data sv payload = Inr dataJSON"
    and g: "addGuard cfg (Milliseconds (ac_delay cfg)) = None"
  shows "does (Add sv q payload opts) (addPost sv q cfg payload dataJSON)"
  unfolding Add_def addBody_def cfg [symmetric] Let_def g d option.case sum.case
  by (intro does_bindI does_emit does_weaken [OF addSend_post [OF m]] does_case_prod does_case_option does_if does_return)
    (rule addPost_span; simp)+

section \<open>Properties\<close>

text \<open>
  C13: An \<open>Add\<close> whose options pass the checks makes exactly one script call: to the script for
  delayed jobs when the delay has a whole millisecond, else to the one for prioritized jobs when
  there is a priority, else to the standard one, with the KEYS \<open>dispatch\<close> lists for it, as many as
  the script declares.  The three ARGV are the encoded argument tuple, the payload and the encoded
  options.  Its results are a function of the reply and of what the dedup key held before the call
  (nothing, when no deduplication was asked for), and the added-jobs counter moves exactly when no
  error is returned.
\<close>

theorem Add_makes_one_call:
  assumes cfg: "cfg = apply_options opts zero_addConfig" and m: "marshal_total sv"
    and d: "sv_marshal_data sv payload = Inr dataJSON"
    and g: "addGuard cfg (Milliseconds (ac_delay cfg)) = None"
  shows "does (Add sv q payload opts) (addPost sv q cfg payload dataJSON)"
  using assms by (rule Add_post)

text \<open>
  C38: Options that contradict each other are refused before anything is sent: a delay of a
  millisecond or more together with a priority, else a deduplication id that was set to the empty
  string, else a job name that was set to the empty string make \<open>Add\<close> return that very error and no
  job; nothing is sent to Redis, and the error is recorded on the span.
\<close>

theorem Add_refuses_bad_options:
  assumes cfg: "cfg = apply_options opts zero_addConfig"
    and bad: "ac_delay cfg \<ge> Millisecond \<and> ac_priority cfg > 0 \<or> ac_dedupSet cfg \<and> ac_dedupID cfg = [] \<or>
      ac_jobNameSet cfg \<and> ac_jobName cfg = []"
    and e: "e = (if ac_delay cfg \<ge> Millisecond \<and> ac_priority cfg > 0 then Sentinel ErrPriorityWithDelay
      else if ac_dedupSet cfg \<and> ac_dedupID cfg = [] then PlainErr ''mkq: WithDeduplication / WithUnique id must be non-empty''
      else PlainErr ''mkq: WithJobName name must be non-empty'')"
  shows "does (Add sv q payload opts) (\<lambda>res es. res = (None, Some e) \<and>
     es = [SpanStart SpanQueueAdd [(AttrQueue, q_name q)], SpanSetError e, SpanEnd])"
proof -
  have "addGuard cfg (Milliseconds (ac_delay cfg)) = Some e"
    using bad by (auto simp: addGuard_def e Milliseconds_pos)
  moreover have "\<not> errors_Is e (Sentinel ErrDuplicateJob)" by (simp add: e)
  ultimately show ?thesis
    unfolding Add_def addBody_def cfg [symmetric] Let_def
    by (auto intro!: does_bindI does_emit does_return)
qed

end
