(* ===== verification/Client.thy ===== *)
theory Client
  imports Queue_Add "HOL-Library.Char_ord" "HOL-Library.List_Lexorder"
begin

text \<open>
  \<open>mkq.go\<close>: connecting a client, the registry of defined queues, and the discovery of the queues
  that are present in Redis under the client's key prefix.  The connection pool is the
  driver's: its release is the command \<open>CloseConn\<close>.  A cluster client is one with a number of master
  nodes.
\<close>

section \<open>The client\<close>

record Config =
  cf_Addrs :: "string list"
  cf_PoolSize :: int
  cf_KeyPrefix :: string

record Client =
  c_keyPrefix :: string
  c_configuredPoolSize :: int
  c_masters :: "nat option" \<comment> \<open>\<open>Some n\<close>: a cluster with \<open>n\<close> masters\<close>

definition defaultKeyPrefix :: string where
  "defaultKeyPrefix = ''bull''"

definition closeConn :: "('s, 't) services \<Rightarrow> ('s, goerr option) act" where
  "closeConn sv = do { r \<leftarrow> redis sv CloseConn; ret (case r of Inl err \<Rightarrow> Some err | Inr _ \<Rightarrow> None) }"

definition NewClient :: "('s, 't) services \<Rightarrow> nat option \<Rightarrow> Config \<Rightarrow> ('s, goerr + Client) act" where
  "NewClient sv masters cfg =
     (if cf_Addrs cfg = [] then ret (Inl (PlainErr ''mkq: Config.Redis.Addrs is required''))
      else do {
        p \<leftarrow> redis sv (Ping CallerCtx);
        (case p of
           Inl err \<Rightarrow> do { closeConn sv; ret (Inl (errorf ''mkq: redis ping: '' err)) }
         | Inr _ \<Rightarrow> do {
             e \<leftarrow> NewScripter sv CallerCtx;
             (case e of
                 Some err \<Rightarrow> do { closeConn sv; ret (Inl (errorf ''mkq: load scripts: '' err)) }
               | None \<Rightarrow> ret (Inr \<lparr>c_keyPrefix = (if cf_KeyPrefix cfg = [] then defaultKeyPrefix else cf_KeyPrefix cfg),
                   c_configuredPoolSize = cf_PoolSize cfg, c_masters = masters\<rparr>))
           })
      })"

definition closeClient :: "('s, 't) services \<Rightarrow> ('s, goerr option) act" where
  "closeClient sv = closeConn sv"

text \<open>The strings of a reply the driver types as \<open>[]string\<close>.\<close>

fun strings :: "gval list \<Rightarrow> string list" where
  "strings [] = []"
| "strings (GStr s # vs) = s # strings vs"
| "strings (_ # vs) = strings vs"

definition replyStrings :: "gval \<Rightarrow> string list" where
  "replyStrings v = (case v of GArr vs \<Rightarrow> strings vs | _ \<Rightarrow> [])"

definition Queues :: "('s, 't) services \<Rightarrow> Client \<Rightarrow> ('s, goerr + string list) act" where
  "Queues sv c = do {
     r \<leftarrow> redis sv (SMembers CallerCtx (queueRegistryKey (c_keyPrefix c)));
     ret (case r of
         Inl err \<Rightarrow> Inl (errorf (''mkq: SMembers '' @ queueRegistryKey (c_keyPrefix c) @ '': '') err)
       | Inr v \<Rightarrow> Inr (replyStrings v))
   }"

section \<open>Discovery\<close>

record discoverConfig =
  dv_count :: int

type_synonym DiscoverOption = "discoverConfig \<Rightarrow> discoverConfig"

definition WithDiscoverCount :: "int \<Rightarrow> DiscoverOption" where
  "WithDiscoverCount n c = (if n > 0 then c\<lparr>dv_count := n\<rparr> else c)"

definition defaultDiscoverCount :: int where
  "defaultDiscoverCount = 100"

text \<open>
  A SCAN reply: the next cursor and the keys.  A node answers on its own; a client that is no
  cluster has node 0 only.
\<close>

definition scanReply :: "gval \<Rightarrow> string list \<times> nat" where
  "scanReply v = (case v of
       GArr [GStr next, GArr ks] \<Rightarrow> (strings ks, case digits_val 0 next of Some n \<Rightarrow> n | None \<Rightarrow> 0)
     | _ \<Rightarrow> ([], 0))"

text \<open>One round of the loop of \<open>scanNode\<close>; its variables are \<open>out\<close> and \<open>cursor\<close>.\<close>

definition scanBody ::
  "('s, 't) services \<Rightarrow> nat \<Rightarrow> string \<Rightarrow> int \<Rightarrow> string list \<times> nat \<Rightarrow>
     ('s, (string list \<times> nat) + (goerr + string list)) act" where
  "scanBody sv node pattern count l = do {
     r \<leftarrow> redis sv (ScanCmd CallerCtx node (snd l) pattern count);
     ret (case r of
         Inl err \<Rightarrow> Inr (Inl err)
       | Inr v \<Rightarrow> (case scanReply v of (ks, next) \<Rightarrow>
           if next = 0 then Inr (Inr (fst l @ ks)) else Inl (fst l @ ks, next)))
   }"

definition scanNode ::
  "('s, 't) services \<Rightarrow> nat \<Rightarrow> nat \<Rightarrow> string \<Rightarrow> int \<Rightarrow> ('s, (goerr + string list) option) act" where
  "scanNode sv fuel node pattern count = loop fuel (scanBody sv node pattern count) ([], 0)"

text \<open>
  \<open>ForEachMaster\<close> scans the masters concurrently; here one after the other, since what the nodes
  answer does not depend on the order and the caller sorts the result.
\<close>

fun scanMasters ::
  "('s, 't) services \<Rightarrow> nat \<Rightarrow> nat list \<Rightarrow> string \<Rightarrow> int \<Rightarrow> ('s, (goerr + string list) option) act" where
  "scanMasters sv fuel [] pattern count = ret (Some (Inr []))"
| "scanMasters sv fuel (node # nodes) pattern count = do {
     r \<leftarrow> scanNode sv fuel node pattern count;
     (case r of
        None \<Rightarrow> ret None
      | Some (Inl err) \<Rightarrow> ret (Some (Inl err))
      | Some (Inr ks) \<Rightarrow> do {
          rest \<leftarrow> scanMasters sv fuel nodes pattern count;
          ret (map_option (map_sum id (\<lambda>ks'. ks @ ks')) rest)
        })
   }"

definition scanAll ::
  "('s, 't) services \<Rightarrow> Client \<Rightarrow> nat \<Rightarrow> string \<Rightarrow> int \<Rightarrow> ('s, (goerr + string list) option) act" where
  "scanAll sv c fuel pattern count = do {
     r \<leftarrow> (case c_masters c of
         Some n \<Rightarrow> scanMasters sv fuel [0..<n] pattern count
       | None \<Rightarrow> scanNode sv fuel 0 pattern count);
     ret (map_option (map_sum (errorf (''mkq: scan '' @ pattern @ '': '')) id) r)
   }"

definition metaMarkerFields :: "string list" where
  "metaMarkerFields = [''version'', ''opts.maxLenEvents'', ''paused'']"

definition isWrongType :: "goerr option \<Rightarrow> bool" where
  "isWrongType err = (case err of None \<Rightarrow> False | Some e \<Rightarrow> HasPrefix (err_text e) ''WRONGTYPE'')"

definition hasMarker :: "gval \<Rightarrow> bool" where
  "hasMarker v = (case v of GArr vs \<Rightarrow> list_ex (\<lambda>x. x \<noteq> GNil) vs | _ \<Rightarrow> False)"

text \<open>The loop of \<open>keepQueueMeta\<close> over the commands, from index \<open>i\<close> on.\<close>

fun keptFrom :: "goerr + gval \<Rightarrow> nat \<Rightarrow> string list \<Rightarrow> goerr + string list" where
  "keptFrom r i [] = Inr []"
| "keptFrom r i (k # ks) =
     (case cmdResult r i of
        Inl err \<Rightarrow>
          if isWrongType (Some err) then keptFrom r (Suc i) ks
          else Inl (errorf ''mkq: discover queues: '' err)
      | Inr v \<Rightarrow> map_sum id (\<lambda>out. if hasMarker v then k # out else out) (keptFrom r (Suc i) ks))"

definition keepQueueMeta :: "('s, 't) services \<Rightarrow> string list \<Rightarrow> ('s, goerr + string list) act" where
  "keepQueueMeta sv ks =
     (if ks = [] then ret (Inr [])
      else do {
        r \<leftarrow> redis sv (Pipeline (map (\<lambda>k. HMGet CallerCtx k metaMarkerFields) ks));
        ret (if execErr r \<noteq> None \<and> \<not> isWrongType (execErr r)
          then Inl (errorf ''mkq: discover queues: '' (the (execErr r)))
          else keptFrom r 0 ks)
      })"

text \<open>The names of the kept keys, in which \<open>queueNameFromMetaKey\<close> may panic.\<close>

fun metaNames :: "string \<Rightarrow> string list \<Rightarrow> string list outcome" where
  "metaNames p [] = Returns []"
| "metaNames p (k # ks) =
     (case queueNameFromMetaKey p k of
        Panics m \<Rightarrow> Panics m
      | Returns n \<Rightarrow> (case metaNames p ks of
          Panics m \<Rightarrow> Panics m
        | Returns ns \<Rightarrow> Returns (case n of None \<Rightarrow> ns | Some name \<Rightarrow> name # ns)))"

definition DiscoverQueues ::
  "('s, 't) services \<Rightarrow> Client \<Rightarrow> nat \<Rightarrow> DiscoverOption list \<Rightarrow> ('s, (goerr + string list) outcome option) act" where
  "DiscoverQueues sv c fuel opts =
     (let cfg = apply_options opts \<lparr>dv_count = defaultDiscoverCount\<rparr> in do {
        r \<leftarrow> scanAll sv c fuel (discoverPattern (c_keyPrefix c)) (dv_count cfg);
        (case r of
           None \<Rightarrow> ret None
         | Some (Inl err) \<Rightarrow> ret (Some (Returns (Inl err)))
         | Some (Inr ks) \<Rightarrow> do {
             m \<leftarrow> keepQueueMeta sv ks;
             ret (Some (case m of
                 Inl err \<Rightarrow> Returns (Inl err)
               | Inr kept \<Rightarrow> (case metaNames (c_keyPrefix c) kept of
                   Panics msg \<Rightarrow> Panics msg
                 | Returns names \<Rightarrow> Returns (Inr (sort (remdups names))))))
           })
      })"

section \<open>Lemmas: SCAN\<close>

text \<open>The keys the SCAN replies of a trace brought.\<close>

fun scanned :: "event list \<Rightarrow> string list" where
  "scanned [] = []"
| "scanned (Cmd (ScanCmd c node cur p n) (Inr v) # es) = fst (scanReply v) @ scanned es"
| "scanned (e # es) = scanned es"

lemma scanned_append [simp]: "scanned (es @ es') = scanned es @ scanned es'"
  by (induction es rule: scanned.induct) simp_all

text \<open>
  What SCAN promises: only keys that match the pattern, and a cursor that comes to its end (the
  rank stands for the distance left).
\<close>

definition scan_matches :: "('s, 't) services \<Rightarrow> (string \<Rightarrow> string \<Rightarrow> bool) \<Rightarrow> bool" where
  "scan_matches sv gmatch \<longleftrightarrow> (\<forall>c node cur p n s v. fst (sv_redis sv (ScanCmd c node cur p n) s) = Inr v \<longrightarrow>
     list_all (gmatch p) (fst (scanReply v)))"

definition scan_advances :: "('s, 't) services \<Rightarrow> (nat \<Rightarrow> nat) \<Rightarrow> bool" where
  "scan_advances sv rank \<longleftrightarrow> (\<forall>c node cur p n s v. fst (sv_redis sv (ScanCmd c node cur p n) s) = Inr v \<longrightarrow>
     snd (scanReply v) = 0 \<or> rank (snd (scanReply v)) < rank cur)"

lemma scan_advancesD:
  assumes "scan_advances sv rank" "fst (sv_redis sv (ScanCmd c node cur p n) s) = Inr v" "scanReply v = (ks, next)" "next \<noteq> 0"
  shows "rank next < rank cur"
proof -
  have "snd (scanReply v) = 0 \<or> rank (snd (scanReply v)) < rank cur"
    using assms(1,2) unfolding scan_advances_def by blast
  with assms(3,4) show ?thesis by simp
qed

lemma scan_matchesD:
  assumes "scan_matches sv gmatch" "fst (sv_redis sv (ScanCmd c node cur p n) s) = Inr v" "scanReply v = (ks, next)"
  shows "list_all (gmatch p) ks"
proof -
  have "list_all (gmatch p) (fst (scanReply v))"
    using assms(1,2) unfolding scan_matches_def by blast
  with assms(3) show ?thesis by simp
qed

lemma does_scanBody:
  assumes "\<And>s. let r = fst (sv_redis sv (ScanCmd CallerCtx node (snd l) pattern count) s) in
     Q (case r of Inl err \<Rightarrow> Inr (Inl err) | Inr v \<Rightarrow> (case scanReply v of (ks, next) \<Rightarrow>
          if next = 0 then Inr (Inr (fst l @ ks)) else Inl (fst l @ ks, next)))
       [Cmd (ScanCmd CallerCtx node (snd l) pattern count) r]"
  shows "does (scanBody sv node pattern count l) Q"
  unfolding scanBody_def using assms by (intro does_bindI does_redis_val does_return) (simp add: Let_def)

interpretation scan_loop: bounded_loop "scanBody sv node pattern count" "\<lambda>l w. scan_advances sv rank"
  "\<lambda>l. rank (snd l)" for sv node pattern count rank
proof unfold_locales
  fix l l' w w'
  assume a: "scan_advances sv rank" and "run_state (scanBody sv node pattern count l) w = (Inl l', w')"
  moreover have "does (scanBody sv node pattern count l) (\<lambda>r es. \<forall>l'. r = Inl l' \<longrightarrow> rank (snd l') < rank (snd l))"
    using a by (intro does_scanBody) (auto simp: Let_def dest: scan_advancesD split: sum.splits prod.splits if_splits)
  ultimately show "scan_advances sv rank \<and> rank (snd l') < rank (snd l)"
    by (cases l') (auto elim!: doesD)
qed

definition scanPost :: "(string \<Rightarrow> bool) \<Rightarrow> goerr + string list \<Rightarrow> event list \<Rightarrow> bool" where
  "scanPost P r es \<longleftrightarrow> (case r of Inl e \<Rightarrow> True | Inr ks \<Rightarrow> ks = scanned es \<and> list_all P ks)"

lemma scanNode_post:
  assumes m: "scan_matches sv gmatch" and a: "scan_advances sv rank" and f: "rank 0 < fuel"
  shows "does (scanNode sv fuel node pattern count) (\<lambda>r es. r \<noteq> None \<and>
     (case r of None \<Rightarrow> True | Some x \<Rightarrow> scanPost (gmatch pattern) x es))"
proof (rule does_returns)
  show "\<exists>r w'. run_state (scanNode sv fuel node pattern count) w = (Some r, w')" for w
    unfolding scanNode_def by (rule scan_loop.loop_returns [OF a]) (simp add: f)
  let ?J = "\<lambda>l es. fst l = scanned es \<and> list_all (gmatch pattern) (fst l)"
  have "does (loop fuel (scanBody sv node pattern count) ([], 0))
      (\<lambda>r es. case r of None \<Rightarrow> True | Some x \<Rightarrow> scanPost (gmatch pattern) x ([] @ es))"
  proof (rule does_loop [where J = ?J])
    fix l :: "string list \<times> nat" and es
    assume "?J l es"
    then show "does (scanBody sv node pattern count l)
        (\<lambda>r es'. case r of Inl l' \<Rightarrow> ?J l' (es @ es') | Inr x \<Rightarrow> scanPost (gmatch pattern) x (es @ es'))"
      by (intro does_scanBody) (auto simp: Let_def scanPost_def dest: scan_matchesD [OF m] split: sum.splits prod.splits)
  qed simp
  then show "does (scanNode sv fuel node pattern count)
      (\<lambda>r es. case r of None \<Rightarrow> True | Some x \<Rightarrow> scanPost (gmatch pattern) x es)"
    by (simp add: scanNode_def cong: option.case_cong)
qed

lemma scanMasters_post:
  assumes "scan_matches sv gmatch" "scan_advances sv rank" "rank 0 < fuel"
  shows "does (scanMasters sv fuel nodes pattern count) (\<lambda>r es. r \<noteq> None \<and>
     (case r of None \<Rightarrow> True | Some x \<Rightarrow> scanPost (gmatch pattern) x es))"
proof (induction nodes)
  case Nil
  then show ?case by (auto intro!: does_return simp: scanPost_def)
next
  case (Cons node nodes)
  show ?case
    unfolding scanMasters.simps
    by (intro does_bindI does_weaken [OF scanNode_post [OF assms]] does_case_option does_case_sum does_return
        does_weaken [OF Cons.IH]) (auto simp: scanPost_def split: sum.splits option.splits)
qed

lemma scanAll_post:
  assumes "scan_matches sv gmatch" "scan_advances sv rank" "rank 0 < fuel"
  shows "does (scanAll sv c fuel pattern count) (\<lambda>r es. r \<noteq> None \<and>
     (case r of None \<Rightarrow> True | Some x \<Rightarrow> scanPost (gmatch pattern) x es))"
  unfolding scanAll_def
  by (intro does_bindI does_case_option does_return does_weaken [OF scanNode_post [OF assms]]
      does_weaken [OF scanMasters_post [OF assms]]) (auto simp: scanPost_def split: sum.splits)

section \<open>Lemmas: from keys to names\<close>

text \<open>The keys whose command of the pipeline found one of the marker fields.\<close>

definition markedAt :: "goerr + gval \<Rightarrow> nat \<Rightarrow> bool" where
  "markedAt r i = (case cmdResult r i of Inl e \<Rightarrow> False | Inr v \<Rightarrow> hasMarker v)"

definition metaKeys :: "goerr + gval \<Rightarrow> string list \<Rightarrow> string list" where
  "metaKeys r ks = map snd (filter (\<lambda>(i, k). markedAt r i) (enumerate 0 ks))"

lemma keptFrom_marked: "keptFrom r i ks = Inr out \<Longrightarrow> out = map snd (filter (\<lambda>(i, k). markedAt r i) (enumerate i ks))"
proof (induction r i ks arbitrary: out rule: keptFrom.induct)
  case (2 r i k ks)
  then show ?case
    by (cases "keptFrom r (Suc i) ks") (auto simp: markedAt_def split: sum.splits if_splits)
qed simp

lemma metaKeys_subset: "set (metaKeys r ks) \<subseteq> set ks"
proof -
  have "set (metaKeys r ks) \<subseteq> set (map snd (enumerate 0 ks))" unfolding metaKeys_def set_map by (intro image_mono) auto
  then show ?thesis by (simp only: map_snd_enumerate)
qed

lemma metaNames_shaped:
  assumes "\<forall>k \<in> set ks. \<exists>mid. k = p @ '':'' @ mid @ '':meta''"
  shows "\<exists>names. metaNames p ks = Returns names \<and>
    (\<forall>name. name \<in> set names \<longleftrightarrow> name \<noteq> [] \<and> p @ '':'' @ name @ '':meta'' \<in> set ks)"
  using assms
proof (induction ks)
  case (Cons k ks)
  then obtain mid names where "k = p @ '':'' @ mid @ '':meta''" "metaNames p ks = Returns names"
    "\<forall>name. name \<in> set names \<longleftrightarrow> name \<noteq> [] \<and> p @ '':'' @ name @ '':meta'' \<in> set ks" by auto
  with queueNameFromMetaKey_split [of p mid] show ?case by auto
qed simp

text \<open>
  What a list of names reports: sorted, without repetitions, and exactly the names whose meta key
  was brought by SCAN and found marked by the pipeline over the scanned keys that ends the trace.
\<close>

definition discovered :: "string \<Rightarrow> string list \<Rightarrow> event list \<Rightarrow> bool" where
  "discovered p names es \<longleftrightarrow> sorted names \<and> distinct names \<and>
     (\<exists>r. (scanned es = [] \<or> last es = Cmd (Pipeline (map (\<lambda>k. HMGet CallerCtx k metaMarkerFields) (scanned es))) r) \<and>
        (\<forall>name. name \<in> set names \<longleftrightarrow> name \<noteq> [] \<and> p @ '':'' @ name @ '':meta'' \<in> set (metaKeys r (scanned es))))"

lemma discovered_names:
  assumes "scanned es = ks" "\<forall>k \<in> set ks. \<exists>mid. k = p @ '':'' @ mid @ '':meta''"
    "ks = [] \<or> last es = Cmd (Pipeline (map (\<lambda>k. HMGet CallerCtx k metaMarkerFields) ks)) r"
    "kept = metaKeys r ks"
  shows "\<exists>names. metaNames p kept = Returns names \<and> discovered p (sort (remdups names)) es"
proof -
  have "\<forall>k \<in> set kept. \<exists>mid. k = p @ '':'' @ mid @ '':meta''"
    using assms(2) subsetD [OF metaKeys_subset [of r ks]] unfolding assms(4) by blast
  from metaNames_shaped [OF this] obtain names where n: "metaNames p kept = Returns names"
    "\<forall>name. name \<in> set names \<longleftrightarrow> name \<noteq> [] \<and> p @ '':'' @ name @ '':meta'' \<in> set kept" by blast
  have "discovered p (sort (remdups names)) es"
    unfolding discovered_def using n(2) assms(1,3,4) by (intro conjI exI [of _ r]) simp_all
  with n(1) show ?thesis by blast
qed

lemma does_keepQueueMeta:
  assumes "\<And>r. ks \<noteq> [] \<Longrightarrow> Q (Inr (metaKeys r ks)) [Cmd (Pipeline (map (\<lambda>k. HMGet CallerCtx k metaMarkerFields) ks)) r]"
    "ks = [] \<Longrightarrow> Q (Inr []) []"
    "\<And>e r. ks \<noteq> [] \<Longrightarrow> Q (Inl e) [Cmd (Pipeline (map (\<lambda>k. HMGet CallerCtx k metaMarkerFields) ks)) r]"
  shows "does (keepQueueMeta sv ks) Q"
proof -
  have "Q (keptFrom r 0 ks) [Cmd (Pipeline (map (\<lambda>k. HMGet CallerCtx k metaMarkerFields) ks)) r]" if "ks \<noteq> []" for r
    using that assms(1) [of r] assms(3) [of _ r] keptFrom_marked [of r 0 ks]
    by (cases "keptFrom r 0 ks") (auto simp: metaKeys_def)
  with assms show ?thesis unfolding keepQueueMeta_def by (intro does_rules) auto
qed

text \<open>The releases of the connection pool in a trace.\<close>

fun closings :: "event list \<Rightarrow> nat" where
  "closings [] = 0"
| "closings (Cmd CloseConn r # es) = Suc (closings es)"
| "closings (e # es) = closings es"

lemma closings_append [simp]: "closings (es @ es') = closings es + closings es'"
  by (induction es rule: closings.induct) simp_all

lemma does_preload: "(\<And>r es. closings es = 0 \<Longrightarrow> Q r es) \<Longrightarrow> does (preload sv c names) Q"
proof (induction names arbitrary: Q)
  case Nil
  then show ?case by (auto intro!: does_rules)
next
  case (Cons name names)
  have "does (load sv c name) (\<lambda>r es. closings es = 0)"
    unfolding load_def upload_def by (intro does_rules) simp_all
  then show ?case
    unfolding preload.simps by (rule does_bind) (auto intro!: does_rules Cons.IH Cons.prems)
qed

lemma does_closeConn: "(\<And>e r. Q e [Cmd CloseConn r]) \<Longrightarrow> does (closeConn sv) Q"
  unfolding closeConn_def by (intro does_rules) simp

lemma NewClient_connection:
  "does (NewClient sv masters cfg) (\<lambda>r es. closings es = (case r of Inr _ \<Rightarrow> 0 | Inl _ \<Rightarrow> if cf_Addrs cfg = [] then 0 else 1) \<and>
     (case r of Inr _ \<Rightarrow> True | Inl _ \<Rightarrow> es = [] \<or> (\<exists>cr. last es = Cmd CloseConn cr)))"
  unfolding NewClient_def NewScripter_def
  by (intro does_rules does_closeConn does_preload) auto

lemma NewClient_table:
  assumes "run_state (NewClient sv masters cfg) w = (Inr c, w')"
  shows "set preloadNames \<subseteq> dom (map_of (loaded w'))"
proof -
  from assms obtain w1 where "run_state (preload sv CallerCtx preloadNames) w1 = (None, w')"
    by (auto simp: NewClient_def NewScripter_def split: if_splits prod.splits sum.splits option.splits)
  from preload_table [OF this] show ?thesis by simp
qed

section \<open>Properties\<close>

text \<open>
  C15: \<open>DiscoverQueues\<close> reports the queues that are there.  When SCAN returns only keys that match its
  pattern and its cursor comes to an end, on every master, the call returns and does not panic; the
  names it returns are sorted and without repetitions, and they are exactly the non-empty names
  whose meta key SCAN brought and in which one of the marker fields was found, whatever pattern
  characters the prefix contains and whatever other keys (also of other types) end in \<open>:meta\<close>.
\<close>

theorem DiscoverQueues_reports_queues:
  assumes g: "glob_ok gmatch" and m: "scan_matches sv gmatch" and a: "scan_advances sv rank" and f: "rank 0 < fuel"
  shows "does (DiscoverQueues sv c fuel opts) (\<lambda>r es. \<exists>res. r = Some (Returns res) \<and>
     (case res of Inl err \<Rightarrow> True | Inr names \<Rightarrow> discovered (c_keyPrefix c) names es))"
proof -
  let ?p = "discoverPattern (c_keyPrefix c)"
  have shape: "\<forall>k \<in> set ks. \<exists>mid. k = c_keyPrefix c @ '':'' @ mid @ '':meta''" if "list_all (gmatch ?p) ks" for ks
    using that discover_pattern_exact [OF g] by (auto simp: list_all_iff)
  have leaf: "\<exists>res. Some (case metaNames (c_keyPrefix c) kept of
        Panics msg \<Rightarrow> Panics msg | Returns names \<Rightarrow> Returns (Inr (sort (remdups names)))) = Some (Returns res) \<and>
      (case res of Inl err \<Rightarrow> True | Inr names \<Rightarrow> discovered (c_keyPrefix c) names es)"
    if "scanned es = ks" "list_all (gmatch ?p) ks" "kept = metaKeys r ks"
      "ks = [] \<or> last es = Cmd (Pipeline (map (\<lambda>k. HMGet CallerCtx k metaMarkerFields) ks)) r" for es ks kept r
    using discovered_names [OF that(1) shape [OF that(2)] that(4,3)] by auto
  have keep: "does (keepQueueMeta sv ks) (\<lambda>m es'. \<exists>res. Some (case m of Inl err \<Rightarrow> Returns (Inl err)
        | Inr kept \<Rightarrow> (case metaNames (c_keyPrefix c) kept of
            Panics msg \<Rightarrow> Panics msg | Returns names \<Rightarrow> Returns (Inr (sort (remdups names))))) = Some (Returns res) \<and>
      (case res of Inl err \<Rightarrow> True | Inr names \<Rightarrow> discovered (c_keyPrefix c) names (es @ es')))"
    if ks: "scanned es = ks" "list_all (gmatch ?p) ks" for es ks
  proof (rule does_keepQueueMeta, unfold sum.case)
    show "\<exists>res. Some (case metaNames (c_keyPrefix c) (metaKeys r ks) of
        Panics msg \<Rightarrow> Panics msg | Returns names \<Rightarrow> Returns (Inr (sort (remdups names)))) = Some (Returns res) \<and>
      (case res of Inl err \<Rightarrow> True | Inr names \<Rightarrow> discovered (c_keyPrefix c) names
        (es @ [Cmd (Pipeline (map (\<lambda>k. HMGet CallerCtx k metaMarkerFields) ks)) r]))" for r
      by (rule leaf [of _ ks _ r]) (simp_all add: ks)
    show "\<exists>res. Some (case metaNames (c_keyPrefix c) [] of
        Panics msg \<Rightarrow> Panics msg | Returns names \<Rightarrow> Returns (Inr (sort (remdups names)))) = Some (Returns res) \<and>
      (case res of Inl err \<Rightarrow> True | Inr names \<Rightarrow> discovered (c_keyPrefix c) names (es @ []))" if "ks = []"
      by (rule leaf [of _ ks]) (simp_all add: ks that metaKeys_def)
  qed simp
  show ?thesis
    unfolding DiscoverQueues_def Let_def
    by (intro does_bindI does_weaken [OF scanAll_post [OF m a f]] does_case_option does_case_sum does_return
        does_weaken [OF keep]) (auto simp: scanPost_def cong: sum.case_cong)
qed

text \<open>
  C16: \<open>NewClient\<close> gives a client that is ready or leaves nothing behind: on success every script is
  loaded and the connection pool is open; on an error the pool, once there is one, was released
  exactly once, as the last thing that was done.
\<close>

theorem NewClient_is_ready_or_closed:
  "case run_state (NewClient sv masters cfg) w of (r, w') \<Rightarrow> \<exists>es. trace w' = trace w @ es \<and>
     (case r of
        Inr c \<Rightarrow> closings es = 0 \<and> set preloadNames \<subseteq> dom (map_of (loaded w'))
      | Inl err \<Rightarrow> closings es = (if cf_Addrs cfg = [] then 0 else 1) \<and> (es = [] \<or> (\<exists>cr. last es = Cmd CloseConn cr)))"
proof -
  obtain r w' where run: "run_state (NewClient sv masters cfg) w = (r, w')" by fastforce
  from NewClient_connection run obtain es where es: "trace w' = trace w @ es"
    "closings es = (case r of Inr _ \<Rightarrow> 0 | Inl _ \<Rightarrow> if cf_Addrs cfg = [] then 0 else 1)"
    "case r of Inr _ \<Rightarrow> True | Inl _ \<Rightarrow> es = [] \<or> (\<exists>cr. last es = Cmd CloseConn cr)" by (rule doesD) blast
  show ?thesis
    unfolding run prod.case
    by (rule exI [of _ es]) (use es run in \<open>auto split: sum.splits dest: NewClient_table\<close>)
qed

end
