(* ===== verification/Flight.thy ===== *)
theory Flight
  imports Scripts
begin

text \<open>
  Concurrent callers of one \<open>Scripter\<close> (\<open>internal/lua/loader.go\<close>).  Any number of goroutines are in
  \<open>Run\<close> at a time; they share the table of loaded scripts and the singleflight group through which
  \<open>load\<close> sends SCRIPT LOAD, and take the read-write lock of the table to read and to write it.  Each of
  them stands at a point of \<open>Run\<close>, and a step moves one of them; between two steps the world outside
  may change.  \<open>Scripts.runScript\<close>, in which a caller is alone, is
  one of the interleavings.

  The group is a package the sources only call: it is a parameter, and its documentation (one
  execution at a time for a key; a duplicate waits for the original and gets the same result) is
  the hypothesis \<open>single_flight\<close>.  The lock is the standard library's \<open>sync.RWMutex\<close>.
\<close>

section \<open>The group\<close>

text \<open>
  \<open>fg_enter\<close> is the start of \<open>Do\<close> by a caller: \<open>None\<close> makes it run its function, \<open>Some l\<close> makes it wait
  for the execution of \<open>l\<close>.  \<open>fg_leave\<close> is the end of an execution: the group says which callers it
  hands the result to.  \<open>fg_flight\<close> is the caller whose execution is in flight for a key, \<open>fg_joined\<close> are
  the duplicates that wait for it.
\<close>

record 'g flightGroup =
  fg_enter :: "string \<Rightarrow> nat \<Rightarrow> 'g \<Rightarrow> nat option \<times> 'g"
  fg_leave :: "string \<Rightarrow> 'g \<Rightarrow> nat list \<times> 'g"
  fg_flight :: "'g \<Rightarrow> string \<Rightarrow> nat option"
  fg_joined :: "'g \<Rightarrow> string \<Rightarrow> nat set"

definition single_flight :: "'g flightGroup \<Rightarrow> bool" where
  "single_flight G \<longleftrightarrow>
     (\<forall>k i g. let (r, g') = fg_enter G k i g in r = fg_flight G g k \<and>
        (case r of
           None \<Rightarrow> fg_flight G g' = (fg_flight G g)(k \<mapsto> i) \<and> fg_joined G g' = fg_joined G g
         | Some _ \<Rightarrow> fg_flight G g' = fg_flight G g \<and> fg_joined G g' = (fg_joined G g)(k := insert i (fg_joined G g k)))) \<and>
     (\<forall>k g. let (js, g') = fg_leave G k g in set js = fg_joined G g k \<and>
        fg_flight G g' = (fg_flight G g)(k := None) \<and> fg_joined G g' = (fg_joined G g)(k := {}))"

section \<open>The lock\<close>

text \<open>
  \<open>sync.RWMutex\<close>: who holds it for reading, and who holds it for writing or has called \<open>Lock\<close> and
  waits for the readers to leave.  From that call on no new reader and no other writer gets in.
\<close>

record rwMutex =
  rw_readers :: "nat set"
  rw_writer :: "nat option"

definition RLock :: "nat \<Rightarrow> rwMutex \<Rightarrow> rwMutex option" where
  "RLock i m = (if rw_writer m = None then Some (m\<lparr>rw_readers := insert i (rw_readers m)\<rparr>) else None)"

definition RUnlock :: "nat \<Rightarrow> rwMutex \<Rightarrow> rwMutex" where
  "RUnlock i m = m\<lparr>rw_readers := rw_readers m - {i}\<rparr>"

definition LockCall :: "nat \<Rightarrow> rwMutex \<Rightarrow> rwMutex option" where
  "LockCall i m = (if rw_writer m = None then Some (m\<lparr>rw_writer := Some i\<rparr>) else None)"

definition LockReturn :: "rwMutex \<Rightarrow> rwMutex option" where
  "LockReturn m = (if rw_readers m = {} then Some m else None)"

definition Unlock :: "rwMutex \<Rightarrow> rwMutex" where
  "Unlock m = m\<lparr>rw_writer := None\<rparr>"

section \<open>Callers\<close>

record runReq =
  rq_ctx :: ctx
  rq_name :: string
  rq_keys :: "string list"
  rq_args :: "gval list"

text \<open>
  Where a caller is: before the \<open>RLock\<close> of \<open>get\<close>; with the lock, before the read of the table; past it,
  before \<open>RUnlock\<close>; before the first EVALSHA; past a NOSCRIPT, before \<open>Do\<close>; in the function of \<open>load\<close>,
  before SCRIPT LOAD, before \<open>Lock\<close>, waiting in it, with the lock, past the write to the table, at
  its return; waiting for the function of another caller; back from \<open>load\<close>; back from \<open>Run\<close>.
\<close>

datatype runAt =
    Called
  | Reading
  | Read "string option"
  | Found string
  | Missed
  | Uploading
  | Uploaded string
  | Locking string
  | Storing string
  | Stored string
  | Flown "goerr + string"
  | Waiting nat
  | Again "goerr + string"
  | Finished "goerr + gval"

text \<open>What a caller does on its own, from one point to the next.\<close>

definition firstTry :: "('s, 't) services \<Rightarrow> runReq \<Rightarrow> string \<Rightarrow> ('s, runAt) act" where
  "firstTry sv rq sha = do {
     r \<leftarrow> redis sv (EvalSha (rq_ctx rq) sha (rq_keys rq) (rq_args rq));
     (case r of
        Inr v \<Rightarrow> ret (Finished (Inr v))
      | Inl err \<Rightarrow>
          if \<not> isNoScript (Some err) then ret (Finished (Inl err))
          else do {
            emit (Log LDebug ''mkq: lua script reload after NOSCRIPT'' [(''script'', rq_name rq)]);
            ret Missed
          })
   }"

definition secondTry :: "('s, 't) services \<Rightarrow> runReq \<Rightarrow> goerr + string \<Rightarrow> ('s, runAt) act" where
  "secondTry sv rq l = (case l of
       Inl err \<Rightarrow> ret (Finished (Inl (errorf (''reload '' @ rq_name rq @ '' after NOSCRIPT: '') err)))
     | Inr sha \<Rightarrow> do {
         r \<leftarrow> redis sv (EvalSha (rq_ctx rq) sha (rq_keys rq) (rq_args rq));
         ret (Finished r)
       })"

definition uploadScript :: "('s, 't) services \<Rightarrow> runReq \<Rightarrow> ('s, runAt) act" where
  "uploadScript sv rq = (case sv_source sv (rq_name rq) of
       Inl err \<Rightarrow> ret (Flown (Inl err))
     | Inr src \<Rightarrow> do {
         r \<leftarrow> upload sv (rq_ctx rq) (rq_name rq) src;
         ret (case r of Inl err \<Rightarrow> Flown (Inl err) | Inr sha \<Rightarrow> Uploaded sha)
       })"

fun advance :: "('s, 't) services \<Rightarrow> runReq \<Rightarrow> runAt \<Rightarrow> ('s, runAt) act" where
  "advance sv rq Reading = do { tbl \<leftarrow> get_loaded; ret (Read (map_of tbl (rq_name rq))) }"
| "advance sv rq (Found sha) = firstTry sv rq sha"
| "advance sv rq Uploading = uploadScript sv rq"
| "advance sv rq (Storing sha) = do { set_loaded (rq_name rq) sha; ret (Stored sha) }"
| "advance sv rq (Again l) = secondTry sv rq l"
| "advance sv rq a = ret a"

fun onItsOwn :: "runAt \<Rightarrow> bool" where
  "onItsOwn Reading = True"
| "onItsOwn (Found sha) = True"
| "onItsOwn Uploading = True"
| "onItsOwn (Storing sha) = True"
| "onItsOwn (Again l) = True"
| "onItsOwn a = False"

text \<open>The operations on the lock; \<open>None\<close> is that the caller is blocked, or is at no such operation.\<close>

fun lockMove :: "runReq \<Rightarrow> nat \<Rightarrow> runAt \<Rightarrow> rwMutex \<Rightarrow> (runAt \<times> rwMutex) option" where
  "lockMove rq i Called m = map_option (Pair Reading) (RLock i m)"
| "lockMove rq i (Read r) m =
     Some (case r of
         None \<Rightarrow> Finished (Inl (PlainErr (''script '' @ [CHR 0x22] @ rq_name rq @ [CHR 0x22] @ '' not loaded'')))
       | Some sha \<Rightarrow> Found sha, RUnlock i m)"
| "lockMove rq i (Uploaded sha) m = map_option (Pair (Locking sha)) (LockCall i m)"
| "lockMove rq i (Locking sha) m = map_option (Pair (Storing sha)) (LockReturn m)"
| "lockMove rq i (Stored sha) m = Some (Flown (Inr sha), Unlock m)"
| "lockMove rq i a m = None"

section \<open>Steps\<close>

record ('s, 'g) scripterRun =
  sr_world :: "'s world"
  sr_lock :: rwMutex
  sr_group :: 'g
  sr_at :: "nat \<Rightarrow> runAt"

text \<open>The end of an execution: its caller and those the group names get the result.\<close>

definition landed :: "nat \<Rightarrow> goerr + string \<Rightarrow> nat list \<Rightarrow> (nat \<Rightarrow> runAt) \<Rightarrow> nat \<Rightarrow> runAt" where
  "landed i r js pos j = (if j = i \<or> j \<in> set js then Again r else pos j)"

inductive run_step ::
  "('s, 't) services \<Rightarrow> 'g flightGroup \<Rightarrow> (nat \<Rightarrow> runReq) \<Rightarrow> ('s, 'g) scripterRun \<Rightarrow> ('s, 'g) scripterRun \<Rightarrow> bool"
  for sv G req where
  moves: "onItsOwn (sr_at s i) \<Longrightarrow> run_state (advance sv (req i) (sr_at s i)) (sr_world s) = (a, w') \<Longrightarrow>
     run_step sv G req s (s\<lparr>sr_world := w', sr_at := (sr_at s)(i := a)\<rparr>)"
| locks: "lockMove (req i) i (sr_at s i) (sr_lock s) = Some (a, m) \<Longrightarrow>
     run_step sv G req s (s\<lparr>sr_lock := m, sr_at := (sr_at s)(i := a)\<rparr>)"
| leads: "sr_at s i = Missed \<Longrightarrow> fg_enter G (rq_name (req i)) i (sr_group s) = (None, g') \<Longrightarrow>
     run_step sv G req s (s\<lparr>sr_group := g', sr_at := (sr_at s)(i := Uploading)\<rparr>)"
| merges: "sr_at s i = Missed \<Longrightarrow> fg_enter G (rq_name (req i)) i (sr_group s) = (Some l, g') \<Longrightarrow>
     run_step sv G req s (s\<lparr>sr_group := g', sr_at := (sr_at s)(i := Waiting l)\<rparr>)"
| lands: "sr_at s i = Flown r \<Longrightarrow> fg_leave G (rq_name (req i)) (sr_group s) = (js, g') \<Longrightarrow>
     run_step sv G req s (s\<lparr>sr_group := g', sr_at := landed i r js (sr_at s)\<rparr>)"
| elsewhere: "run_step sv G req s (s\<lparr>sr_world := (sr_world s)\<lparr>ext := x\<rparr>\<rparr>)"

abbreviation run_steps ::
  "('s, 't) services \<Rightarrow> 'g flightGroup \<Rightarrow> (nat \<Rightarrow> runReq) \<Rightarrow> ('s, 'g) scripterRun \<Rightarrow> ('s, 'g) scripterRun \<Rightarrow> bool" where
  "run_steps sv G req \<equiv> (run_step sv G req)\<^sup>*\<^sup>*"

text \<open>Nobody is in \<open>load\<close> yet, and nobody has the lock.\<close>

definition runsBegin :: "'g flightGroup \<Rightarrow> ('s, 'g) scripterRun \<Rightarrow> bool" where
  "runsBegin G s \<longleftrightarrow> sr_at s = (\<lambda>_. Called) \<and> sr_lock s = \<lparr>rw_readers = {}, rw_writer = None\<rparr> \<and>
     fg_flight G (sr_group s) = Map.empty \<and> fg_joined G (sr_group s) = (\<lambda>_. {})"

section \<open>Lemmas: one execution for a script\<close>

fun flying :: "runAt \<Rightarrow> bool" where
  "flying Uploading = True"
| "flying (Uploaded sha) = True"
| "flying (Locking sha) = True"
| "flying (Storing sha) = True"
| "flying (Stored sha) = True"
| "flying (Flown r) = True"
| "flying a = False"

text \<open>
  Whose execution is in flight is who is in the function; who waits has someone to wait for, and
  the group knows of it.
\<close>

definition flight_ok ::
  "(string \<Rightarrow> nat option) \<Rightarrow> (string \<Rightarrow> nat set) \<Rightarrow> (nat \<Rightarrow> runReq) \<Rightarrow> (nat \<Rightarrow> runAt) \<Rightarrow> bool" where
  "flight_ok F J req pos \<longleftrightarrow>
     (\<forall>k i. F k = Some i \<longleftrightarrow> flying (pos i) \<and> rq_name (req i) = k) \<and>
     (\<forall>i l. pos i = Waiting l \<longrightarrow> flying (pos l) \<and> rq_name (req l) = rq_name (req i)) \<and>
     (\<forall>k i. i \<in> J k \<longleftrightarrow> (\<exists>l. pos i = Waiting l) \<and> rq_name (req i) = k)"

lemmas lock_defs = RLock_def RUnlock_def LockCall_def LockReturn_def Unlock_def

lemmas advance_defs = firstTry_def secondTry_def uploadScript_def upload_def get_script_def redis_def ask_def
  emit_def get_loaded_def set_loaded_def

lemma advance_kind:
  assumes "run_state (advance sv rq a) w = (a', w')" "onItsOwn a"
  shows "flying a' = flying a" "a' \<noteq> Waiting l" "a' = Uploading \<Longrightarrow> False"
  using assms by (cases a; auto simp: advance_defs split: prod.splits sum.splits option.splits if_splits gval.splits)+

lemma lockMove_kind:
  assumes "lockMove rq i a m = Some (a', m')"
  shows "flying a' = flying a" "a' \<noteq> Waiting l" "a \<noteq> Waiting l"
  using assms by (cases a; auto split: option.splits)+

lemma single_flight_enter:
  assumes "single_flight G" "fg_enter G k i g = (r, g')"
  shows "fg_flight G g k = r"
    "fg_flight G g' = (case r of None \<Rightarrow> (fg_flight G g)(k \<mapsto> i) | Some _ \<Rightarrow> fg_flight G g)"
    "fg_joined G g' = (case r of None \<Rightarrow> fg_joined G g | Some _ \<Rightarrow> (fg_joined G g)(k := insert i (fg_joined G g k)))"
proof -
  from assms(1) have "let (r, g') = fg_enter G k i g in r = fg_flight G g k \<and>
        (case r of
           None \<Rightarrow> fg_flight G g' = (fg_flight G g)(k \<mapsto> i) \<and> fg_joined G g' = fg_joined G g
         | Some _ \<Rightarrow> fg_flight G g' = fg_flight G g \<and> fg_joined G g' = (fg_joined G g)(k := insert i (fg_joined G g k)))"
    unfolding single_flight_def by blast
  then show "fg_flight G g k = r"
    "fg_flight G g' = (case r of None \<Rightarrow> (fg_flight G g)(k \<mapsto> i) | Some _ \<Rightarrow> fg_flight G g)"
    "fg_joined G g' = (case r of None \<Rightarrow> fg_joined G g | Some _ \<Rightarrow> (fg_joined G g)(k := insert i (fg_joined G g k)))"
    unfolding assms(2) by (auto split: option.splits)
qed

lemma single_flight_leave:
  assumes "single_flight G" "fg_leave G k g = (js, g')"
  shows "set js = fg_joined G g k" "fg_flight G g' = (fg_flight G g)(k := None)" "fg_joined G g' = (fg_joined G g)(k := {})"
proof -
  from assms(1) have "let (js, g') = fg_leave G k g in set js = fg_joined G g k \<and>
      fg_flight G g' = (fg_flight G g)(k := None) \<and> fg_joined G g' = (fg_joined G g)(k := {})"
    unfolding single_flight_def by blast
  then show "set js = fg_joined G g k" "fg_flight G g' = (fg_flight G g)(k := None)" "fg_joined G g' = (fg_joined G g)(k := {})"
    unfolding assms(2) by simp_all
qed

lemma flight_okI:
  assumes "\<And>k i. F k = Some i \<longleftrightarrow> flying (pos i) \<and> rq_name (req i) = k"
    "\<And>i l. pos i = Waiting l \<Longrightarrow> flying (pos l) \<and> rq_name (req l) = rq_name (req i)"
    "\<And>k i. i \<in> J k \<longleftrightarrow> (\<exists>l. pos i = Waiting l) \<and> rq_name (req i) = k"
  shows "flight_ok F J req pos"
  using assms by (simp add: flight_ok_def)

lemma flight_okD:
  assumes "flight_ok F J req pos"
  shows "F k = Some i \<longleftrightarrow> flying (pos i) \<and> rq_name (req i) = k"
    "pos i = Waiting l \<Longrightarrow> flying (pos l) \<and> rq_name (req l) = rq_name (req i)"
    "i \<in> J k \<longleftrightarrow> (\<exists>l. pos i = Waiting l) \<and> rq_name (req i) = k"
  using assms by (simp_all add: flight_ok_def)

lemma flight_ok_moves:
  assumes "flight_ok F J req pos" "flying a = flying (pos i)" "\<And>l. a \<noteq> Waiting l" "\<And>l. pos i \<noteq> Waiting l"
  shows "flight_ok F J req (pos(i := a))"
  by (rule flight_okI) (use assms(2-4) flight_okD [OF assms(1)] in \<open>auto split: if_splits\<close>)

lemma flight_ok_leads:
  assumes "flight_ok F J req pos" "pos i = Missed" "F (rq_name (req i)) = None"
  shows "flight_ok (F(rq_name (req i) \<mapsto> i)) J req (pos(i := Uploading))"
proof (rule flight_okI)
  fix k j
  show "(F(rq_name (req i) \<mapsto> i)) k = Some j \<longleftrightarrow> flying ((pos(i := Uploading)) j) \<and> rq_name (req j) = k"
    using assms(2,3) flight_okD(1) [OF assms(1), of k j] by auto
qed (use assms(2) flight_okD(2,3) [OF assms(1)] in \<open>auto split: if_splits\<close>)

lemma flight_ok_merges:
  assumes "flight_ok F J req pos" "pos i = Missed" "F (rq_name (req i)) = Some l"
  shows "flight_ok F (J(rq_name (req i) := insert i (J (rq_name (req i))))) req (pos(i := Waiting l))"
proof (rule flight_okI)
  fix k j
  show "F k = Some j \<longleftrightarrow> flying ((pos(i := Waiting l)) j) \<and> rq_name (req j) = k"
    using assms(2) flight_okD(1) [OF assms(1), of k j] by auto
next
  fix j m
  assume "(pos(i := Waiting l)) j = Waiting m"
  then show "flying ((pos(i := Waiting l)) m) \<and> rq_name (req m) = rq_name (req j)"
    using assms(2,3) flight_okD(1) [OF assms(1), of "rq_name (req i)" l] flight_okD(2) [OF assms(1), of j m]
    by (auto split: if_splits)
next
  fix k j
  show "j \<in> (J(rq_name (req i) := insert i (J (rq_name (req i))))) k \<longleftrightarrow>
      (\<exists>m. (pos(i := Waiting l)) j = Waiting m) \<and> rq_name (req j) = k"
    using flight_okD(3) [OF assms(1), of j k] by auto
qed

text \<open>The callers a group names at the end of an execution are those who wait for it.\<close>

lemma landed_waiting:
  assumes "flight_ok F J req pos" "pos i = Flown r" "set js = J (rq_name (req i))"
  shows "landed i r js pos = (\<lambda>j. if j = i \<or> pos j = Waiting i then Again r else pos j)"
proof
  fix j
  have i: "F (rq_name (req i)) = Some i" using assms(2) flight_okD(1) [OF assms(1)] by simp
  have "l = i" if "pos j = Waiting l" "rq_name (req j) = rq_name (req i)" for l
    using flight_okD(1) [OF assms(1), of "rq_name (req i)" l] flight_okD(2) [OF assms(1) that(1)] that(2) i by simp
  moreover have "rq_name (req j) = rq_name (req i)" if "pos j = Waiting i" using flight_okD(2) [OF assms(1) that] by simp
  ultimately have "j \<in> set js \<longleftrightarrow> pos j = Waiting i" using assms(3) flight_okD(3) [OF assms(1)] by auto
  then show "landed i r js pos j = (if j = i \<or> pos j = Waiting i then Again r else pos j)" by (simp add: landed_def)
qed

lemma flight_ok_lands:
  assumes ok: "flight_ok F J req pos" and r: "pos i = Flown r" and js: "set js = J (rq_name (req i))"
  shows "flight_ok (F(rq_name (req i) := None)) (J(rq_name (req i) := {})) req (landed i r js pos)"
  unfolding landed_waiting [OF assms]
proof (rule flight_okI)
  have i: "F (rq_name (req i)) = Some i" using r flight_okD(1) [OF ok] by simp
  fix k j
  show "(F(rq_name (req i) := None)) k = Some j \<longleftrightarrow>
      flying (if j = i \<or> pos j = Waiting i then Again r else pos j) \<and> rq_name (req j) = k"
    using flight_okD(1) [OF ok, of k j] i by auto
  have "l = i" if "pos j = Waiting l" "rq_name (req j) = rq_name (req i)" for l
    using flight_okD(1) [OF ok, of "rq_name (req i)" l] flight_okD(2) [OF ok that(1)] that(2) i by simp
  moreover have "rq_name (req j) = rq_name (req i)" if "pos j = Waiting i" using flight_okD(2) [OF ok that] by simp
  ultimately show "j \<in> (J(rq_name (req i) := {})) k \<longleftrightarrow>
      (\<exists>l. (if j = i \<or> pos j = Waiting i then Again r else pos j) = Waiting l) \<and> rq_name (req j) = k"
    using flight_okD(3) [OF ok, of j k] r by (auto split: if_splits)
next
  fix j l
  assume "(if j = i \<or> pos j = Waiting i then Again r else pos j) = Waiting l"
  then show "flying (if l = i \<or> pos l = Waiting i then Again r else pos l) \<and> rq_name (req l) = rq_name (req j)"
    using flight_okD(2) [OF ok, of j l] by (auto split: if_splits)
qed

abbreviation group_ok :: "'g flightGroup \<Rightarrow> (nat \<Rightarrow> runReq) \<Rightarrow> ('s, 'g) scripterRun \<Rightarrow> bool" where
  "group_ok G req s \<equiv> flight_ok (fg_flight G (sr_group s)) (fg_joined G (sr_group s)) req (sr_at s)"

lemma flight_ok_step:
  assumes G: "single_flight G" and step: "run_step sv G req s s'" and ok: "group_ok G req s"
  shows "group_ok G req s'"
  using step
proof cases
  case (moves i a w')
  have "sr_at s i \<noteq> Waiting l" for l using moves(2) by auto
  with moves ok advance_kind(1,2) [OF moves(3,2)] show ?thesis by (simp add: flight_ok_moves)
next
  case (locks i a m)
  with ok lockMove_kind [OF locks(2)] show ?thesis by (simp add: flight_ok_moves)
next
  case (leads i g')
  with ok single_flight_enter [OF G leads(3)] show ?thesis by (simp add: flight_ok_leads [OF ok leads(2)])
next
  case (merges i l g')
  note e = single_flight_enter [OF G merges(3), simplified]
  from flight_ok_merges [OF ok merges(2) e(1)] show ?thesis by (simp add: merges(1) e(2,3))
next
  case (lands i r js g')
  note l = single_flight_leave [OF G lands(3)]
  from flight_ok_lands [OF ok lands(2) l(1)] show ?thesis by (simp add: lands(1) l(2,3))
next
  case (elsewhere x)
  with ok show ?thesis by simp
qed

lemma flight_ok_reachable:
  assumes "single_flight G" "runsBegin G s0" "run_steps sv G req s0 s"
  shows "group_ok G req s"
  using assms(3)
proof (induction rule: rtranclp_induct)
  case base
  show ?case using assms(2) by (simp add: flight_ok_def runsBegin_def)
next
  case (step s s')
  then show ?case using flight_ok_step [OF assms(1)] by blast
qed

section \<open>Lemmas: the lock of the table\<close>

fun reading :: "runAt \<Rightarrow> bool" where
  "reading Reading = True"
| "reading (Read r) = True"
| "reading a = False"

fun storing :: "runAt \<Rightarrow> bool" where
  "storing (Storing sha) = True"
| "storing (Stored sha) = True"
| "storing a = False"

fun writing :: "runAt \<Rightarrow> bool" where
  "writing (Locking sha) = True"
| "writing a = storing a"

text \<open>The lock's state says who is where, and there are no readers while the table is written.\<close>

definition lock_ok :: "rwMutex \<Rightarrow> (nat \<Rightarrow> runAt) \<Rightarrow> bool" where
  "lock_ok m pos \<longleftrightarrow> finite (rw_readers m) \<and> (\<forall>i. i \<in> rw_readers m \<longleftrightarrow> reading (pos i)) \<and>
     (\<forall>i. rw_writer m = Some i \<longleftrightarrow> writing (pos i)) \<and> (\<forall>i. storing (pos i) \<longrightarrow> rw_readers m = {})"

lemma lock_ok_moves:
  assumes "lock_ok m pos" "reading a = reading (pos i)" "writing a = writing (pos i)" "storing a = storing (pos i)"
  shows "lock_ok m (pos(i := a))"
  using assms by (auto simp: lock_ok_def)

lemma storing_writing: "storing a \<Longrightarrow> writing a"
  by (cases a) auto

lemma advance_lock:
  assumes "run_state (advance sv rq a) w = (a', w')" "onItsOwn a"
  shows "reading a' = reading a" "writing a' = writing a" "storing a' = storing a"
  using assms by (cases a; auto simp: advance_defs split: prod.splits sum.splits option.splits if_splits gval.splits)+

lemma lock_ok_locks:
  assumes ok: "lock_ok m pos" and l: "lockMove rq i (pos i) m = Some (a, m')"
  shows "lock_ok m' (pos(i := a))"
proof -
  have w: "rw_writer m = Some j \<longleftrightarrow> writing (pos j)" "j \<in> rw_readers m \<longleftrightarrow> reading (pos j)" "finite (rw_readers m)"
    "storing (pos j) \<Longrightarrow> rw_readers m = {}" for j using ok unfolding lock_ok_def by blast+
  from l show ?thesis
  proof (cases "pos i")
    case Called
    then have "rw_writer m = None" "a = Reading" "m' = m\<lparr>rw_readers := insert i (rw_readers m)\<rparr>"
      using l by (auto simp: RLock_def split: if_splits)
    moreover have "\<not> storing (pos j)" for j using calculation(1) w(1) [of j] storing_writing [of "pos j"] by auto
    ultimately show ?thesis using w Called by (auto simp: lock_ok_def)
  next
    case (Stored sha)
    then have "a = Flown (Inr sha)" "m' = m\<lparr>rw_writer := None\<rparr>" using l by (auto simp: Unlock_def)
    moreover have "\<not> writing (pos j)" if "j \<noteq> i" for j using w(1) [of i] w(1) [of j] Stored that by auto
    ultimately show ?thesis using w Stored by (auto simp: lock_ok_def)
  qed (use l w in \<open>auto simp: lock_ok_def lock_defs split: if_splits option.splits\<close>)
qed

lemma lock_ok_lands:
  assumes "lock_ok m pos" "pos i = Flown r"
  shows "lock_ok m (\<lambda>j. if j = i \<or> pos j = Waiting i then Again r else pos j)"
  using assms by (auto simp: lock_ok_def split: if_splits)

lemma lock_ok_step:
  assumes G: "single_flight G" and step: "run_step sv G req s s'" and fl: "group_ok G req s"
    and ok: "lock_ok (sr_lock s) (sr_at s)"
  shows "lock_ok (sr_lock s') (sr_at s')"
  using step
proof cases
  case (moves i a w')
  with ok advance_lock [OF moves(3,2)] show ?thesis by (simp add: lock_ok_moves)
next
  case (locks i a m)
  with lock_ok_locks [OF ok locks(2)] show ?thesis by simp
next
  case (lands i r js g')
  from lock_ok_lands [OF ok lands(2)] show ?thesis
    by (simp add: lands(1) landed_waiting [OF fl lands(2) single_flight_leave(1) [OF G lands(3)]])
qed (use ok in \<open>simp_all add: lock_ok_moves\<close>)

lemma lock_ok_reachable:
  assumes "single_flight G" "runsBegin G s0" "run_steps sv G req s0 s"
  shows "lock_ok (sr_lock s) (sr_at s)"
  using assms(3)
proof (induction rule: rtranclp_induct)
  case base
  show ?case using assms(2) by (simp add: lock_ok_def runsBegin_def)
next
  case (step s s')
  then show ?case using lock_ok_step [OF assms(1)] flight_ok_reachable [OF assms(1,2)] by blast
qed

section \<open>Lemmas: what the callers learn\<close>

text \<open>
  A SHA is known for a script when it was in the table at the start or is what SCRIPT LOAD
  answered to that script's text.
\<close>

definition shaKnown :: "('s, 't) services \<Rightarrow> (string \<times> string) list \<Rightarrow> event list \<Rightarrow> string \<Rightarrow> string \<Rightarrow> bool" where
  "shaKnown sv tbl es name sha \<longleftrightarrow> map_of tbl name = Some sha \<or>
     (\<exists>c src. sv_source sv name = Inr src \<and> Cmd (ScriptLoad c src) (Inr (GStr sha)) \<in> set es)"

text \<open>The errors of \<open>load\<close>: the preprocessor's, that of a SCRIPT LOAD, or a reply that is no string.\<close>

definition loadFailed :: "('s, 't) services \<Rightarrow> event list \<Rightarrow> string \<Rightarrow> goerr \<Rightarrow> bool" where
  "loadFailed sv es name err \<longleftrightarrow> sv_source sv name = Inl err \<or>
     (\<exists>c src r. sv_source sv name = Inr src \<and> Cmd (ScriptLoad c src) r \<in> set es \<and>
        ((\<exists>e. r = Inl e \<and> err = errorf (''script load '' @ name @ '': '') e) \<or>
         (\<exists>v. r = Inr v \<and> (\<forall>sha. v \<noteq> GStr sha) \<and> err = PlainErr (''script load '' @ name))))"

definition loadResult :: "('s, 't) services \<Rightarrow> (string \<times> string) list \<Rightarrow> event list \<Rightarrow> string \<Rightarrow> goerr + string \<Rightarrow> bool" where
  "loadResult sv tbl es name r = (case r of Inl err \<Rightarrow> loadFailed sv es name err | Inr sha \<Rightarrow> shaKnown sv tbl es name sha)"

text \<open>
  A result of \<open>Run\<close> is the reply to an EVALSHA of this caller, for a SHA known for its script; or
  the script was not loaded at the start; or it had to be loaded again and that failed.
\<close>

definition runResult :: "('s, 't) services \<Rightarrow> (string \<times> string) list \<Rightarrow> event list \<Rightarrow> runReq \<Rightarrow> goerr + gval \<Rightarrow> bool" where
  "runResult sv tbl es rq r \<longleftrightarrow>
     (\<exists>sha. shaKnown sv tbl es (rq_name rq) sha \<and> Cmd (EvalSha (rq_ctx rq) sha (rq_keys rq) (rq_args rq)) r \<in> set es) \<or>
     map_of tbl (rq_name rq) = None \<and> r = Inl (PlainErr (''script '' @ [CHR 0x22] @ rq_name rq @ [CHR 0x22] @ '' not loaded'')) \<or>
     (\<exists>err. loadFailed sv es (rq_name rq) err \<and> r = Inl (errorf (''reload '' @ rq_name rq @ '' after NOSCRIPT: '') err))"

definition pointOk :: "('s, 't) services \<Rightarrow> (string \<times> string) list \<Rightarrow> event list \<Rightarrow> runReq \<Rightarrow> runAt \<Rightarrow> bool" where
  "pointOk sv tbl es rq a = (case a of
       Read r \<Rightarrow> (case r of None \<Rightarrow> map_of tbl (rq_name rq) = None | Some sha \<Rightarrow> shaKnown sv tbl es (rq_name rq) sha)
     | Found sha \<Rightarrow> shaKnown sv tbl es (rq_name rq) sha
     | Uploaded sha \<Rightarrow> shaKnown sv tbl es (rq_name rq) sha
     | Locking sha \<Rightarrow> shaKnown sv tbl es (rq_name rq) sha
     | Storing sha \<Rightarrow> shaKnown sv tbl es (rq_name rq) sha
     | Stored sha \<Rightarrow> shaKnown sv tbl es (rq_name rq) sha
     | Flown r \<Rightarrow> loadResult sv tbl es (rq_name rq) r
     | Again r \<Rightarrow> loadResult sv tbl es (rq_name rq) r
     | Finished r \<Rightarrow> runResult sv tbl es rq r
     | _ \<Rightarrow> True)"

lemma runResultI:
  assumes "shaKnown sv tbl es (rq_name rq) sha" "Cmd (EvalSha (rq_ctx rq) sha (rq_keys rq) (rq_args rq)) r \<in> set es"
  shows "runResult sv tbl es rq r"
  using assms unfolding runResult_def by blast

lemma runResult_failed:
  "loadFailed sv es (rq_name rq) err \<Longrightarrow>
   runResult sv tbl es rq (Inl (errorf (''reload '' @ rq_name rq @ '' after NOSCRIPT: '') err))"
  unfolding runResult_def by blast

lemma shaKnown_mono: "shaKnown sv tbl es name sha \<Longrightarrow> shaKnown sv tbl (es @ es') name sha"
  by (auto simp: shaKnown_def)

lemma loadFailed_mono: "loadFailed sv es name err \<Longrightarrow> loadFailed sv (es @ es') name err"
  unfolding loadFailed_def set_append by blast

lemma loadResult_mono: "loadResult sv tbl es name r \<Longrightarrow> loadResult sv tbl (es @ es') name r"
  by (auto simp: loadResult_def shaKnown_mono loadFailed_mono split: sum.splits)

lemma runResult_mono: "runResult sv tbl es rq r \<Longrightarrow> runResult sv tbl (es @ es') rq r"
  unfolding runResult_def by (auto dest: shaKnown_mono [of _ _ _ _ _ es'] loadFailed_mono [of _ _ _ _ es'])

lemma pointOk_mono: "pointOk sv tbl es rq a \<Longrightarrow> pointOk sv tbl (es @ es') rq a"
  by (auto simp: pointOk_def shaKnown_mono loadResult_mono runResult_mono split: runAt.splits option.splits)

definition tableOk :: "('s, 't) services \<Rightarrow> (string \<times> string) list \<Rightarrow> event list \<Rightarrow> 's world \<Rightarrow> bool" where
  "tableOk sv tbl es w \<longleftrightarrow> dom (map_of tbl) \<subseteq> dom (map_of (loaded w)) \<and>
     (\<forall>name sha. map_of (loaded w) name = Some sha \<longrightarrow> shaKnown sv tbl es name sha)"

text \<open>The events of one move, and what it leaves in the table.\<close>

lemma advance_table:
  assumes "run_state (advance sv rq a) w = (a', w')"
  shows "loaded w' = (case a of Storing sha \<Rightarrow> hset (loaded w) (rq_name rq) sha | _ \<Rightarrow> loaded w)"
  using assms by (cases a) (auto simp: advance_defs split: prod.splits sum.splits option.splits if_splits)

lemma advance_point:
  assumes "pointOk sv tbl es rq a" "a \<noteq> Reading"
  shows "does (advance sv rq a) (\<lambda>a' es'. pointOk sv tbl (es @ es') rq a')"
proof (cases a)
  case (Found sha)
  then have known: "shaKnown sv tbl (es @ es') (rq_name rq) sha" for es'
    using assms(1) by (simp add: pointOk_def shaKnown_mono)
  show ?thesis
    unfolding Found advance.simps firstTry_def
    by (intro does_rules) (auto simp: pointOk_def intro!: runResultI [OF known])
next
  case Uploading
  then show ?thesis
    unfolding Uploading advance.simps uploadScript_def upload_def
    by (intro does_rules) (auto simp: pointOk_def loadResult_def loadFailed_def shaKnown_def split: sum.splits gval.splits)
next
  case (Again l)
  then have l: "loadResult sv tbl (es @ es') (rq_name rq) l" for es'
    using assms(1) by (simp add: pointOk_def loadResult_mono)
  show ?thesis
  proof (cases l)
    case (Inl err)
    with l [of "[]"] show ?thesis
      unfolding Again advance.simps secondTry_def Inl sum.case
      by (intro does_return) (simp only: pointOk_def runAt.case loadResult_def sum.case runResult_failed)
  next
    case (Inr sha)
    then have known: "shaKnown sv tbl (es @ es') (rq_name rq) sha" for es' using l by (simp add: loadResult_def)
    show ?thesis
      unfolding Again advance.simps secondTry_def Inr sum.case
      by (intro does_rules) (auto simp: pointOk_def intro!: runResultI [OF known])
  qed
qed (use assms in \<open>auto intro!: does_rules simp: pointOk_def loadResult_def split: option.splits\<close>)

text \<open>
  Every SCRIPT LOAD was asked for by a NOSCRIPT of its own: the callers that are still to send one
  are among those who have met one.
\<close>

fun uploads :: "event list \<Rightarrow> nat" where
  "uploads [] = 0"
| "uploads (Cmd (ScriptLoad c src) r # es) = Suc (uploads es)"
| "uploads (e # es) = uploads es"

lemma uploads_append [simp]: "uploads (es @ es') = uploads es + uploads es'"
  by (induction es rule: uploads.induct) simp_all

lemma reloads_append [simp]: "reloads (es @ es') = reloads es + reloads es'"
  by (simp add: reloads_def)

definition toUpload :: "(nat \<Rightarrow> runAt) \<Rightarrow> nat set" where
  "toUpload pos = {i. pos i = Missed \<or> pos i = Uploading}"

definition pays :: "runAt \<Rightarrow> nat" where
  "pays a = (if a = Missed \<or> a = Uploading then 1 else 0)"

lemma advance_pays: "onItsOwn a \<Longrightarrow> does (advance sv rq a) (\<lambda>a' es. pays a' + uploads es \<le> pays a + reloads es)"
  by (cases a)
    (auto intro!: does_rules simp: firstTry_def secondTry_def uploadScript_def upload_def get_script_def pays_def reloads_def
      split: sum.splits gval.splits)

lemma toUpload_upd:
  assumes "finite (toUpload pos)"
  shows "finite (toUpload (pos(i := a)))" "card (toUpload (pos(i := a))) + pays (pos i) = card (toUpload pos) + pays a"
proof -
  have eq: "toUpload (pos(i := a)) = (if pays a = 1 then insert i (toUpload pos) else toUpload pos - {i})"
    by (auto simp: toUpload_def pays_def)
  have "i \<in> toUpload pos \<longleftrightarrow> pays (pos i) = 1" by (simp add: toUpload_def pays_def)
  with assms show "finite (toUpload (pos(i := a)))" "card (toUpload (pos(i := a))) + pays (pos i) = card (toUpload pos) + pays a"
    by (auto simp: eq pays_def card_insert_if card_gt_0_iff split: if_splits dest: card_Suc_Diff1)
qed

text \<open>The invariant of all callers together, over the events since the start.\<close>

definition runs_ok ::
  "('s, 't) services \<Rightarrow> (string \<times> string) list \<Rightarrow> (nat \<Rightarrow> runReq) \<Rightarrow> event list \<Rightarrow> 's world \<Rightarrow> (nat \<Rightarrow> runAt) \<Rightarrow> bool" where
  "runs_ok sv tbl req es w pos \<longleftrightarrow> tableOk sv tbl es w \<and> (\<forall>i. pointOk sv tbl es (req i) (pos i)) \<and>
     finite (toUpload pos) \<and> uploads es + card (toUpload pos) \<le> reloads es"

lemma advance_Reading:
  assumes "run_state (advance sv rq Reading) w = (a, w')" "tableOk sv tbl es w"
  shows "pointOk sv tbl es rq a" "trace w' = trace w"
proof -
  have "map_of tbl name = None" if "map_of (loaded w) name = None" for name
    using assms(2) that by (meson domIff subsetD tableOk_def)
  then show "pointOk sv tbl es rq a" "trace w' = trace w"
    using assms by (auto simp: get_loaded_def pointOk_def tableOk_def split: option.splits)
qed

lemma lockMove_point:
  assumes "lockMove rq i a m = Some (a', m')" "pointOk sv tbl es rq a"
  shows "pointOk sv tbl es rq a'" "pays a' = pays a"
  using assms by (cases a; auto simp: pointOk_def runResult_def loadResult_def pays_def split: option.splits)+

lemma runs_ok_moves:
  assumes ok: "runs_ok sv tbl req es w pos" and own: "onItsOwn (pos i)"
    and run: "run_state (advance sv (req i) (pos i)) w = (a, w')"
  obtains es' where "trace w' = trace w @ es'" "runs_ok sv tbl req (es @ es') w' (pos(i := a))"
proof -
  have t: "tableOk sv tbl es w" and p: "pointOk sv tbl es (req j) (pos j)" for j
    using ok by (simp_all add: runs_ok_def)
  from advance_pays [OF own] run obtain es' where es': "trace w' = trace w @ es'"
    "pays a + uploads es' \<le> pays (pos i) + reloads es'" by (rule doesD)
  have pa: "pointOk sv tbl (es @ es') (req i) a"
  proof (cases "pos i = Reading")
    case True
    with advance_Reading [OF run [unfolded True] t] show ?thesis by (simp add: pointOk_mono)
  next
    case False
    from doesD [OF advance_point [OF p False] run] es'(1) show ?thesis by auto
  qed
  moreover have "tableOk sv tbl (es @ es') w'"
    using t p [of i] by (cases "pos i") (auto simp: tableOk_def advance_table [OF run] pointOk_def intro: shaKnown_mono)
  moreover have "uploads (es @ es') + card (toUpload (pos(i := a))) \<le> reloads (es @ es')"
    using ok es'(2) toUpload_upd(2) [of pos i a] by (simp add: runs_ok_def)
  ultimately have "runs_ok sv tbl req (es @ es') w' (pos(i := a))"
    using ok p by (simp add: runs_ok_def pointOk_mono toUpload_upd(1))
  with es'(1) show ?thesis by (rule that)
qed

lemma runs_ok_point:
  assumes "runs_ok sv tbl req es w pos" "pointOk sv tbl es (req i) a" "pays a \<le> pays (pos i)"
  shows "runs_ok sv tbl req es w (pos(i := a))"
  using assms toUpload_upd [of pos i a] by (auto simp: runs_ok_def)

lemma runs_ok_lands:
  assumes ok: "runs_ok sv tbl req es w pos" and fl: "flight_ok F J req pos" and r: "pos i = Flown r"
    and js: "set js = J (rq_name (req i))"
  shows "runs_ok sv tbl req es w (landed i r js pos)"
  unfolding landed_waiting [OF fl r js]
proof -
  let ?pos = "\<lambda>j. if j = i \<or> pos j = Waiting i then Again r else pos j"
  have "toUpload ?pos = toUpload pos" using r by (auto simp: toUpload_def)
  moreover have "pointOk sv tbl es (req j) (?pos j)" for j
  proof -
    have "pointOk sv tbl es (req i) (pos i)" "pointOk sv tbl es (req j) (pos j)" using ok by (simp_all add: runs_ok_def)
    with r flight_okD(2) [OF fl, of j i] show ?thesis by (auto simp: pointOk_def)
  qed
  ultimately show "runs_ok sv tbl req es w ?pos" using ok by (simp add: runs_ok_def)
qed

lemma runs_ok_step:
  assumes G: "single_flight G" and step: "run_step sv G req s s'" and ok: "runs_ok sv tbl req es (sr_world s) (sr_at s)"
    and fl: "group_ok G req s"
  obtains es' where "trace (sr_world s') = trace (sr_world s) @ es'" "runs_ok sv tbl req (es @ es') (sr_world s') (sr_at s')"
  using step
proof cases
  case (moves i a w')
  from runs_ok_moves [OF ok moves(2,3)] obtain es' where "trace w' = trace (sr_world s) @ es'"
    "runs_ok sv tbl req (es @ es') w' ((sr_at s)(i := a))" .
  then show ?thesis using that by (simp add: moves(1))
next
  case (locks i a m)
  have "pointOk sv tbl es (req i) (sr_at s i)" using ok by (simp add: runs_ok_def)
  from lockMove_point [OF locks(2) this] have "runs_ok sv tbl req es (sr_world s) ((sr_at s)(i := a))"
    by (intro runs_ok_point [OF ok]) simp_all
  then show ?thesis using that [of "[]"] by (simp add: locks(1))
next
  case (leads i g')
  then have "runs_ok sv tbl req es (sr_world s) ((sr_at s)(i := Uploading))"
    by (intro runs_ok_point [OF ok]) (simp_all add: pointOk_def pays_def)
  then show ?thesis using that [of "[]"] by (simp add: leads(1))
next
  case (merges i l g')
  then have "runs_ok sv tbl req es (sr_world s) ((sr_at s)(i := Waiting l))"
    by (intro runs_ok_point [OF ok]) (simp_all add: pointOk_def pays_def)
  then show ?thesis using that [of "[]"] by (simp add: merges(1))
next
  case (lands i r js g')
  with runs_ok_lands [OF ok fl lands(2) single_flight_leave(1) [OF G lands(3)]] show ?thesis using that [of "[]"] by simp
next
  case (elsewhere x)
  with ok show ?thesis using that [of "[]"] by (simp add: runs_ok_def tableOk_def)
qed

lemma runs_ok_reachable:
  assumes G: "single_flight G" and b: "runsBegin G s0" and "run_steps sv G req s0 s"
  shows "\<exists>es. trace (sr_world s) = trace (sr_world s0) @ es \<and> runs_ok sv (loaded (sr_world s0)) req es (sr_world s) (sr_at s)"
  using assms(3)
proof (induction rule: rtranclp_induct)
  case base
  show ?case using b by (simp add: runsBegin_def runs_ok_def tableOk_def shaKnown_def pointOk_def toUpload_def)
next
  case (step s s')
  from step.IH obtain es where es: "trace (sr_world s) = trace (sr_world s0) @ es"
    "runs_ok sv (loaded (sr_world s0)) req es (sr_world s) (sr_at s)" by blast
  from runs_ok_step [OF G step.hyps(2) es(2) flight_ok_reachable [OF G b step.hyps(1)]] es(1)
  show ?case by (metis append.assoc)
qed

section \<open>Lemmas: the way out\<close>

lemma move_step:
  assumes "sr_at s i = a" "onItsOwn a" "run_state (advance sv (req i) a) (sr_world s) = (a', w')"
  shows "run_step sv G req s (s\<lparr>sr_world := w', sr_at := (sr_at s)(i := a')\<rparr>)"
  using assms by (intro moves) simp_all

lemma lock_step:
  assumes "sr_at s i = a" "lockMove (req i) i a (sr_lock s) = Some (a', m)"
  shows "run_step sv G req s (s\<lparr>sr_lock := m, sr_at := (sr_at s)(i := a')\<rparr>)"
  using assms by (intro locks) simp_all

lemma enter_steps:
  assumes "single_flight G" "sr_at s i = Missed"
  shows "fg_flight G (sr_group s) (rq_name (req i)) = None \<Longrightarrow> \<exists>g'. run_step sv G req s (s\<lparr>sr_group := g', sr_at := (sr_at s)(i := Uploading)\<rparr>)"
    "fg_flight G (sr_group s) (rq_name (req i)) = Some l \<Longrightarrow> \<exists>g'. run_step sv G req s (s\<lparr>sr_group := g', sr_at := (sr_at s)(i := Waiting l)\<rparr>)"
proof -
  obtain r g' where e: "fg_enter G (rq_name (req i)) i (sr_group s) = (r, g')" by fastforce
  have r: "fg_flight G (sr_group s) (rq_name (req i)) = r" by (rule single_flight_enter(1) [OF assms(1) e])
  show "\<exists>g'. run_step sv G req s (s\<lparr>sr_group := g', sr_at := (sr_at s)(i := Uploading)\<rparr>)"
    if "fg_flight G (sr_group s) (rq_name (req i)) = None"
    using leads [OF assms(2), of G req g' sv] e r that by auto
  show "\<exists>g'. run_step sv G req s (s\<lparr>sr_group := g', sr_at := (sr_at s)(i := Waiting l)\<rparr>)"
    if "fg_flight G (sr_group s) (rq_name (req i)) = Some l"
    using merges [OF assms(2), of G req l g' sv] e r that by auto
qed

lemma group_ok_steps:
  assumes "single_flight G" "run_steps sv G req s s'" "group_ok G req s"
  shows "group_ok G req s'"
  using assms(2) by (induction rule: rtranclp_induct) (use assms(3) flight_ok_step [OF assms(1)] in blast)+

lemma lock_ok_steps:
  assumes "single_flight G" "run_steps sv G req s s'" "group_ok G req s" "lock_ok (sr_lock s) (sr_at s)"
  shows "lock_ok (sr_lock s') (sr_at s')"
  using assms(2)
proof (induction rule: rtranclp_induct)
  case (step t t')
  from lock_ok_step [OF assms(1) step.hyps(2) group_ok_steps [OF assms(1) step.hyps(1) assms(3)] step.IH] show ?case .
qed (rule assms(4))

text \<open>The lock comes free: the readers leave one after the other, and then the writer is let in and leaves.\<close>

abbreviation lockFree :: "('s, 'g) scripterRun \<Rightarrow> bool" where
  "lockFree s \<equiv> sr_lock s = \<lparr>rw_readers = {}, rw_writer = None\<rparr>"

lemma read_leaves:
  assumes "sr_at s i = Read r"
  shows "\<exists>a. run_step sv G req s (s\<lparr>sr_lock := RUnlock i (sr_lock s), sr_at := (sr_at s)(i := a)\<rparr>)"
  by (rule exI, rule lock_step [OF assms]) simp

lemma reader_leaves:
  assumes "reading (sr_at s i)"
  shows "\<exists>s'. run_steps sv G req s s' \<and> sr_lock s' = RUnlock i (sr_lock s)"
proof (cases "sr_at s i")
  case Reading
  let ?t = "s\<lparr>sr_world := sr_world s, sr_at := (sr_at s)(i := Read (map_of (loaded (sr_world s)) (rq_name (req i))))\<rparr>"
  have "run_step sv G req s ?t" by (rule move_step [OF Reading]) (simp_all add: get_loaded_def)
  moreover have "sr_at ?t i = Read (map_of (loaded (sr_world s)) (rq_name (req i)))" by simp
  from read_leaves [OF this, of sv G req] obtain a where
    "run_step sv G req ?t (?t\<lparr>sr_lock := RUnlock i (sr_lock ?t), sr_at := (sr_at ?t)(i := a)\<rparr>)" by blast
  ultimately have "run_steps sv G req s (?t\<lparr>sr_lock := RUnlock i (sr_lock ?t), sr_at := (sr_at ?t)(i := a)\<rparr>)"
    by (meson converse_rtranclp_into_rtranclp r_into_rtranclp)
  then show ?thesis by (intro exI conjI) (assumption | simp)+
next
  case (Read r)
  from read_leaves [OF this, of sv G req] obtain a where
    "run_steps sv G req s (s\<lparr>sr_lock := RUnlock i (sr_lock s), sr_at := (sr_at s)(i := a)\<rparr>)" by blast
  then show ?thesis by (intro exI conjI) (assumption | simp)+
qed (use assms in simp_all)

lemma readers_leave:
  assumes "single_flight G" "group_ok G req s" "lock_ok (sr_lock s) (sr_at s)"
  shows "\<exists>s'. run_steps sv G req s s' \<and> rw_readers (sr_lock s') = {}"
  using assms(2,3)
proof (induction "card (rw_readers (sr_lock s))" arbitrary: s)
  case 0
  then have "rw_readers (sr_lock s) = {}" by (simp add: lock_ok_def)
  then show ?case by blast
next
  case (Suc n)
  then obtain i where i: "i \<in> rw_readers (sr_lock s)" by fastforce
  with Suc.prems(2) have "reading (sr_at s i)" by (simp add: lock_ok_def)
  from reader_leaves [OF this] obtain s1 where s1: "run_steps sv G req s s1" "sr_lock s1 = RUnlock i (sr_lock s)" by blast
  have "n = card (rw_readers (sr_lock s1))" using Suc.hyps(2) i Suc.prems(2) by (simp add: s1(2) RUnlock_def lock_ok_def)
  from Suc.hyps(1) [OF this group_ok_steps [OF assms(1) s1(1) Suc.prems(1)] lock_ok_steps [OF assms(1) s1(1) Suc.prems]]
  obtain s' where "run_steps sv G req s1 s'" "rw_readers (sr_lock s') = {}" by blast
  with s1(1) show ?case by (meson rtranclp_trans)
qed

lemma stored_leaves:
  assumes "sr_at s i = Stored sha"
  shows "run_step sv G req s (s\<lparr>sr_lock := Unlock (sr_lock s), sr_at := (sr_at s)(i := Flown (Inr sha))\<rparr>)"
  by (rule lock_step [OF assms]) simp

lemma storing_leaves:
  assumes "sr_at s i = Storing sha"
  shows "run_steps sv G req s (s\<lparr>sr_world := snd (run_state (set_loaded (rq_name (req i)) sha) (sr_world s)),
    sr_lock := Unlock (sr_lock s), sr_at := (sr_at s)(i := Flown (Inr sha))\<rparr>)"
proof -
  let ?t = "s\<lparr>sr_world := snd (run_state (set_loaded (rq_name (req i)) sha) (sr_world s)), sr_at := (sr_at s)(i := Stored sha)\<rparr>"
  have "run_step sv G req s ?t" by (rule move_step [OF assms]) (simp_all split: prod.splits)
  moreover have "run_step sv G req ?t (?t\<lparr>sr_lock := Unlock (sr_lock ?t), sr_at := (sr_at ?t)(i := Flown (Inr sha))\<rparr>)"
    by (rule stored_leaves) simp
  ultimately show ?thesis by simp
qed

lemma locking_leaves:
  assumes "sr_at s i = Locking sha" "rw_readers (sr_lock s) = {}"
  shows "run_steps sv G req s (s\<lparr>sr_world := snd (run_state (set_loaded (rq_name (req i)) sha) (sr_world s)),
    sr_lock := Unlock (sr_lock s), sr_at := (sr_at s)(i := Flown (Inr sha))\<rparr>)"
proof -
  let ?t = "s\<lparr>sr_lock := sr_lock s, sr_at := (sr_at s)(i := Storing sha)\<rparr>"
  have "run_step sv G req s ?t" by (rule lock_step [OF assms(1)]) (simp add: LockReturn_def assms(2))
  with storing_leaves [of ?t i sha sv G req] show ?thesis by (simp add: converse_rtranclp_into_rtranclp)
qed

lemma writer_leaves:
  assumes "writing (sr_at s i)" "rw_readers (sr_lock s) = {}"
  shows "\<exists>s'. run_steps sv G req s s' \<and> sr_lock s' = Unlock (sr_lock s)"
proof (cases "sr_at s i")
  case (Locking sha)
  from locking_leaves [OF this assms(2), of sv G req] show ?thesis by (intro exI conjI) (assumption | simp)+
next
  case (Storing sha)
  from storing_leaves [OF this, of sv G req] show ?thesis by (intro exI conjI) (assumption | simp)+
next
  case (Stored sha)
  from r_into_rtranclp [of "run_step sv G req", OF stored_leaves [OF this]] show ?thesis
    by (intro exI conjI) (assumption | simp)+
qed (use assms(1) in simp_all)

text \<open>The critical sections of a caller that finds the lock free.\<close>

lemma store_steps:
  assumes "sr_at s i = Uploaded sha" "lockFree s"
  shows "run_steps sv G req s (s\<lparr>sr_world := snd (run_state (set_loaded (rq_name (req i)) sha) (sr_world s)),
    sr_at := (sr_at s)(i := Flown (Inr sha))\<rparr>)"
proof -
  let ?s = "s\<lparr>sr_lock := \<lparr>rw_readers = {}, rw_writer = Some i\<rparr>, sr_at := (sr_at s)(i := Locking sha)\<rparr>"
  have "run_step sv G req s ?s" by (rule lock_step [OF assms(1)]) (simp add: LockCall_def assms(2))
  with locking_leaves [of ?s i sha sv G req] assms(2) show ?thesis
    by (cases s) (simp add: Unlock_def converse_rtranclp_into_rtranclp)
qed

lemma get_steps:
  assumes "sr_at s i = Called" "lockFree s"
  shows "run_steps sv G req s (s\<lparr>sr_at := (sr_at s)(i := (case map_of (loaded (sr_world s)) (rq_name (req i)) of
      None \<Rightarrow> Finished (Inl (PlainErr (''script '' @ [CHR 0x22] @ rq_name (req i) @ [CHR 0x22] @ '' not loaded'')))
    | Some sha \<Rightarrow> Found sha))\<rparr>)"
proof -
  let ?r = "map_of (loaded (sr_world s)) (rq_name (req i))"
  let ?s1 = "s\<lparr>sr_lock := \<lparr>rw_readers = {i}, rw_writer = None\<rparr>, sr_at := (sr_at s)(i := Reading)\<rparr>"
  let ?s2 = "?s1\<lparr>sr_world := sr_world s, sr_at := (sr_at ?s1)(i := Read ?r)\<rparr>"
  let ?a = "case ?r of None \<Rightarrow> Finished (Inl (PlainErr (''script '' @ [CHR 0x22] @ rq_name (req i) @ [CHR 0x22] @ '' not loaded'')))
    | Some sha \<Rightarrow> Found sha"
  have "run_step sv G req s ?s1" by (rule lock_step [OF assms(1)]) (simp add: RLock_def assms(2))
  moreover have "run_step sv G req ?s1 ?s2" by (rule move_step [of _ _ Reading]) (simp_all add: get_loaded_def)
  moreover have "run_step sv G req ?s2 (?s2\<lparr>sr_lock := \<lparr>rw_readers = {}, rw_writer = None\<rparr>, sr_at := (sr_at ?s2)(i := ?a)\<rparr>)"
    by (rule lock_step [of _ _ "Read ?r"]) (simp_all add: RUnlock_def)
  ultimately have "run_steps sv G req s (?s2\<lparr>sr_lock := \<lparr>rw_readers = {}, rw_writer = None\<rparr>, sr_at := (sr_at ?s2)(i := ?a)\<rparr>)"
    by (meson converse_rtranclp_into_rtranclp r_into_rtranclp)
  then show ?thesis using assms(2) by (cases s) simp
qed

lemma lock_comes_free:
  assumes G: "single_flight G" and fl: "group_ok G req s" and ok: "lock_ok (sr_lock s) (sr_at s)"
  shows "\<exists>s'. run_steps sv G req s s' \<and> group_ok G req s' \<and> lock_ok (sr_lock s') (sr_at s') \<and> lockFree s'"
proof -
  have keep: "group_ok G req t \<and> lock_ok (sr_lock t) (sr_at t)" if "run_steps sv G req s t" for t
    using group_ok_steps [OF G that fl] lock_ok_steps [OF G that fl ok] by simp
  from readers_leave [OF assms] obtain s1 where s1: "run_steps sv G req s s1" "rw_readers (sr_lock s1) = {}" by blast
  show ?thesis
  proof (cases "rw_writer (sr_lock s1)")
    case None
    then have "lockFree s1" using s1(2) by simp
    with keep [OF s1(1)] s1(1) show ?thesis by blast
  next
    case (Some i)
    with keep [OF s1(1)] have "writing (sr_at s1 i)" unfolding lock_ok_def by blast
    from writer_leaves [OF this s1(2)] obtain s2 where s2: "run_steps sv G req s1 s2" "sr_lock s2 = Unlock (sr_lock s1)" by blast
    have "run_steps sv G req s s2" using s1(1) s2(1) by simp
    moreover have "lockFree s2" using s1(2) s2(2) by (simp add: Unlock_def)
    ultimately show ?thesis using keep by blast
  qed
qed

text \<open>An execution comes to its end, and with it everyone who waits for it.\<close>

definition canLand ::
  "('s, 't) services \<Rightarrow> 'g flightGroup \<Rightarrow> (nat \<Rightarrow> runReq) \<Rightarrow> nat \<Rightarrow> ('s, 'g) scripterRun \<Rightarrow> bool" where
  "canLand sv G req l s \<longleftrightarrow> (\<exists>s' r. run_steps sv G req s s' \<and> (\<forall>j. j = l \<or> sr_at s j = Waiting l \<longrightarrow> sr_at s' j = Again r))"

lemma canLand_flown:
  assumes "single_flight G" "group_ok G req s" "sr_at s l = Flown r"
  shows "canLand sv G req l s"
proof -
  obtain js g' where e: "fg_leave G (rq_name (req l)) (sr_group s) = (js, g')" by fastforce
  let ?s = "s\<lparr>sr_group := g', sr_at := landed l r js (sr_at s)\<rparr>"
  have "run_steps sv G req s ?s" using lands [of s l r G req js g' sv] assms(3) e by blast
  moreover have "sr_at ?s j = Again r" if "j = l \<or> sr_at s j = Waiting l" for j
    using that landed_waiting [OF assms(2,3) single_flight_leave(1) [OF assms(1) e]] by simp
  ultimately show ?thesis unfolding canLand_def by blast
qed

lemma canLand_steps:
  assumes "run_steps sv G req s s'" "canLand sv G req l s'" "\<And>j. sr_at s j = Waiting l \<Longrightarrow> sr_at s' j = Waiting l"
  shows "canLand sv G req l s"
proof -
  from assms(2) obtain t r where t: "run_steps sv G req s' t" "\<forall>j. j = l \<or> sr_at s' j = Waiting l \<longrightarrow> sr_at t j = Again r"
    unfolding canLand_def by blast
  from assms(1) t(1) have "run_steps sv G req s t" by simp
  with t(2) assms(3) show ?thesis unfolding canLand_def by blast
qed

lemma canLand_uploaded:
  assumes G: "single_flight G" and fl: "group_ok G req s" and free: "lockFree s" and u: "sr_at s l = Uploaded sha"
  shows "canLand sv G req l s"
proof -
  note st = store_steps [OF u free, of sv G req]
  from canLand_flown [OF G group_ok_steps [OF G st fl], of l "Inr sha"] st show ?thesis
    by (intro canLand_steps [OF st]) (use u in auto)
qed

lemma notWriting:
  assumes "lock_ok (sr_lock s) (sr_at s)" "lockFree s"
  shows "\<not> writing (sr_at s i)" "\<not> reading (sr_at s i)"
  using assms by (simp_all add: lock_ok_def)

lemma flight_lands:
  assumes G: "single_flight G" and fl: "group_ok G req s" and lk: "lock_ok (sr_lock s) (sr_at s)" and free: "lockFree s"
    and f: "flying (sr_at s l)"
  shows "canLand sv G req l s"
proof (cases "sr_at s l")
  case Uploading
  obtain a' w' where run: "run_state (advance sv (req l) Uploading) (sr_world s) = (a', w')" by fastforce
  let ?s = "s\<lparr>sr_world := w', sr_at := (sr_at s)(l := a')\<rparr>"
  have step: "run_step sv G req s ?s" using Uploading _ run by (rule move_step) simp
  have fl': "group_ok G req ?s" using flight_ok_step [OF G step fl] .
  from run have "(\<exists>r. a' = Flown r) \<or> (\<exists>sha. a' = Uploaded sha)"
    by (auto simp: advance_defs split: prod.splits sum.splits gval.splits)
  then have "canLand sv G req l ?s"
  proof (elim disjE exE)
    fix r
    assume "a' = Flown r"
    then show ?thesis by (intro canLand_flown [OF G fl']) simp
  next
    fix sha
    assume "a' = Uploaded sha"
    then show ?thesis using free by (intro canLand_uploaded [OF G fl']) simp_all
  qed
  with r_into_rtranclp [of "run_step sv G req", OF step] show ?thesis by (rule canLand_steps) (use Uploading in auto)
next
  case (Flown r)
  then show ?thesis by (rule canLand_flown [OF G fl])
next
  case (Uploaded sha)
  then show ?thesis by (rule canLand_uploaded [OF G fl free])
qed (use f notWriting [OF lk free, of l] in simp_all)

definition canFinish ::
  "('s, 't) services \<Rightarrow> 'g flightGroup \<Rightarrow> (nat \<Rightarrow> runReq) \<Rightarrow> nat \<Rightarrow> ('s, 'g) scripterRun \<Rightarrow> bool" where
  "canFinish sv G req i s \<longleftrightarrow> (\<exists>s' r. run_steps sv G req s s' \<and> sr_at s' i = Finished r)"

lemma canFinish_steps: "run_steps sv G req s s' \<Longrightarrow> canFinish sv G req i s' \<Longrightarrow> canFinish sv G req i s"
  unfolding canFinish_def by (meson rtranclp_trans)

lemma canFinish_again:
  assumes "sr_at s i = Again l"
  shows "canFinish sv G req i s"
proof -
  obtain a w' where run: "run_state (advance sv (req i) (Again l)) (sr_world s) = (a, w')" by fastforce
  then obtain r where "a = Finished r" by (auto simp: advance_defs split: prod.splits sum.splits)
  moreover have "run_step sv G req s (s\<lparr>sr_world := w', sr_at := (sr_at s)(i := a)\<rparr>)"
    using assms _ run by (rule move_step) simp
  ultimately have "sr_at (s\<lparr>sr_world := w', sr_at := (sr_at s)(i := a)\<rparr>) i = Finished r"
    "run_steps sv G req s (s\<lparr>sr_world := w', sr_at := (sr_at s)(i := a)\<rparr>)" by auto
  then show ?thesis unfolding canFinish_def by blast
qed

text \<open>The states from which the rest is shown: the invariants hold and the lock is free.\<close>

definition calm :: "'g flightGroup \<Rightarrow> (nat \<Rightarrow> runReq) \<Rightarrow> ('s, 'g) scripterRun \<Rightarrow> bool" where
  "calm G req s \<longleftrightarrow> group_ok G req s \<and> lock_ok (sr_lock s) (sr_at s) \<and> lockFree s"

lemma calm_steps:
  assumes "single_flight G" "calm G req s" "run_steps sv G req s s'" "lockFree s'"
  shows "calm G req s'"
  using assms group_ok_steps lock_ok_steps unfolding calm_def by blast

lemmas calm_step = calm_steps [OF _ _ r_into_rtranclp]

lemma canFinish_landing:
  assumes "single_flight G" "calm G req s" "flying (sr_at s l)" "i = l \<or> sr_at s i = Waiting l"
  shows "canFinish sv G req i s"
proof -
  from flight_lands [OF assms(1) _ _ _ assms(3), of req sv] assms(2,4) obtain s' r where
    "run_steps sv G req s s'" "sr_at s' i = Again r"
    unfolding canLand_def calm_def by blast
  then show ?thesis by (blast intro: canFinish_steps canFinish_again)
qed

lemma canFinish_missed:
  assumes G: "single_flight G" and ok: "calm G req s" and m: "sr_at s i = Missed"
  shows "canFinish sv G req i s"
proof -
  have free: "lockFree s" and fl: "group_ok G req s" using ok by (simp_all add: calm_def)
  show ?thesis
  proof (cases "fg_flight G (sr_group s) (rq_name (req i))")
    case None
    from enter_steps(1) [of G s i req, OF G m None] obtain g' where
      step: "run_step sv G req s (s\<lparr>sr_group := g', sr_at := (sr_at s)(i := Uploading)\<rparr>)" by blast
    then have "calm G req (s\<lparr>sr_group := g', sr_at := (sr_at s)(i := Uploading)\<rparr>)"
      by (rule calm_step [OF G ok]) (simp add: free)
    from canFinish_landing [OF G this, of i i sv] step show ?thesis by (auto intro: canFinish_steps)
  next
    case (Some l)
    from enter_steps(2) [of G s i req, OF G m Some] obtain g' where
      step: "run_step sv G req s (s\<lparr>sr_group := g', sr_at := (sr_at s)(i := Waiting l)\<rparr>)" by blast
    then have c: "calm G req (s\<lparr>sr_group := g', sr_at := (sr_at s)(i := Waiting l)\<rparr>)"
      by (rule calm_step [OF G ok]) (simp add: free)
    have "flying (sr_at s l)" using flight_okD(1) [OF fl] Some by blast
    then have "l \<noteq> i" using m by auto
    with \<open>flying (sr_at s l)\<close> canFinish_landing [OF G c, of l i sv] step show ?thesis by (auto intro: canFinish_steps)
  qed
qed

lemma canFinish_found:
  assumes G: "single_flight G" and ok: "calm G req s" and f: "sr_at s i = Found sha"
  shows "canFinish sv G req i s"
proof -
  obtain a w' where run: "run_state (advance sv (req i) (Found sha)) (sr_world s) = (a, w')" by fastforce
  then have a: "a = Missed \<or> (\<exists>r. a = Finished r)" by (auto simp: advance_defs split: prod.splits sum.splits if_splits)
  let ?s = "s\<lparr>sr_world := w', sr_at := (sr_at s)(i := a)\<rparr>"
  have step: "run_step sv G req s ?s" using f run by (intro move_step) auto
  have "calm G req ?s" using step by (rule calm_step [OF G ok]) (use ok in \<open>simp add: calm_def\<close>)
  then have "canFinish sv G req i ?s" if "a = Missed" using that by (intro canFinish_missed [OF G]) simp_all
  moreover have "canFinish sv G req i ?s" if "a = Finished r" for r using that by (force simp: canFinish_def)
  ultimately have "canFinish sv G req i ?s" using a by blast
  with step show ?thesis by (meson canFinish_steps r_into_rtranclp)
qed

lemma canFinish_called:
  assumes G: "single_flight G" and ok: "calm G req s" and c: "sr_at s i = Called"
  shows "canFinish sv G req i s"
proof -
  have free: "lockFree s" using ok by (simp add: calm_def)
  note st = get_steps [OF c free, of sv G req]
  show ?thesis
  proof (cases "map_of (loaded (sr_world s)) (rq_name (req i))")
    case None
    with st show ?thesis unfolding canFinish_def by (intro exI conjI) auto
  next
    case (Some sha)
    with calm_steps [OF G ok st] free have "calm G req (s\<lparr>sr_at := (sr_at s)(i := Found sha)\<rparr>)" by simp
    from canFinish_found [OF G this, of i sha sv] st Some show ?thesis by (auto intro: canFinish_steps)
  qed
qed

lemma canFinish_calm:
  assumes G: "single_flight G" and ok: "calm G req s"
  shows "canFinish sv G req i s"
proof -
  have fl: "group_ok G req s" and n: "\<not> writing (sr_at s i)" "\<not> reading (sr_at s i)"
    using ok notWriting [of s i] unfolding calm_def by blast+
  show ?thesis
  proof (cases "sr_at s i")
    case (Waiting l)
    then show ?thesis using flight_okD(2) [OF fl Waiting] by (intro canFinish_landing [OF G ok, of l]) auto
  next
    case (Finished r)
    then show ?thesis unfolding canFinish_def by blast
  qed (use n in \<open>auto intro: canFinish_called [OF G ok] canFinish_found [OF G ok] canFinish_missed [OF G ok]
      canFinish_landing [OF G ok, of i] canFinish_again\<close>)
qed

lemma canFinish_always:
  assumes G: "single_flight G" and "group_ok G req s" "lock_ok (sr_lock s) (sr_at s)"
  shows "canFinish sv G req i s"
proof -
  from lock_comes_free [OF assms] obtain s' where "run_steps sv G req s s'" "calm G req s'" unfolding calm_def by blast
  then show ?thesis using canFinish_calm [OF G] by (blast intro: canFinish_steps)
qed

section \<open>Lemmas: a caller that is alone\<close>

definition runsTo ::
  "('s, 't) services \<Rightarrow> 'g flightGroup \<Rightarrow> (nat \<Rightarrow> runReq) \<Rightarrow> nat \<Rightarrow> runAt \<Rightarrow> 's world \<Rightarrow> ('s, 'g) scripterRun \<Rightarrow> bool" where
  "runsTo sv G req i a w s \<longleftrightarrow> (\<exists>s'. run_steps sv G req s s' \<and> sr_at s' i = a \<and> sr_world s' = w)"

lemma runsTo_refl: "sr_at s i = a \<Longrightarrow> sr_world s = w \<Longrightarrow> runsTo sv G req i a w s"
  unfolding runsTo_def by blast

lemma runsTo_steps:
  assumes "run_steps sv G req s s'" "runsTo sv G req i a w s'"
  shows "runsTo sv G req i a w s"
proof -
  from assms(2) obtain u where "run_steps sv G req s' u" "sr_at u i = a" "sr_world u = w" unfolding runsTo_def by blast
  with rtranclp_trans [OF assms(1)] show ?thesis unfolding runsTo_def by blast
qed

lemmas runsTo_step = runsTo_steps [OF r_into_rtranclp]

lemma runsTo_move:
  assumes "sr_at s i = a" "onItsOwn a" "run_state (advance sv (req i) a) (sr_world s) = (a', w')"
    "runsTo sv G req i b w (s\<lparr>sr_world := w', sr_at := (sr_at s)(i := a')\<rparr>)"
  shows "runsTo sv G req i b w s"
  by (rule runsTo_step, rule move_step) (rule assms)+

text \<open>\<open>load\<close> by a caller that finds no execution in flight, and the lock free.\<close>

lemma load_alone:
  assumes G: "single_flight G" and m: "sr_at s i = Missed" and f: "fg_flight G (sr_group s) (rq_name (req i)) = None"
    and free: "lockFree s"
    and run: "run_state (load sv (rq_ctx (req i)) (rq_name (req i))) (sr_world s) = (l, w')"
  shows "runsTo sv G req i (Again l) w' s"
proof -
  from enter_steps(1) [of G s i req, OF G m f] obtain g' where
    lead: "run_step sv G req s (s\<lparr>sr_group := g', sr_at := (sr_at s)(i := Uploading)\<rparr>)" by blast
  let ?s = "s\<lparr>sr_group := g', sr_at := (sr_at s)(i := Uploading)\<rparr>"
  have land: "runsTo sv G req i (Again r) (sr_world t) t" if t: "sr_at t i = Flown r" for t r
  proof -
    obtain js g where "fg_leave G (rq_name (req i)) (sr_group t) = (js, g)" by fastforce
    with t have "run_step sv G req t (t\<lparr>sr_group := g, sr_at := landed i r js (sr_at t)\<rparr>)" by (rule lands)
    then show ?thesis by (rule runsTo_step) (simp add: runsTo_refl landed_def)
  qed
  obtain a w1 where up: "run_state (advance sv (req i) Uploading) (sr_world s) = (a, w1)" by fastforce
  let ?t = "?s\<lparr>sr_world := w1, sr_at := (sr_at ?s)(i := a)\<rparr>"
  have "runsTo sv G req i (Again l) w' ?t"
  proof (cases l)
    case (Inl err)
    then have "a = Flown l" "w1 = w'"
      using up run by (auto simp: uploadScript_def load_def split: sum.splits prod.splits)
    then show ?thesis using land [of ?t l] by simp
  next
    case (Inr sha)
    then have a: "a = Uploaded sha" "run_state (set_loaded (rq_name (req i)) sha) w1 = ((), w')"
      using up run by (auto simp: uploadScript_def load_def split: sum.splits prod.splits)
    then have "run_steps sv G req ?t (?t\<lparr>sr_world := w', sr_at := (sr_at ?t)(i := Flown l)\<rparr>)"
      using store_steps [of ?t i sha sv G req] free Inr by simp
    then show ?thesis
      by (rule runsTo_steps) (use land [of "?t\<lparr>sr_world := w', sr_at := (sr_at ?t)(i := Flown l)\<rparr>" l] in simp)
  qed
  then have "runsTo sv G req i (Again l) w' ?s" using up by (intro runsTo_move [of ?s i Uploading sv req a w1]) simp_all
  with lead show ?thesis by (rule runsTo_step)
qed

lemma runScript_alone:
  assumes G: "single_flight G" and c: "sr_at s i = Called" and f: "fg_flight G (sr_group s) (rq_name (req i)) = None"
    and free: "lockFree s"
    and run: "run_state (runScript sv (rq_ctx (req i)) (rq_name (req i)) (rq_keys (req i)) (rq_args (req i))) (sr_world s) = (r, w')"
  shows "runsTo sv G req i (Finished r) w' s"
proof (cases "map_of (loaded (sr_world s)) (rq_name (req i))")
  case None
  with run have "r = Inl (PlainErr (''script '' @ [CHR 0x22] @ rq_name (req i) @ [CHR 0x22] @ '' not loaded''))" "w' = sr_world s"
    by (auto simp: runScript_def get_script_def get_loaded_def)
  then have "run_steps sv G req s (s\<lparr>sr_at := (sr_at s)(i := Finished r)\<rparr>)" "w' = sr_world s"
    using get_steps [OF c free, of sv G req] None by simp_all
  then show ?thesis unfolding runsTo_def by (intro exI [of _ "s\<lparr>sr_at := (sr_at s)(i := Finished r)\<rparr>"]) simp
next
  case (Some sha)
  let ?s = "s\<lparr>sr_at := (sr_at s)(i := Found sha)\<rparr>"
  obtain b w2 where tr: "run_state (advance sv (req i) (Found sha)) (sr_world s) = (b, w2)" by fastforce
  let ?t = "?s\<lparr>sr_world := w2, sr_at := (sr_at ?s)(i := b)\<rparr>"
  obtain l w3 where l: "run_state (load sv (rq_ctx (req i)) (rq_name (req i))) w2 = (l, w3)" by fastforce
  have "b = Finished r \<and> w2 = w' \<or> b = Missed \<and> run_state (advance sv (req i) (Again l)) w3 = (Finished r, w')"
    using run tr Some l
    by (auto simp: runScript_def get_script_def get_loaded_def firstTry_def secondTry_def split: prod.splits sum.splits if_splits)
  then have "runsTo sv G req i (Finished r) w' ?t"
  proof (elim disjE conjE)
    assume m: "b = Missed" and again: "run_state (advance sv (req i) (Again l)) w3 = (Finished r, w')"
    have "runsTo sv G req i (Again l) w3 ?t" using m l f free by (intro load_alone [OF G]) simp_all
    then obtain u where u: "run_steps sv G req ?t u" "sr_at u i = Again l" "sr_world u = w3" unfolding runsTo_def by blast
    have "runsTo sv G req i (Finished r) w' u"
      by (rule runsTo_move [OF u(2)]) (use again u(3) in \<open>auto intro!: runsTo_refl\<close>)
    with u(1) show ?thesis by (rule runsTo_steps)
  qed (simp add: runsTo_refl)
  then have "runsTo sv G req i (Finished r) w' ?s" using tr by (intro runsTo_move [of ?s i "Found sha" sv req b w2]) simp_all
  then show ?thesis using get_steps [OF c free, of sv G req] Some by (auto intro: runsTo_steps)
qed

section \<open>A group\<close>

text \<open>
  A group that does what the documentation says: the keys in flight with their callers and the
  duplicates of each.
\<close>

definition mapGroup :: "(string \<times> nat \<times> nat list) list flightGroup" where
  "mapGroup = \<lparr>
     fg_enter = (\<lambda>k i g. case map_of g k of
         None \<Rightarrow> (None, (k, i, []) # g)
       | Some (l, js) \<Rightarrow> (Some l, (k, l, i # js) # filter (\<lambda>e. fst e \<noteq> k) g)),
     fg_leave = (\<lambda>k g. (case map_of g k of None \<Rightarrow> [] | Some (l, js) \<Rightarrow> js, filter (\<lambda>e. fst e \<noteq> k) g)),
     fg_flight = (\<lambda>g k. map_option fst (map_of g k)),
     fg_joined = (\<lambda>g k. case map_of g k of None \<Rightarrow> {} | Some (l, js) \<Rightarrow> set js)\<rparr>"

lemma map_of_filter_neq: "map_of (filter (\<lambda>e. fst e \<noteq> k) g) = (map_of g)(k := None)"
  by (induction g) auto

lemma mapGroup_single_flight: "single_flight mapGroup"
  unfolding single_flight_def
proof (intro conjI allI)
  fix k i and g :: "(string \<times> nat \<times> nat list) list"
  show "let (r, g') = fg_enter mapGroup k i g in r = fg_flight mapGroup g k \<and>
        (case r of
           None \<Rightarrow> fg_flight mapGroup g' = (fg_flight mapGroup g)(k \<mapsto> i) \<and> fg_joined mapGroup g' = fg_joined mapGroup g
         | Some _ \<Rightarrow> fg_flight mapGroup g' = fg_flight mapGroup g \<and>
             fg_joined mapGroup g' = (fg_joined mapGroup g)(k := insert i (fg_joined mapGroup g k)))"
    by (auto simp: mapGroup_def map_of_filter_neq fun_eq_iff split: option.split)
  show "let (js, g') = fg_leave mapGroup k g in set js = fg_joined mapGroup g k \<and>
      fg_flight mapGroup g' = (fg_flight mapGroup g)(k := None) \<and> fg_joined mapGroup g' = (fg_joined mapGroup g)(k := {})"
    by (auto simp: mapGroup_def map_of_filter_neq fun_eq_iff split: option.split)
qed

text \<open>The steps as a function: the callers move in a given order, and one that is blocked stays where it is.\<close>

definition nextStep ::
  "('s, 't) services \<Rightarrow> 'g flightGroup \<Rightarrow> (nat \<Rightarrow> runReq) \<Rightarrow> nat \<Rightarrow> ('s, 'g) scripterRun \<Rightarrow> ('s, 'g) scripterRun" where
  "nextStep sv G req i s =
     (let a = sr_at s i in
      if onItsOwn a then
        (case run_state (advance sv (req i) a) (sr_world s) of
           (a', w') \<Rightarrow> s\<lparr>sr_world := w', sr_at := (sr_at s)(i := a')\<rparr>)
      else (case a of
          Missed \<Rightarrow> (case fg_enter G (rq_name (req i)) i (sr_group s) of
              (None, g') \<Rightarrow> s\<lparr>sr_group := g', sr_at := (sr_at s)(i := Uploading)\<rparr>
            | (Some l, g') \<Rightarrow> s\<lparr>sr_group := g', sr_at := (sr_at s)(i := Waiting l)\<rparr>)
        | Flown r \<Rightarrow> (case fg_leave G (rq_name (req i)) (sr_group s) of
              (js, g') \<Rightarrow> s\<lparr>sr_group := g', sr_at := landed i r js (sr_at s)\<rparr>)
        | _ \<Rightarrow> (case lockMove (req i) i a (sr_lock s) of
              None \<Rightarrow> s
            | Some (a', m) \<Rightarrow> s\<lparr>sr_lock := m, sr_at := (sr_at s)(i := a')\<rparr>)))"

lemma nextStep_steps: "run_steps sv G req s (nextStep sv G req i s)"
proof -
  consider (own) "onItsOwn (sr_at s i)" | (missed) "sr_at s i = Missed" | (flown) r where "sr_at s i = Flown r"
    | (lock) "\<not> onItsOwn (sr_at s i)" "\<And>r. sr_at s i \<noteq> Flown r" "sr_at s i \<noteq> Missed" by blast
  then show ?thesis
  proof cases
    case own
    obtain a' w' where run: "run_state (advance sv (req i) (sr_at s i)) (sr_world s) = (a', w')" by fastforce
    have "run_step sv G req s (s\<lparr>sr_world := w', sr_at := (sr_at s)(i := a')\<rparr>)" using own run by (rule moves)
    with run own show ?thesis by (simp add: nextStep_def r_into_rtranclp)
  next
    case missed
    then show ?thesis by (auto simp: nextStep_def split: prod.splits option.splits intro!: r_into_rtranclp leads merges)
  next
    case flown
    then show ?thesis by (auto simp: nextStep_def split: prod.splits intro!: r_into_rtranclp lands)
  next
    case lock
    then have "nextStep sv G req i s = (case lockMove (req i) i (sr_at s i) (sr_lock s) of
        None \<Rightarrow> s | Some (a', m) \<Rightarrow> s\<lparr>sr_lock := m, sr_at := (sr_at s)(i := a')\<rparr>)"
      by (cases "sr_at s i") (auto simp: nextStep_def Let_def)
    then show ?thesis by (auto split: option.splits intro!: r_into_rtranclp locks)
  qed
qed

lemma nextSteps_steps: "run_steps sv G req s (fold (nextStep sv G req) is s)"
  by (induction "is" arbitrary: s) (auto intro: rtranclp_trans nextStep_steps)

section \<open>Properties\<close>

text \<open>
  C10: However many goroutines run scripts at a time, each script is uploaded by at most one of them
  at any moment, a goroutine that waits for an upload waits for one of its own script that is still
  under way, and there are never more uploads than NOSCRIPT replies.
\<close>

theorem one_upload_at_a_time:
  assumes "single_flight G" "runsBegin G s0" "run_steps sv G req s0 s"
  shows "(\<forall>i j. flying (sr_at s i) \<and> flying (sr_at s j) \<and> rq_name (req i) = rq_name (req j) \<longrightarrow> i = j) \<and>
    (\<forall>i l. sr_at s i = Waiting l \<longrightarrow> flying (sr_at s l) \<and> rq_name (req l) = rq_name (req i)) \<and>
    (\<exists>es. trace (sr_world s) = trace (sr_world s0) @ es \<and> uploads es \<le> reloads es)"
proof (intro conjI allI impI)
  note ok = flight_okD [OF flight_ok_reachable [OF assms]]
  fix i j
  assume "flying (sr_at s i) \<and> flying (sr_at s j) \<and> rq_name (req i) = rq_name (req j)"
  with ok(1) [of "rq_name (req i)" i] ok(1) [of "rq_name (req i)" j] show "i = j" by simp
next
  from runs_ok_reachable [OF assms] show "\<exists>es. trace (sr_world s) = trace (sr_world s0) @ es \<and> uploads es \<le> reloads es"
    unfolding runs_ok_def by (meson add_leD1)
qed (use flight_okD(2) [OF flight_ok_reachable [OF assms]] in blast)+

text \<open>
  C11: What a goroutine gets from \<open>Run\<close> is its own whatever the others do: the reply to an EVALSHA with
  its own context, keys and arguments and with a SHA that belongs to its script (it was in the table
  from the start, or SCRIPT LOAD returned it for the text of that script); or the error that the
  script is not loaded, only when it was not in the table at the start; or that an upload of this script failed after NOSCRIPT.
\<close>

theorem concurrent_runs_get_their_answers:
  assumes "single_flight G" "runsBegin G s0" "run_steps sv G req s0 s"
  shows "\<exists>es. trace (sr_world s) = trace (sr_world s0) @ es \<and>
    (\<forall>i r. sr_at s i = Finished r \<longrightarrow> runResult sv (loaded (sr_world s0)) es (req i) r)"
proof -
  from runs_ok_reachable [OF assms] obtain es where es: "trace (sr_world s) = trace (sr_world s0) @ es"
    "\<forall>i. pointOk sv (loaded (sr_world s0)) es (req i) (sr_at s i)" unfolding runs_ok_def by blast
  have "runResult sv (loaded (sr_world s0)) es (req i) r" if "sr_at s i = Finished r" for i r
    using es(2) that by (metis pointOk_def runAt.case(14))
  with es(1) show ?thesis by blast
qed

text \<open>
  C12: Nobody is left behind: from every state that goroutines in \<open>Run\<close> can reach together, each of
  them can come back from \<open>Run\<close>, also one that is blocked by the lock of the table, by readers that
  are still inside or by an upload of another.
\<close>

theorem concurrent_run_can_finish:
  assumes "single_flight G" "runsBegin G s0" "run_steps sv G req s0 s"
  shows "\<exists>s' r. run_steps sv G req s s' \<and> sr_at s' i = Finished r"
  using canFinish_always [OF assms(1) flight_ok_reachable [OF assms] lock_ok_reachable [OF assms]] unfolding canFinish_def .

text \<open>
  C21: The table of loaded scripts is never read while it is written, and never written by two
  goroutines at a time, under every interleaving of any number of callers.
\<close>

theorem table_access_exclusive:
  assumes "single_flight G" "runsBegin G s0" "run_steps sv G req s0 s" "storing (sr_at s i)"
  shows "\<not> reading (sr_at s j) \<and> (storing (sr_at s j) \<longrightarrow> j = i)"
proof -
  from lock_ok_reachable [OF assms(1-3)] have ok: "\<And>k. k \<in> rw_readers (sr_lock s) \<longleftrightarrow> reading (sr_at s k)"
    "\<And>k. rw_writer (sr_lock s) = Some k \<longleftrightarrow> writing (sr_at s k)" "rw_readers (sr_lock s) = {}"
    using assms(4) unfolding lock_ok_def by blast+
  have "\<not> reading (sr_at s j)" using ok(1) [of j] ok(3) by simp
  moreover have "j = i" if "storing (sr_at s j)"
    using ok(2) [of i] ok(2) [of j] storing_writing [OF that] storing_writing [OF assms(4)] by simp
  ultimately show ?thesis by blast
qed

text \<open>A script that was in the table at the start is never reported as not loaded.\<close>

lemma loaded_script_is_found:
  assumes "single_flight G" "runsBegin G s0" "run_steps sv G req s0 s"
    and "sr_at s i = Finished (Inl err)" "rq_name (req i) \<in> dom (map_of (loaded (sr_world s0)))"
  shows "\<exists>es. trace (sr_world s) = trace (sr_world s0) @ es \<and>
    ((\<exists>sha. Cmd (EvalSha (rq_ctx (req i)) sha (rq_keys (req i)) (rq_args (req i))) (Inl err) \<in> set es) \<or>
     (\<exists>e. loadFailed sv es (rq_name (req i)) e \<and> err = errorf (''reload '' @ rq_name (req i) @ '' after NOSCRIPT: '') e))"
proof -
  from runs_ok_reachable [OF assms(1-3)] obtain es where es: "trace (sr_world s) = trace (sr_world s0) @ es"
    "pointOk sv (loaded (sr_world s0)) es (req i) (sr_at s i)" unfolding runs_ok_def by blast
  then have r: "runResult sv (loaded (sr_world s0)) es (req i) (Inl err)" using assms(4) by (simp add: pointOk_def)
  show ?thesis
    by (intro exI [of _ es] conjI es(1))
      (rule disjE [OF r [unfolded runResult_def]], use assms(5) in \<open>auto simp only: domIff sum.inject\<close>)
qed

end
