(* ===== verification/Scenario.thy ===== *)
theory Scenario
  imports Lifecycle Queue_Add Client Flight
begin

text \<open>
  Concrete services, a worker, a queue and worlds on which the definitions run: the external
  state is a list of canned replies and a list of the answers to \<open>runCtx.Err() != nil\<close> (when they
  are used up the job contexts are cancelled too).  The
  witnesses of the properties evaluate the components on them.
\<close>

type_synonym script_state = "(goerr + gval) list \<times> bool list"

definition demo :: "(script_state, string) services" where
  "demo =
     \<lparr>sv_redis = (\<lambda>c s. case fst s of [] \<Rightarrow> (Inr (GInt64 0), s) | r # rs \<Rightarrow> (r, (rs, snd s))),
      sv_now = (\<lambda>s. (1700000000000000000, s)),
      sv_uuid = (\<lambda>s. (''tok'', s)),
      sv_rng = (\<lambda>s. (0, s)),
      sv_runDone = (\<lambda>s. case snd s of [] \<Rightarrow> (True, s) | b # bs \<Rightarrow> (b, (fst s, bs))),
      sv_jobsDone = (\<lambda>s. (snd s = [], s)),
      sv_timer = (\<lambda>d s. (False, s)),
      sv_ticks = (\<lambda>d s. (1, s)),
      sv_handler = (\<lambda>c job s. (Returns (Inr (Inr ''null'')), s)),
      sv_stack = (\<lambda>s. (''goroutine 1'', s)),
      sv_marshal = (\<lambda>v. Inr ''m''),
      sv_cron = \<lparr>cl_parse = (\<lambda>p. if CHR ''|'' \<in> set p then Inl (PlainErr ''bad'') else Inr (\<lambda>loc t. t + 60000000000)),
                 cl_load = (\<lambda>tz. if CHR ''|'' \<in> set tz then Inl (PlainErr ''bad'') else Inr tz)\<rparr>,
      sv_source = (\<lambda>name. Inr name),
      sv_zero = [],
      sv_unmarshal = (\<lambda>s. Inr s),
      sv_marshal_data = (\<lambda>s. Inr s)\<rparr>"

text \<open>The same services after the worker was stopped.\<close>

definition demo_stopped :: "(script_state, string) services" where
  "demo_stopped = demo\<lparr>sv_runDone := (\<lambda>s. (True, s)), sv_redis := (\<lambda>c s. (Inr (GInt64 0), s))\<rparr>"

definition demo_queue :: Queue where
  "demo_queue = \<lparr>q_name = ''mail'', q_keys = New [] ''mail''\<rparr>"

definition demo_worker :: Worker where
  "demo_worker = \<lparr>w_cfg = default_workerConfig\<lparr>wc_workerName := ''w''\<rparr>, w_keys = newQueueKeys (q_keys demo_queue),
     w_queueName = ''mail'', w_wakeKey = ''bull:mail:mkq:wake:u''\<rparr>"

definition demo_world :: "(goerr + gval) list \<Rightarrow> bool list \<Rightarrow> script_state world" where
  "demo_world rs bs = \<lparr>ext = (rs, bs), loaded = map (\<lambda>n. (n, n)) preloadNames, trace = []\<rparr>"

text \<open>The options of a job with two attempts.\<close>

definition two_attempts :: hash where
  "two_attempts = [(''opts'', [CHR 0x7B, CHR 0x22] @ ''attempts'' @ [CHR 0x22, CHR 0x3A, CHR 0x32, CHR 0x7D])]"

text \<open>The reply to the HMGET of a schedule with an interval of sixty milliseconds, and of one with a pattern.\<close>

definition demo_interval :: "gval list" where
  "demo_interval = [GNil, GNil, GStr ''60'', GNil, GNil, GNil, GNil, GNil]"

definition demo_pattern :: "gval list" where
  "demo_pattern = [GNil, GNil, GNil, GNil, GNil, GStr ''@daily'', GNil, GNil]"

text \<open>A reply that carries a job.\<close>

definition jobReply :: "string \<Rightarrow> goerr + gval" where
  "jobReply jobID = Inr (GArr [GArr (hgetall_reply [(''name'', ''mail''), (''data'', ''{}''), (''timestamp'', ''1'')]),
     GStr jobID, GInt64 0, GInt64 0])"

lemma demo_marshal [simp]: "marshal_total demo" "marshal_total demo_stopped"
  by (simp_all add: marshal_total_def encoded_def demo_def demo_stopped_def)

lemma demo_shut [simp]: "shut demo_stopped"
  by (simp add: shut_def stopped_def honours_flag_def) (simp add: demo_stopped_def)

text \<open>
  One dispatcher takes job 7, whose terminal call hands it job 8, and is stopped before it runs
  that one: it leaves after releasing the lock of job 8.
\<close>

definition demo_run :: "script_state world" where
  "demo_run = demo_world [jobReply ''7'', Inr (GInt64 1), jobReply ''8''] [False, False, True]"

text \<open>
  A Redis with two keys that end in \<open>:meta\<close>: the meta hash of a queue and a string of another
  program.
\<close>

definition demo_scan :: "(script_state, string) services" where
  "demo_scan = demo\<lparr>sv_redis := (\<lambda>c s. (case c of
       ScanCmd ct node cur p n \<Rightarrow>
         Inr (GArr [GStr ''0'', GArr (map GStr (filter (glob p) [''bull:mail:meta'', ''bull:mail:de:x:meta'', ''bull:mail:id'']))])
     | _ \<Rightarrow> Inr (GArr [GArr [GStr ''mkq:1'', GNil, GNil], GErr (ServerErr ''WRONGTYPE not a hash'')]), s))\<rparr>"

definition demo_client :: Client where
  "demo_client = \<lparr>c_keyPrefix = ''bull'', c_configuredPoolSize = 0, c_masters = None\<rparr>"

lemma strings_map_GStr [simp]: "strings (map GStr xs) = xs"
  by (induction xs) simp_all

lemma demo_scan_contract: "scan_matches demo_scan glob" "scan_advances demo_scan (\<lambda>_. 0)"
  by (auto simp: scan_matches_def scan_advances_def demo_scan_def scanReply_def list_all_iff digit_val_def)

text \<open>
  A Redis that was flushed.  Two goroutines run the same script; the context of the first is
  cancelled while it uploads, and the second was merged into its upload.
\<close>

definition demo_flushed :: "(script_state, string) services" where
  "demo_flushed = demo\<lparr>sv_redis := (\<lambda>c s. (case c of
       EvalSha ct sha ks as \<Rightarrow> if sha = ''new'' then Inr (GInt64 1) else Inl (ServerErr ''NOSCRIPT No matching script'')
     | ScriptLoad ct src \<Rightarrow> if ct = RunCtx then Inl Canceled else Inr (GStr ''new'')
     | _ \<Rightarrow> Inr GNil, s))\<rparr>"

definition demo_req :: "nat \<Rightarrow> runReq" where
  "demo_req i = \<lparr>rq_ctx = if i = 0 then RunCtx else CallerCtx, rq_name = Pause, rq_keys = [], rq_args = []\<rparr>"

definition demo_runs :: "(script_state, (string \<times> nat \<times> nat list) list) scripterRun" where
  "demo_runs = \<lparr>sr_world = demo_world [] [], sr_lock = \<lparr>rw_readers = {}, rw_writer = None\<rparr>, sr_group = [],
     sr_at = (\<lambda>_. Called)\<rparr>"

definition demo_schedule :: "nat list \<Rightarrow> (script_state, (string \<times> nat \<times> nat list) list) scripterRun" where
  "demo_schedule is = fold (nextStep demo_flushed mapGroup demo_req) is demo_runs"

lemma demo_runs_begin: "runsBegin mapGroup demo_runs"
  by (simp add: runsBegin_def demo_runs_def mapGroup_def)

lemma demo_schedule_steps: "run_steps demo_flushed mapGroup demo_req demo_runs (demo_schedule is)"
  unfolding demo_schedule_def by (rule nextSteps_steps)

text \<open>The second fails with the cancellation of the first, although its own upload would have succeeded.\<close>

lemma merged_caller_shares_cancellation:
  "sr_at (demo_schedule [0, 0, 0, 0, 1, 1, 1, 1, 0, 1, 0, 0, 1]) 1 =
     Finished (Inl (errorf (''reload pause-7 after NOSCRIPT: '') (errorf (''script load pause-7: '') Canceled)))"
  "sr_at (demo_schedule [1, 1, 1, 1, 1, 1, 1, 1, 1, 1, 1, 1]) 1 = Finished (Inr (GInt64 1))"
  by code_simp+

end
