(* ===== verification/Opts_Trip.thy ===== *)
theory Opts_Trip
  imports Options JobOpts
begin

text \<open>
  The way of a job's options: \<open>Add\<close> packs the options of the caller (\<open>options.go\<close>, \<open>queue.go\<close>,
  \<open>internal/proto/opts.go\<close>), a script stores them in the job's hash as JSON
  (\<open>cjson.encode(cmsgpack.unpack(...))\<close>), and the worker that takes the job reads them back
  (\<open>parseJobOpts\<close> in \<open>worker.go\<close>).  What the script makes of the packed tree is a relation: cjson
  writes the members of an object in any order, and integers of up to 14 digits exactly.
\<close>

section \<open>What cjson makes of a packed tree\<close>

inductive cjson_of :: "(real \<Rightarrow> string) \<Rightarrow> mval \<Rightarrow> json \<Rightarrow> bool" for ft where
  cj_bool: "cjson_of ft (MBool b) (JBool b)"
| cj_int: "\<bar>n\<bar> < 10 ^ 14 \<Longrightarrow> cjson_of ft (MInt n) (JNum (FormatInt n))"
| cj_float: "cjson_of ft (MFloat x) (JNum (ft x))"
| cj_str: "cjson_of ft (MStr s) (JStr s)"
| cj_map: "distinct (map fst kvs) \<Longrightarrow> dom (map_of kvs) = dom (map_of m) \<Longrightarrow>
     (\<And>k v j. map_of m k = Some v \<Longrightarrow> map_of kvs k = Some j \<Longrightarrow> cjson_of ft v j) \<Longrightarrow>
     cjson_of ft (MMap m) (JObj kvs)"

inductive_cases cjson_boolE [elim!]: "cjson_of ft (MBool b) j"
inductive_cases cjson_intE [elim!]: "cjson_of ft (MInt n) j"
inductive_cases cjson_floatE [elim!]: "cjson_of ft (MFloat x) j"
inductive_cases cjson_strE [elim!]: "cjson_of ft (MStr s) j"
inductive_cases cjson_mapE: "cjson_of ft (MMap m) j"

section \<open>What the worker should read\<close>

text \<open>
  The reference: the options of the caller, with delays cut to milliseconds, retention ages cut to
  seconds and dropped when nothing is left of them, and a jitter that is not positive left out.
\<close>

definition readRetention :: "int option \<Rightarrow> duration option \<Rightarrow> retentionLimit option" where
  "readRetention count age =
     (let secs = (case age of Some a \<Rightarrow> if wholeSeconds a > 0 then Some (wholeSeconds a) else None | None \<Rightarrow> None)
      in if count = None \<and> secs = None then None else Some \<lparr>rt_count = count, rt_ageSeconds = secs\<rparr>)"

definition readBackoff :: "BackoffStrategy \<Rightarrow> BackoffStrategy option" where
  "readBackoff b =
     (if bs_Type b = [] then None
      else Some \<lparr>bs_Type = bs_Type b, bs_Delay = Milliseconds (bs_Delay b) * Millisecond,
        bs_Jitter = (if bs_Jitter b > 0 then bs_Jitter b else 0)\<rparr>)"

definition readOpts :: "addConfig \<Rightarrow> jobOpts" where
  "readOpts cfg =
     \<lparr>jo_attempts = ac_attempts cfg, jo_backoff = Option.bind (ac_backoff cfg) readBackoff, jo_lifo = ac_lifo cfg,
      jo_removeOnComplete = readRetention (ac_keepCompleted cfg) (ac_keepCompletedAge cfg),
      jo_removeOnFail = readRetention (ac_keepFailed cfg) (ac_keepFailedAge cfg)\<rparr>"

section \<open>Lemmas: reading a member\<close>

lemma filter_key:
  assumes "distinct (map fst kvs)" "\<And>k. k \<in> fst ` set kvs \<Longrightarrow> P k \<longleftrightarrow> k = name"
  shows "filter (\<lambda>(k, _). P k) kvs = (case map_of kvs name of None \<Rightarrow> [] | Some j \<Rightarrow> [(name, j)])"
  using assms
proof (induction kvs)
  case (Cons kv kvs)
  obtain k j where kv: "kv = (k, j)" by fastforce
  have "P k \<longleftrightarrow> k = name" using Cons.prems(2) [of k] kv by simp
  moreover have "k \<notin> fst ` set kvs" using Cons.prems(1) kv by simp
  then have "map_of kvs k = None" by (simp add: map_of_eq_None_iff)
  ultimately show ?case using Cons kv by auto
qed simp

text \<open>The members that \<open>Add\<close> and its backoff write, as \<open>encoding/json\<close> tells them apart.\<close>

definition apart :: "string \<Rightarrow> mmap \<Rightarrow> bool" where
  "apart name m \<longleftrightarrow> (\<forall>k \<in> fst ` set m. json_fold k = json_fold name \<longleftrightarrow> k = name)"

lemma field_vals_cjson:
  assumes "cjson_of ft (MMap m) (JObj kvs)" "apart name m"
  shows "case map_of m name of None \<Rightarrow> field_vals name kvs = []
    | Some v \<Rightarrow> \<exists>j. field_vals name kvs = [j] \<and> cjson_of ft v j"
proof -
  from assms(1) have d: "distinct (map fst kvs)" "dom (map_of kvs) = dom (map_of m)"
    and v: "\<And>k v j. map_of m k = Some v \<Longrightarrow> map_of kvs k = Some j \<Longrightarrow> cjson_of ft v j"
    by (auto elim!: cjson_mapE)
  have "fst ` set kvs = fst ` set m" using d(2) by (simp add: dom_map_of_conv_image_fst)
  with assms(2) have "filter (\<lambda>(k, _). json_fold k = json_fold name) kvs =
      (case map_of kvs name of None \<Rightarrow> [] | Some j \<Rightarrow> [(name, j)])"
    by (intro filter_key d(1)) (auto simp: apart_def)
  moreover have "map_of kvs name = None \<longleftrightarrow> map_of m name = None" using d(2) by (metis domIff)
  ultimately show ?thesis
    using v [of name] by (auto simp: field_vals_def split: option.splits)
qed

lemma dec_field_cjson:
  assumes "cjson_of ft (MMap m) (JObj kvs)" "apart name m"
    and none: "map_of m name = None \<Longrightarrow> r = zero"
    and some: "\<And>v j. map_of m name = Some v \<Longrightarrow> cjson_of ft v j \<Longrightarrow> dec zero j = Some r"
  shows "dec_field dec zero name kvs = Some r"
  using field_vals_cjson [OF assms(1,2)] none some
  by (cases "map_of m name") (auto simp: dec_field_def)

section \<open>Lemmas: reading the options\<close>

lemma cjson_int: "cjson_of ft (MInt n) j \<Longrightarrow> j = JNum (FormatInt n) \<and> is_int64 n"
  by (auto simp: is_int64_def abs_if split: if_splits)

lemma dec_int_cjson: "cjson_of ft (MInt n) j \<Longrightarrow> dec_int old j = Some n"
  by (drule cjson_int) (simp add: dec_int_def decimal.dec_enc)

lemma dec_int_obj [simp]: "dec_int old (JObj kvs) = None"
  by (simp add: dec_int_def)

lemma dec_int_ptr_cjson: "cjson_of ft (MInt n) j \<Longrightarrow> dec_int_ptr old j = Some (Some n)"
  using dec_int_cjson [of ft n j 0] by (auto simp: dec_int_ptr_def split: json.split)

lemma folds:
  "json_fold ''count'' = ''COUNT''" "json_fold ''age'' = ''AGE''" "json_fold ''type'' = ''TYPE''"
  "json_fold ''delay'' = ''DELAY''" "json_fold ''jitter'' = ''JITTER''" "json_fold ''attempts'' = ''ATTEMPTS''"
  "json_fold ''lifo'' = ''LIFO''" "json_fold ''backoff'' = ''BACKOFF''" "json_fold ''priority'' = ''PRIORITY''"
  "json_fold ''removeOnComplete'' = ''REMOVEONCOMPLETE''" "json_fold ''removeOnFail'' = ''REMOVEONFAIL''"
  "json_fold ''de'' = ''DE''"
  by code_simp+

lemma retention_trip:
  assumes "encodeRetentionLimit (buildRetentionLimit count age) = Some v" "cjson_of ft v j"
  shows "parseRemoveOpt (Some j) = readRetention count age"
proof (cases "\<exists>a. age = Some a \<and> wholeSeconds a > 0")
  case True
  then obtain a where a: "age = Some a" "wholeSeconds a > 0" by blast
  let ?m = "(case count of None \<Rightarrow> [] | Some c \<Rightarrow> [(''count'', MInt c)]) @ [(''age'', MInt (wholeSeconds a))]"
  have v: "v = MMap ?m" using assms(1) a by (simp add: retention_wire)
  with assms(2) obtain kvs where j: "j = JObj kvs" by (auto elim: cjson_mapE)
  have c: "cjson_of ft (MMap ?m) (JObj kvs)" using assms(2) v j by simp
  have "dec_field dec_int_ptr None ''count'' kvs = Some count"
    by (rule dec_field_cjson [OF c]) (auto simp: apart_def folds dec_int_ptr_cjson split: option.splits if_splits)
  moreover have "dec_field dec_int_ptr None ''age'' kvs = Some (Some (wholeSeconds a))"
    by (rule dec_field_cjson [OF c]) (auto simp: apart_def folds dec_int_ptr_cjson split: option.splits if_splits)
  ultimately show ?thesis
    using a by (simp add: parseRemoveOpt_def readRetention_def j struct_members_def)
next
  case False
  then have v: "map_option MInt count = Some v" using assms(1) by (auto simp: retention_wire split: option.splits if_splits)
  then obtain n where n: "count = Some n" "v = MInt n" by auto
  with assms(2) have "j = JNum (FormatInt n)" "dec_int 0 j = Some n" by (auto simp: dec_int_cjson)
  with n False show ?thesis by (auto simp: parseRemoveOpt_def readRetention_def split: option.splits)
qed

lemma retention_trip_None:
  "encodeRetentionLimit (buildRetentionLimit count age) = None \<Longrightarrow> readRetention count age = None"
  by (auto simp: retention_wire readRetention_def split: option.splits if_splits)

lemma Milliseconds_back:
  assumes "is_int64 d"
  shows "wrap64 (Milliseconds d * Millisecond) = Milliseconds d * Millisecond"
proof (intro wrap64_id)
  have "if 0 \<le> d then 0 \<le> Milliseconds d * Millisecond \<and> Milliseconds d * Millisecond \<le> d
      else Milliseconds d * Millisecond \<le> 0 \<and> d \<le> Milliseconds d * Millisecond"
    by (auto simp: Milliseconds_def Millisecond_def go_arith pos_imp_zdiv_nonneg_iff)
  then show "is_int64 (Milliseconds d * Millisecond)" using assms by (auto simp: is_int64_def split: if_splits)
qed

lemma backoff_trip:
  assumes "cjson_of ft (backoffToMap \<lparr>pb_Type = bs_Type b, pb_Delay = Milliseconds (bs_Delay b), pb_Jitter = bs_Jitter b\<rparr>) j"
    and i: "is_int64 (bs_Delay b)" and f: "bs_Jitter b > 0 \<Longrightarrow> dec_float 0 (JNum (ft (bs_Jitter b))) = Some (bs_Jitter b)"
  shows "parseBackoffOpt (Some j) = readBackoff b"
proof -
  let ?m = "put_if (bs_Jitter b > 0) ''jitter'' (MFloat (bs_Jitter b))
     [(''type'', MStr (bs_Type b)), (''delay'', MInt (Milliseconds (bs_Delay b)))]"
  from assms(1) obtain kvs where j: "j = JObj kvs" by (auto simp: backoffToMap_def elim: cjson_mapE)
  have c: "cjson_of ft (MMap ?m) (JObj kvs)" using assms(1) j by (simp add: backoffToMap_def)
  have "dec_field dec_string [] ''type'' kvs = Some (bs_Type b)"
    by (rule dec_field_cjson [OF c]) (auto simp: apart_def folds put_if_def dec_string_def split: if_splits)
  moreover have "dec_field dec_int 0 ''delay'' kvs = Some (Milliseconds (bs_Delay b))"
    by (rule dec_field_cjson [OF c]) (auto simp: apart_def folds put_if_def dec_int_cjson split: if_splits)
  moreover have "dec_field dec_float 0 ''jitter'' kvs = Some (if bs_Jitter b > 0 then bs_Jitter b else 0)"
    by (rule dec_field_cjson [OF c]) (auto simp: apart_def folds put_if_def f split: if_splits)
  ultimately show ?thesis
    by (simp add: parseBackoffOpt_def readBackoff_def j struct_members_def Milliseconds_back [OF i])
qed

lemma parseJobOpts_members:
  assumes "json_parse raw = Some (JObj kvs)" "dec_field dec_int 0 ''attempts'' kvs = Some attempts"
    "dec_field dec_bool False ''lifo'' kvs = Some lifo" "dec_field dec_raw None ''backoff'' kvs = Some backoff"
    "dec_field dec_raw None ''removeOnComplete'' kvs = Some roc" "dec_field dec_raw None ''removeOnFail'' kvs = Some rof"
  shows "parseJobOpts raw = \<lparr>jo_attempts = attempts, jo_backoff = parseBackoffOpt backoff, jo_lifo = lifo,
     jo_removeOnComplete = parseRemoveOpt roc, jo_removeOnFail = parseRemoveOpt rof\<rparr>"
proof -
  have e: "json_parse [] = None" "json_parse [CHR 0x7B, CHR 0x7D] = Some (JObj [])" by code_simp+
  show ?thesis
  proof (cases "raw = [CHR 0x7B, CHR 0x7D]")
    case True
    with assms(1) e have "kvs = []" by simp
    with assms(2-) True show ?thesis
      by (auto simp: parseJobOpts_def zero_jobOpts_def dec_field_def field_vals_def parseBackoffOpt_def parseRemoveOpt_def)
  next
    case False
    with assms e show ?thesis by (auto simp: parseJobOpts_def struct_members_def)
  qed
qed

text \<open>A raw member of the options: absent, or what cjson made of it.\<close>

lemma dec_raw_cjson:
  assumes "cjson_of ft (MMap m) (JObj kvs)" "apart name m"
  shows "\<exists>raw. dec_field dec_raw None name kvs = Some raw \<and>
    (case map_of m name of None \<Rightarrow> raw = None | Some v \<Rightarrow> \<exists>j. raw = Some j \<and> cjson_of ft v j)"
  using field_vals_cjson [OF assms] by (auto simp: dec_field_def dec_raw_def split: option.splits)

lemma put_lookup:
  "map_of (put_if b k v m) x = (if b \<and> k = x then Some v else map_of m x)"
  "map_of (put_opt k v' m) x = (if k = x \<and> v' \<noteq> None then v' else map_of m x)"
  by (auto simp: put_if_def put_opt_def split: option.split)

lemma addOptsMap_lookup:
  "map_of (addOptsMap o') ''attempts'' = (if ao_Attempts o' \<noteq> 0 then Some (MInt (ao_Attempts o')) else None)"
  "map_of (addOptsMap o') ''lifo'' = (if ao_Lifo o' then Some (MBool True) else None)"
  "map_of (addOptsMap o') ''backoff'' = map_option backoffToMap (ao_Backoff o')"
  "map_of (addOptsMap o') ''removeOnComplete'' = encodeRetentionLimit (ao_RemoveOnComplete o')"
  "map_of (addOptsMap o') ''removeOnFail'' = encodeRetentionLimit (ao_RemoveOnFail o')"
  by (simp_all add: addOptsMap_def put_lookup del: map_of_put_if map_of_put_opt)

lemma addOptsMap_keys:
  "fst ` set (addOptsMap o') \<subseteq> {''delay'', ''priority'', ''attempts'', ''backoff'', ''lifo'', ''removeOnComplete'', ''removeOnFail'', ''de''}"
proof -
  have "dom (map_of (addOptsMap o')) \<subseteq> {''delay'', ''priority'', ''attempts'', ''backoff'', ''lifo'', ''removeOnComplete'', ''removeOnFail'', ''de''}"
    by (auto simp: addOptsMap_def put_lookup simp del: map_of_put_if map_of_put_opt split: if_splits)
  then show ?thesis by (simp add: dom_map_of_conv_image_fst)
qed

lemma addOptsMap_apart:
  "name \<in> {''attempts'', ''backoff'', ''lifo'', ''removeOnComplete'', ''removeOnFail''} \<Longrightarrow> apart name (addOptsMap o')"
proof -
  let ?K = "{''delay'', ''priority'', ''attempts'', ''backoff'', ''lifo'', ''removeOnComplete'', ''removeOnFail'', ''de''}"
  assume "name \<in> {''attempts'', ''backoff'', ''lifo'', ''removeOnComplete'', ''removeOnFail''}"
  then have "\<forall>k \<in> ?K. json_fold k = json_fold name \<longleftrightarrow> k = name"
    by (elim insertE emptyE; simp add: folds del: json_fold.simps)
  with addOptsMap_keys [of o'] show ?thesis unfolding apart_def by blast
qed

section \<open>Properties\<close>

text \<open>
  C14: The options of a job reach the worker: whatever text a script stores for the options that
  \<open>Add\<close> packed (the members in any order, integers of up to 14 digits, a jitter whose digits read
  back), \<open>parseJobOpts\<close> reads from it the attempts, the order, the backoff and the two retention
  limits that the caller asked for, with the backoff's delay cut to milliseconds and the retention
  ages to seconds.
\<close>

theorem options_reach_the_worker:
  assumes stored: "json_parse raw = Some j" "cjson_of ft (MMap (addOptsMap (toProtoOpts cfg delayMs))) j"
    and b: "\<And>b. ac_backoff cfg = Some b \<Longrightarrow> is_int64 (bs_Delay b) \<and>
      (bs_Jitter b > 0 \<longrightarrow> dec_float 0 (JNum (ft (bs_Jitter b))) = Some (bs_Jitter b))"
  shows "parseJobOpts raw = readOpts cfg"
proof -
  let ?m = "addOptsMap (toProtoOpts cfg delayMs)"
  from stored(2) obtain kvs where j: "j = JObj kvs" by (auto elim: cjson_mapE)
  note c = stored(2) [unfolded j] and p = stored(1) [unfolded j]
  have attempts: "dec_field dec_int 0 ''attempts'' kvs = Some (ac_attempts cfg)"
    by (rule dec_field_cjson [OF c addOptsMap_apart])
      (auto simp: addOptsMap_lookup toProtoOpts_def dec_int_cjson split: if_splits)
  have lifo: "dec_field dec_bool False ''lifo'' kvs = Some (ac_lifo cfg)"
    by (rule dec_field_cjson [OF c addOptsMap_apart])
      (auto simp: addOptsMap_lookup toProtoOpts_def dec_bool_def split: if_splits)
  obtain rb where rb: "dec_field dec_raw None ''backoff'' kvs = Some rb"
    "case map_of ?m ''backoff'' of None \<Rightarrow> rb = None | Some v \<Rightarrow> \<exists>j. rb = Some j \<and> cjson_of ft v j"
    using dec_raw_cjson [OF c addOptsMap_apart, of "''backoff''"] by auto
  obtain rc where rc: "dec_field dec_raw None ''removeOnComplete'' kvs = Some rc"
    "case map_of ?m ''removeOnComplete'' of None \<Rightarrow> rc = None | Some v \<Rightarrow> \<exists>j. rc = Some j \<and> cjson_of ft v j"
    using dec_raw_cjson [OF c addOptsMap_apart, of "''removeOnComplete''"] by auto
  obtain rf where rf: "dec_field dec_raw None ''removeOnFail'' kvs = Some rf"
    "case map_of ?m ''removeOnFail'' of None \<Rightarrow> rf = None | Some v \<Rightarrow> \<exists>j. rf = Some j \<and> cjson_of ft v j"
    using dec_raw_cjson [OF c addOptsMap_apart, of "''removeOnFail''"] by auto
  have "parseBackoffOpt rb = Option.bind (ac_backoff cfg) readBackoff"
    using rb(2) b by (auto simp: addOptsMap_lookup toProtoOpts_def parseBackoffOpt_def [of None] intro: backoff_trip split: option.splits)
  moreover have "parseRemoveOpt rc = readRetention (ac_keepCompleted cfg) (ac_keepCompletedAge cfg)"
    using rc(2) by (auto simp: addOptsMap_lookup toProtoOpts_def parseRemoveOpt_def [of None] retention_trip_None retention_trip
      split: option.splits)
  moreover have "parseRemoveOpt rf = readRetention (ac_keepFailed cfg) (ac_keepFailedAge cfg)"
    using rf(2) by (auto simp: addOptsMap_lookup toProtoOpts_def parseRemoveOpt_def [of None] retention_trip_None retention_trip
      split: option.splits)
  ultimately show ?thesis
    using parseJobOpts_members [OF p attempts lifo rb(1) rc(1) rf(1)] by (simp add: readOpts_def)
qed

text \<open>Three attempts with an exponential backoff; the script wrote the members in another order.\<close>

definition retrying :: addConfig where
  "retrying = apply_options [WithAttempts 3, WithBackoff \<lparr>bs_Type = ''exponential'', bs_Delay = 1500 * Millisecond, bs_Jitter = 0\<rparr>,
     WithKeepCompleted 100] zero_addConfig"

definition retrying_stored :: string where
  "retrying_stored = concat (map (\<lambda>w. if w = ''q'' then [CHR 0x22] else w)
     [''{'', ''q'', ''removeOnComplete'', ''q'', '':100,'', ''q'', ''backoff'', ''q'', '':{'', ''q'', ''delay'', ''q'', '':1500,'',
      ''q'', ''type'', ''q'', '':'', ''q'', ''exponential'', ''q'', ''},'', ''q'', ''attempts'', ''q'', '':3}''])"

theorem options_reach_the_worker_witness:
  "parseJobOpts retrying_stored = readOpts retrying \<and> jo_attempts (parseJobOpts retrying_stored) = 3"
proof -
  let ?b = "[(''delay'', JNum (FormatInt 1500)), (''type'', JStr ''exponential'')]"
  let ?j = "[(''removeOnComplete'', JNum (FormatInt 100)), (''backoff'', JObj ?b), (''attempts'', JNum (FormatInt 3))]"
  have p: "json_parse retrying_stored = Some (JObj ?j)" by code_simp
  have m: "addOptsMap (toProtoOpts retrying 0) = [(''attempts'', MInt 3),
      (''backoff'', MMap [(''type'', MStr ''exponential''), (''delay'', MInt 1500)]), (''removeOnComplete'', MInt 100)]"
    by code_simp
  have "cjson_of ft (MMap [(''type'', MStr ''exponential''), (''delay'', MInt 1500)]) (JObj ?b)" for ft
    by (rule cj_map) (auto intro: cjson_of.intros split: if_splits)
  then have c: "cjson_of (\<lambda>_. []) (MMap (addOptsMap (toProtoOpts retrying 0))) (JObj ?j)"
    unfolding m by (intro cj_map) (auto intro: cj_int split: if_splits)
  have b: "is_int64 (bs_Delay b) \<and> (bs_Jitter b > 0 \<longrightarrow> dec_float 0 (JNum []) = Some (bs_Jitter b))"
    if "ac_backoff retrying = Some b" for b
    using that by (auto simp: retrying_def apply_options_def add_option_defs is_int64_def Millisecond_def)
  have "parseJobOpts retrying_stored = readOpts retrying" by (rule options_reach_the_worker [OF p c b])
  moreover have "ac_attempts retrying = 3" by code_simp
  ultimately show ?thesis by (simp add: readOpts_def)
qed

end
