(* ===== verification/Heartbeat.thy ===== *)
theory Heartbeat
  imports Dispatcher
begin

text \<open>
  The two goroutines of \<open>processJob\<close> (\<open>worker.go\<close>): the dispatcher that runs the handler, cancels
  the job's context, waits for \<open>hbDone\<close> and makes the terminal call, and the heartbeat that extends
  the lock at every tick until the context is done or the lock is lost.  Their interleavings are a
  step relation; the select of the heartbeat may take a tick although the context is already done,
  \<open>Stop\<close> may cancel the context at any moment, and between two steps other goroutines may change
  the world outside.  \<open>processJob\<close> of \<open>Dispatch\<close>, in which all ticks come first, is one of the
  interleavings, and what is shown of it holds of all.
\<close>

section \<open>States\<close>

text \<open>
  The dispatcher is before the handler's start, in the handler, back from it, at the receive from
  \<open>hbDone\<close>, past it, or has returned.
\<close>

datatype 't mainAt =
    Starting
  | InHandler "'t Job"
  | HandlerDone handlerOutcome
  | Joining handlerOutcome
  | Joined handlerOutcome
  | Over "prefetchedJob option"

text \<open>The heartbeat is at its select, has taken the tick case, or has closed \<open>hbDone\<close>.\<close>

datatype hbAt = HbSelect | HbExtend | HbExited

text \<open>\<open>jobDone\<close> is that \<open>jobCtx\<close> is done, \<open>lockLost\<close> that the heartbeat was who cancelled it.\<close>

record ('s, 't) jobRun =
  outside :: "'s world"
  mainAt :: "'t mainAt"
  hbAt :: hbAt
  jobDone :: bool
  lockLost :: bool

definition jobStarted :: "'s world \<Rightarrow> ('s, 't) jobRun" where
  "jobStarted w = \<lparr>outside = w, mainAt = Starting, hbAt = HbSelect, jobDone = False, lockLost = False\<rparr>"

section \<open>Steps\<close>

text \<open>What the handler's return makes of its result, under the context it was given.\<close>

definition handlerEnd :: "('s, 't) services \<Rightarrow> bool \<Rightarrow> 't Job \<Rightarrow> ('s, handlerOutcome) act" where
  "handlerEnd sv cancelled job = do { out \<leftarrow> ask (sv_handler sv cancelled job); handlerResult sv out }"

definition rebuildFailed :: "('s, 't) services \<Rightarrow> string \<Rightarrow> goerr \<Rightarrow> ('s, handlerOutcome) act" where
  "rebuildFailed sv jobID err = handlerResult sv (Returns (Inl (errorf (''mkq: rebuild job '' @ jobID @ '': '') err)))"

text \<open>The steps of the code itself, of the dispatcher and of the heartbeat.\<close>

inductive job_own ::
  "('s, 't) services \<Rightarrow> Worker \<Rightarrow> string \<Rightarrow> string \<Rightarrow> hash \<Rightarrow> ('s, 't) jobRun \<Rightarrow> ('s, 't) jobRun \<Rightarrow> bool"
  for sv w token jobID jobMap where
  no_job: "mainAt s = Starting \<Longrightarrow> buildJob (sv_zero sv) (sv_unmarshal sv) jobID jobMap = Inl err \<Longrightarrow>
     run_state (rebuildFailed sv jobID err) (outside s) = (out, w') \<Longrightarrow>
     job_own sv w token jobID jobMap s (s\<lparr>outside := w', mainAt := HandlerDone out\<rparr>)"
| begins: "mainAt s = Starting \<Longrightarrow> buildJob (sv_zero sv) (sv_unmarshal sv) jobID jobMap = Inr job \<Longrightarrow>
     run_state (emit (HandlerCall jobID)) (outside s) = ((), w') \<Longrightarrow>
     job_own sv w token jobID jobMap s (s\<lparr>outside := w', mainAt := InHandler job\<rparr>)"
| ends: "mainAt s = InHandler job \<Longrightarrow> run_state (handlerEnd sv (lockLost s) job) (outside s) = (out, w') \<Longrightarrow>
     job_own sv w token jobID jobMap s (s\<lparr>outside := w', mainAt := HandlerDone out\<rparr>)"
| cancels: "mainAt s = HandlerDone out \<Longrightarrow> run_state (emit (observeHandler w jobMap)) (outside s) = ((), w') \<Longrightarrow>
     job_own sv w token jobID jobMap s (s\<lparr>outside := w', mainAt := Joining out, jobDone := True\<rparr>)"
| joins: "mainAt s = Joining out \<Longrightarrow> hbAt s = HbExited \<Longrightarrow>
     job_own sv w token jobID jobMap s (s\<lparr>mainAt := Joined out\<rparr>)"
| finishes: "mainAt s = Joined out \<Longrightarrow> run_state (finishJob sv w token jobID jobMap out) (outside s) = (pf, w') \<Longrightarrow>
     job_own sv w token jobID jobMap s (s\<lparr>outside := w', mainAt := Over pf\<rparr>)"
| ticks: "hbAt s = HbSelect \<Longrightarrow> job_own sv w token jobID jobMap s (s\<lparr>hbAt := HbExtend\<rparr>)"
| extends: "hbAt s = HbExtend \<Longrightarrow> run_state (extendLock sv w token jobID) (outside s) = (True, w') \<Longrightarrow>
     job_own sv w token jobID jobMap s (s\<lparr>outside := w', hbAt := HbSelect\<rparr>)"
| loses: "hbAt s = HbExtend \<Longrightarrow> run_state (extendLock sv w token jobID) (outside s) = (False, w') \<Longrightarrow>
     job_own sv w token jobID jobMap s (s\<lparr>outside := w', hbAt := HbExited, jobDone := True, lockLost := True\<rparr>)"
| quits: "hbAt s = HbSelect \<Longrightarrow> jobDone s \<Longrightarrow> job_own sv w token jobID jobMap s (s\<lparr>hbAt := HbExited\<rparr>)"

text \<open>Between them \<open>Stop\<close> may cancel the context, and the rest of the world goes on.\<close>

inductive job_step ::
  "('s, 't) services \<Rightarrow> Worker \<Rightarrow> string \<Rightarrow> string \<Rightarrow> hash \<Rightarrow> ('s, 't) jobRun \<Rightarrow> ('s, 't) jobRun \<Rightarrow> bool"
  for sv w token jobID jobMap where
  own: "job_own sv w token jobID jobMap s s' \<Longrightarrow> job_step sv w token jobID jobMap s s'"
| stops: "job_step sv w token jobID jobMap s (s\<lparr>jobDone := True\<rparr>)"
| others: "trace w' = trace (outside s) \<Longrightarrow> job_step sv w token jobID jobMap s (s\<lparr>outside := w'\<rparr>)"

abbreviation own_steps ::
  "('s, 't) services \<Rightarrow> Worker \<Rightarrow> string \<Rightarrow> string \<Rightarrow> hash \<Rightarrow> ('s, 't) jobRun \<Rightarrow> ('s, 't) jobRun \<Rightarrow> bool" where
  "own_steps sv w token jobID jobMap \<equiv> (job_own sv w token jobID jobMap)\<^sup>*\<^sup>*"

abbreviation job_steps ::
  "('s, 't) services \<Rightarrow> Worker \<Rightarrow> string \<Rightarrow> string \<Rightarrow> hash \<Rightarrow> ('s, 't) jobRun \<Rightarrow> ('s, 't) jobRun \<Rightarrow> bool" where
  "job_steps sv w token jobID jobMap \<equiv> (job_step sv w token jobID jobMap)\<^sup>*\<^sup>*"

text \<open>A run of \<open>processJob\<close> with its two goroutines, from its call to its return.\<close>

inductive concurrentJob ::
  "('s, 't) services \<Rightarrow> Worker \<Rightarrow> string \<Rightarrow> string \<Rightarrow> hash \<Rightarrow> 's world \<Rightarrow> prefetchedJob option \<Rightarrow> 's world \<Rightarrow> bool"
  for sv w token jobID jobMap where
  "run_state (beginJob sv w jobID jobMap) w0 = ((), w1) \<Longrightarrow>
   job_steps sv w token jobID jobMap (jobStarted w1) s \<Longrightarrow> mainAt s = Over pf \<Longrightarrow>
   concurrentJob sv w token jobID jobMap w0 pf (outside s)"

inductive_cases concurrentJobE: "concurrentJob sv w token jobID jobMap w0 pf w'"

section \<open>Lemmas: the invariant of the two goroutines\<close>

text \<open>How often the handler has been run when the dispatcher is at a point.\<close>

definition ranBy :: "('s, 't) services \<Rightarrow> string \<Rightarrow> hash \<Rightarrow> 't mainAt \<Rightarrow> string list" where
  "ranBy sv jobID jobMap m = (if m = Starting \<or> \<not> decodes sv jobID jobMap then [] else [jobID])"

definition waited :: "'t mainAt \<Rightarrow> bool" where
  "waited m = (case m of Joined _ \<Rightarrow> True | Over _ \<Rightarrow> True | _ \<Rightarrow> False)"

definition asked :: "'t mainAt \<Rightarrow> bool" where
  "asked m = (case m of Joining _ \<Rightarrow> True | _ \<Rightarrow> waited m)"

text \<open>The control part: past the receive the heartbeat is gone; a lost lock ends it.\<close>

definition control_ok :: "('s, 't) services \<Rightarrow> string \<Rightarrow> hash \<Rightarrow> ('s, 't) jobRun \<Rightarrow> bool" where
  "control_ok sv jobID jobMap s \<longleftrightarrow>
     (waited (mainAt s) \<longrightarrow> hbAt s = HbExited) \<and> (asked (mainAt s) \<longrightarrow> jobDone s) \<and>
     (lockLost s \<longrightarrow> jobDone s \<and> hbAt s = HbExited) \<and>
     (\<forall>job. mainAt s = InHandler job \<longrightarrow> decodes sv jobID jobMap)"

text \<open>The events part: until the terminal call there are lock extensions only.\<close>

definition events_ok ::
  "('s, 't) services \<Rightarrow> Worker \<Rightarrow> string \<Rightarrow> string \<Rightarrow> hash \<Rightarrow> 't mainAt \<Rightarrow> event list \<Rightarrow> bool" where
  "events_ok sv w token jobID jobMap m es = (case m of
       Over pf \<Rightarrow> (\<exists>em ef out. es = em @ ef \<and> besideEvents w token jobID (ranBy sv jobID jobMap m) em \<and>
         finishEvents sv w token jobID jobMap out pf ef)
     | _ \<Rightarrow> besideEvents w token jobID (ranBy sv jobID jobMap m) es)"

lemma besideEvents_append:
  "besideEvents w token jobID hs es \<Longrightarrow> besideEvents w token jobID hs' es' \<Longrightarrow>
   besideEvents w token jobID (hs @ hs') (es @ es')"
  unfolding besideEvents_def by (auto simp: replicate_add [symmetric])

lemma besideEvents_Nil: "besideEvents w token jobID [] []"
  by (auto simp: besideEvents_def)

lemma beside_replicate:
  "obs es = replicate n (extendCall w token jobID) \<Longrightarrow> acquired es = [] \<Longrightarrow> besideEvents w token jobID [] es"
  by (drule proj_of_obs) (auto simp: besideEvents_def)

lemma beside_extendLock: "does (extendLock sv w token jobID) (\<lambda>_. besideEvents w token jobID [])"
  by (rule does_extendLock) (simp add: beside_replicate [of _ "Suc 0"])

lemma beside_handlerResult: "does (handlerResult sv out) (\<lambda>_. besideEvents w token jobID [])"
  unfolding handlerResult_def by (auto intro!: does_rules besideEvents_Nil split: sum.split)

lemma beside_handlerEnd: "does (handlerEnd sv c job) (\<lambda>_. besideEvents w token jobID [])"
  unfolding handlerEnd_def by (intro does_rules) (simp add: beside_handlerResult)

lemma beside_emit:
  "does (emit (HandlerCall jobID)) (\<lambda>_. besideEvents w token jobID [jobID])"
  "does (emit (observeHandler w jobMap)) (\<lambda>_. besideEvents w token jobID [])"
  by (auto intro!: does_emit simp: besideEvents_def observeHandler_def)

text \<open>What one step appends to the trace while the terminal call is still to come.\<close>

lemma beside_run:
  assumes "does m (\<lambda>_. besideEvents w token jobID hs')" "run_state m (outside s) = (a, w')"
    "trace (outside s) = trace w1 @ es" "besideEvents w token jobID hs es"
  shows "\<exists>es'. trace w' = trace w1 @ es' \<and> besideEvents w token jobID (hs @ hs') es'"
  using assms by (metis append.assoc besideEvents_append doesD)

lemma own_steps_job_steps: "own_steps sv w token jobID jobMap s s' \<Longrightarrow> job_steps sv w token jobID jobMap s s'"
  by (rule rtranclp_mono [THEN predicate2D, rotated]) (auto intro: own)

lemma control_ok_own:
  assumes "job_own sv w token jobID jobMap s s'" "control_ok sv jobID jobMap s"
  shows "control_ok sv jobID jobMap s'"
  using assms by cases (auto simp: control_ok_def waited_def asked_def decodes_def)

lemma control_ok_step:
  assumes "job_step sv w token jobID jobMap s s'" "control_ok sv jobID jobMap s"
  shows "control_ok sv jobID jobMap s'"
  using assms(1)
proof cases
  case own
  then show ?thesis using assms(2) by (rule control_ok_own)
qed (use assms(2) in \<open>simp_all add: control_ok_def\<close>)

definition job_ok ::
  "('s, 't) services \<Rightarrow> Worker \<Rightarrow> string \<Rightarrow> string \<Rightarrow> hash \<Rightarrow> 's world \<Rightarrow> ('s, 't) jobRun \<Rightarrow> bool" where
  "job_ok sv w token jobID jobMap w1 s \<longleftrightarrow> control_ok sv jobID jobMap s \<and>
     (\<exists>es. trace (outside s) = trace w1 @ es \<and> events_ok sv w token jobID jobMap (mainAt s) es)"

lemma control_ok_started: "control_ok sv jobID jobMap (jobStarted w1)"
  by (simp add: control_ok_def jobStarted_def waited_def asked_def)

lemma job_ok_started: "job_ok sv w token jobID jobMap w1 (jobStarted w1)"
  using control_ok_started by (simp add: job_ok_def jobStarted_def events_ok_def ranBy_def besideEvents_Nil)

lemma events_ok_own:
  fixes s :: "('s, 't) jobRun"
  assumes m: "marshal_total sv" and c: "control_ok sv jobID jobMap s"
    and t: "trace (outside s) = trace w1 @ es" and e: "events_ok sv w token jobID jobMap (mainAt s) es"
    and step: "job_own sv w token jobID jobMap s s'"
  shows "\<exists>es'. trace (outside s') = trace w1 @ es' \<and> events_ok sv w token jobID jobMap (mainAt s') es'"
  using step
proof cases
  case (no_job err out w')
  then show ?thesis
    using beside_run [OF beside_handlerResult no_job(4) [unfolded rebuildFailed_def] t] e
    by (simp add: events_ok_def ranBy_def decodes_def)
next
  case (begins job w')
  then show ?thesis
    using beside_run [OF beside_emit(1) begins(4) t, of w token "[]"] e by (simp add: events_ok_def ranBy_def decodes_def)
next
  case (ends job out w')
  then show ?thesis
    using beside_run [OF beside_handlerEnd ends(3) t] e by (simp add: events_ok_def ranBy_def)
next
  case (cancels out w')
  then show ?thesis
    using beside_run [OF beside_emit(2) cancels(3) t] e by (simp add: events_ok_def ranBy_def)
next
  case (finishes out pf w')
  from does_finishJob [OF m] finishes(3) obtain ef
    where "trace w' = trace (outside s) @ ef" "finishEvents sv w token jobID jobMap out pf ef" by (rule doesD)
  moreover have "besideEvents w token jobID (ranBy sv jobID jobMap (Over pf :: 't mainAt)) es"
    using e finishes by (simp add: events_ok_def ranBy_def)
  ultimately show ?thesis using finishes t by (simp add: events_ok_def) blast
next
  case (extends w')
  then have "\<not> waited (mainAt s)" using c by (auto simp: control_ok_def)
  then show ?thesis
    using beside_run [OF beside_extendLock extends(3) t] e extends
    by (auto simp: events_ok_def waited_def split: mainAt.splits)
next
  case (loses w')
  then have "\<not> waited (mainAt s)" using c by (auto simp: control_ok_def)
  then show ?thesis
    using beside_run [OF beside_extendLock loses(3) t] e loses
    by (auto simp: events_ok_def waited_def split: mainAt.splits)
qed (use t e in \<open>auto simp: events_ok_def ranBy_def\<close>)

lemma events_ok_step:
  assumes "marshal_total sv" "control_ok sv jobID jobMap s"
    "trace (outside s) = trace w1 @ es" "events_ok sv w token jobID jobMap (mainAt s) es"
    "job_step sv w token jobID jobMap s s'"
  shows "\<exists>es'. trace (outside s') = trace w1 @ es' \<and> events_ok sv w token jobID jobMap (mainAt s') es'"
  using assms(5)
proof cases
  case own
  then show ?thesis by (rule events_ok_own [OF assms(1-4)])
qed (use assms(3,4) in auto)

lemma job_ok_steps:
  assumes "marshal_total sv" "job_steps sv w token jobID jobMap (jobStarted w1) s"
  shows "job_ok sv w token jobID jobMap w1 s"
  using assms(2)
proof (induction rule: rtranclp_induct)
  case base
  show ?case by (rule job_ok_started)
next
  case (step s s')
  then show ?case
    unfolding job_ok_def by (blast intro: control_ok_step events_ok_step [OF assms(1)])
qed

section \<open>Lemmas: the sequential model is an interleaving\<close>

lemma ticks_steps:
  assumes "run_state (heartbeat_ticks sv w token jobID n) (outside s) = (c, w')" "hbAt s = HbSelect" "\<not> lockLost s"
  shows "own_steps sv w token jobID jobMap s
    (s\<lparr>outside := w', hbAt := if c then HbExited else HbSelect, jobDone := jobDone s \<or> c, lockLost := c\<rparr>)"
  using assms
proof (induction n arbitrary: s)
  case 0
  then have "s\<lparr>outside := w', hbAt := if c then HbExited else HbSelect, jobDone := jobDone s \<or> c, lockLost := c\<rparr> = s"
    by (cases s) auto
  then show ?case by simp
next
  case (Suc n)
  obtain ours w1 where x: "run_state (extendLock sv w token jobID) (outside s) = (ours, w1)" by fastforce
  let ?s = "s\<lparr>hbAt := HbExtend\<rparr>"
  have t: "job_own sv w token jobID jobMap s ?s" using Suc.prems(2) by (rule ticks)
  have x': "run_state (extendLock sv w token jobID) (outside ?s) = (ours, w1)" using x by simp
  show ?case
  proof (cases ours)
    case True
    have "job_own sv w token jobID jobMap ?s (s\<lparr>outside := w1\<rparr>)"
      using extends [of ?s sv w token jobID w1 jobMap] x' True Suc.prems(2) by (cases s) simp
    moreover have "own_steps sv w token jobID jobMap (s\<lparr>outside := w1\<rparr>)
        (s\<lparr>outside := w', hbAt := if c then HbExited else HbSelect, jobDone := jobDone s \<or> c, lockLost := c\<rparr>)"
      using Suc.IH [of "s\<lparr>outside := w1\<rparr>"] Suc.prems x True by simp
    ultimately show ?thesis using t by (meson converse_rtranclp_into_rtranclp)
  next
    case False
    then have "c" "w' = w1" using Suc.prems(1) x by auto
    then have "job_own sv w token jobID jobMap ?s
        (s\<lparr>outside := w', hbAt := if c then HbExited else HbSelect, jobDone := jobDone s \<or> c, lockLost := c\<rparr>)"
      using loses [of ?s sv w token jobID w1 jobMap] x' False by simp
    with t show ?thesis by (meson converse_rtranclp_into_rtranclp r_into_rtranclp)
  qed
qed

lemma ask_trace: "run_state (ask f) w = (a, w') \<Longrightarrow> trace w' = trace w"
  by (auto simp: ask_def split: prod.splits)

lemma heartbeat_steps:
  assumes "run_state (heartbeat sv w token jobID) w1 = (c, w2)"
  shows "job_steps sv w token jobID jobMap (jobStarted w1)
    ((jobStarted w2)\<lparr>hbAt := if c then HbExited else HbSelect, jobDone := c, lockLost := c\<rparr>)"
proof -
  obtain n w' where a: "run_state (ask (sv_ticks sv (heartbeatPeriod w))) w1 = (n, w')" by fastforce
  have "job_step sv w token jobID jobMap (jobStarted w1) (jobStarted w')"
    using others [of w' "jobStarted w1"] ask_trace [OF a] by (simp add: jobStarted_def)
  moreover have "run_state (heartbeat_ticks sv w token jobID n) (outside (jobStarted w')) = (c, w2)"
    using assms a by (simp add: heartbeat_def jobStarted_def)
  then have "job_steps sv w token jobID jobMap (jobStarted w')
      ((jobStarted w2)\<lparr>hbAt := if c then HbExited else HbSelect, jobDone := c, lockLost := c\<rparr>)"
    using own_steps_job_steps [OF ticks_steps [of sv w token jobID n "jobStarted w'" c w2 jobMap]] by (simp add: jobStarted_def)
  ultimately show ?thesis by (rule converse_rtranclp_into_rtranclp)
qed

text \<open>The dispatcher's own steps, as far as the return of the handler and from there.\<close>

lemma handler_steps:
  assumes "mainAt s = Starting" "run_state (runHandler sv (lockLost s) jobID jobMap) (outside s) = (out, w')"
  shows "own_steps sv w token jobID jobMap s (s\<lparr>outside := w', mainAt := HandlerDone out\<rparr>)"
proof (cases "buildJob (sv_zero sv) (sv_unmarshal sv) jobID jobMap")
  case (Inl err)
  with assms show ?thesis
    by (auto intro!: r_into_rtranclp no_job simp: runHandler_def invokeHandler_def newHandlerShim_def rebuildFailed_def)
next
  case (Inr job)
  let ?w = "snd (run_state (emit (HandlerCall jobID)) (outside s))"
  let ?s = "s\<lparr>outside := ?w, mainAt := InHandler job\<rparr>"
  have "run_state (emit (HandlerCall jobID)) (outside s) = ((), ?w)" by (simp add: prod_eq_iff)
  with assms(1) Inr have "job_own sv w token jobID jobMap s ?s" by (rule begins)
  moreover have "run_state (handlerEnd sv (lockLost ?s) job) (outside ?s) = (out, w')"
    using assms(2) Inr by (auto simp: runHandler_def invokeHandler_def newHandlerShim_def handlerEnd_def split: prod.splits)
  then have "job_own sv w token jobID jobMap ?s (?s\<lparr>outside := w', mainAt := HandlerDone out\<rparr>)"
    by (intro ends [where job = job]) simp_all
  ultimately show ?thesis by simp
qed

lemma exit_steps:
  assumes "jobDone s" "hbAt s \<noteq> HbExtend"
  shows "own_steps sv w token jobID jobMap s (s\<lparr>hbAt := HbExited\<rparr>)"
proof (cases "hbAt s")
  case HbSelect
  then show ?thesis using assms by (intro r_into_rtranclp quits)
next
  case HbExited
  then have "s\<lparr>hbAt := HbExited\<rparr> = s" by (cases s) simp
  then show ?thesis by simp
qed (use assms in simp)

lemma finish_steps:
  assumes m: "mainAt s = HandlerDone out" and h: "hbAt s \<noteq> HbExtend"
    and o: "run_state (emit (observeHandler w jobMap)) (outside s) = ((), w1)"
    and f: "run_state (finishJob sv w token jobID jobMap out) w1 = (pf, w')"
  shows "\<exists>s'. own_steps sv w token jobID jobMap s s' \<and> mainAt s' = Over pf \<and> outside s' = w'"
proof -
  let ?s1 = "s\<lparr>outside := w1, mainAt := Joining out, jobDone := True\<rparr>" and ?S = "own_steps sv w token jobID jobMap"
  have "?S s ?s1" using cancels [OF m o] by (rule r_into_rtranclp)
  also have "?S ?s1 (?s1\<lparr>hbAt := HbExited\<rparr>)" using h by (intro exit_steps) simp_all
  also have "?S (?s1\<lparr>hbAt := HbExited\<rparr>) (?s1\<lparr>hbAt := HbExited, mainAt := Joined out\<rparr>)"
    using joins [of "?s1\<lparr>hbAt := HbExited\<rparr>" out] by auto
  also have "?S (?s1\<lparr>hbAt := HbExited, mainAt := Joined out\<rparr>)
      (?s1\<lparr>hbAt := HbExited, mainAt := Joined out, outside := w', mainAt := Over pf\<rparr>)"
    using finishes [of "?s1\<lparr>hbAt := HbExited, mainAt := Joined out\<rparr>" out] f by auto
  finally show ?thesis by - (rule exI, rule conjI, assumption, simp)
qed

lemma run_unit: obtains w' where "run_state m w = ((), w')"
  by (metis old.unit.exhaust surj_pair)

lemma processJob_concurrent:
  assumes "run_state (processJob sv w token jobID jobMap) w0 = (pf, w')"
  shows "concurrentJob sv w token jobID jobMap w0 pf w'"
proof -
  let ?S = "job_steps sv w token jobID jobMap"
  obtain w1 where b: "run_state (beginJob sv w jobID jobMap) w0 = ((), w1)" by (rule run_unit)
  obtain c w2 where h: "run_state (heartbeat sv w token jobID) w1 = (c, w2)" by fastforce
  obtain out w3 where r: "run_state (runHandler sv c jobID jobMap) w2 = (out, w3)" by fastforce
  obtain w4 where o: "run_state (emit (observeHandler w jobMap)) w3 = ((), w4)" by (rule run_unit)
  have f: "run_state (finishJob sv w token jobID jobMap out) w4 = (pf, w')"
    using assms b h r o by (simp add: processJob_def)
  let ?s1 = "(jobStarted w2)\<lparr>hbAt := if c then HbExited else HbSelect, jobDone := c, lockLost := c\<rparr>"
  let ?s2 = "?s1\<lparr>outside := w3, mainAt := HandlerDone out\<rparr>"
  have "?S (jobStarted w1) ?s1" using h by (rule heartbeat_steps)
  also have "?S ?s1 ?s2" using r by (intro own_steps_job_steps [OF handler_steps]) (simp_all add: jobStarted_def)
  finally have s2: "?S (jobStarted w1) ?s2" .
  have "\<exists>s'. own_steps sv w token jobID jobMap ?s2 s' \<and> mainAt s' = Over pf \<and> outside s' = w'"
    by (rule finish_steps [OF _ _ _ f]) (use o in \<open>simp_all split: if_split\<close>)
  then obtain s' where "?S ?s2 s'" "mainAt s' = Over pf" "outside s' = w'" by (blast dest: own_steps_job_steps)
  with concurrentJob.intros [OF b, of token s' pf] s2 show ?thesis by (metis rtranclp_trans)
qed

section \<open>Lemmas: no state is a dead end\<close>

lemma control_ok_steps:
  "job_steps sv w token jobID jobMap s s' \<Longrightarrow> control_ok sv jobID jobMap s \<Longrightarrow> control_ok sv jobID jobMap s'"
  by (induction rule: rtranclp_induct) (auto intro: control_ok_step)

lemma extend_returns:
  "\<exists>s'. own_steps sv w token jobID jobMap s s' \<and> mainAt s' = mainAt s \<and> hbAt s' \<noteq> HbExtend"
proof (cases "hbAt s = HbExtend")
  case True
  obtain ours w1 where x: "run_state (extendLock sv w token jobID) (outside s) = (ours, w1)" by fastforce
  show ?thesis
  proof (cases ours)
    case ours: True
    show ?thesis by (rule exI, rule conjI, rule r_into_rtranclp, rule extends [OF True]) (use x ours in simp_all)
  next
    case False
    show ?thesis by (rule exI, rule conjI, rule r_into_rtranclp, rule loses [OF True]) (use x False in simp_all)
  qed
qed blast

definition can_finish ::
  "('s, 't) services \<Rightarrow> Worker \<Rightarrow> string \<Rightarrow> string \<Rightarrow> hash \<Rightarrow> ('s, 't) jobRun \<Rightarrow> bool" where
  "can_finish sv w token jobID jobMap s \<longleftrightarrow> (\<exists>s' pf. own_steps sv w token jobID jobMap s s' \<and> mainAt s' = Over pf)"

lemma can_finish_steps:
  "own_steps sv w token jobID jobMap s s' \<Longrightarrow> can_finish sv w token jobID jobMap s' \<Longrightarrow> can_finish sv w token jobID jobMap s"
  unfolding can_finish_def by (blast intro: rtranclp_trans)

lemmas can_finish_step = can_finish_steps [OF r_into_rtranclp]

lemma joined_can_finish:
  assumes "mainAt s = Joined out"
  shows "can_finish sv w token jobID jobMap s"
proof -
  obtain pf w' where "run_state (finishJob sv w token jobID jobMap out) (outside s) = (pf, w')" by fastforce
  from finishes [OF assms this] show ?thesis
    by (rule can_finish_step) (auto simp: can_finish_def)
qed

lemma joining_can_finish:
  assumes "mainAt s = Joining out" "jobDone s" "hbAt s \<noteq> HbExtend"
  shows "can_finish sv w token jobID jobMap s"
  by (rule can_finish_steps [OF exit_steps [OF assms(2,3)] can_finish_step [OF joins joined_can_finish]])
    (use assms(1) in simp_all)

lemma back_can_finish:
  assumes "mainAt s = HandlerDone out" "hbAt s \<noteq> HbExtend"
  shows "can_finish sv w token jobID jobMap s"
proof -
  obtain w' where "run_state (emit (observeHandler w jobMap)) (outside s) = ((), w')" by (rule run_unit)
  from cancels [OF assms(1) this] show ?thesis
    by (rule can_finish_step) (use assms in \<open>simp add: joining_can_finish\<close>)
qed

lemma handler_can_finish:
  assumes "mainAt s = Starting \<or> (\<exists>job. mainAt s = InHandler job)" "hbAt s \<noteq> HbExtend"
  shows "can_finish sv w token jobID jobMap s"
  using assms(1)
proof
  assume s: "mainAt s = Starting"
  obtain out w' where "run_state (runHandler sv (lockLost s) jobID jobMap) (outside s) = (out, w')" by fastforce
  from handler_steps [OF s this] show ?thesis
    by (rule can_finish_steps) (use assms(2) in \<open>simp add: back_can_finish\<close>)
next
  assume "\<exists>job. mainAt s = InHandler job"
  then obtain job where s: "mainAt s = InHandler job" ..
  obtain out w' where "run_state (handlerEnd sv (lockLost s) job) (outside s) = (out, w')" by fastforce
  from ends [OF s this] show ?thesis
    by (rule can_finish_step) (use assms(2) in \<open>simp add: back_can_finish\<close>)
qed

lemma control_ok_can_finish:
  assumes c: "control_ok sv jobID jobMap s"
  shows "can_finish sv w token jobID jobMap s"
proof -
  obtain s1 where s1: "own_steps sv w token jobID jobMap s s1" and h: "hbAt s1 \<noteq> HbExtend" using extend_returns by blast
  from control_ok_steps [OF own_steps_job_steps [OF s1] c] have "asked (mainAt s1) \<longrightarrow> jobDone s1" by (simp add: control_ok_def)
  with h have "can_finish sv w token jobID jobMap s1"
    by (cases "mainAt s1")
      (auto simp: asked_def intro: joining_can_finish joined_can_finish back_can_finish handler_can_finish,
       auto simp: can_finish_def)
  with s1 show ?thesis by (rule can_finish_steps)
qed

lemma finishEvents_names: "finishEvents sv w token jobID jobMap out pf es \<Longrightarrow> ExtendLock \<notin> callName ` set (calls es)"
  unfolding finishEvents_def Let_def
  apply (elim exE conjE)
  subgoal for atm r now flag
    using terminalCall_name [of sv w jobID token jobMap out "policy (w_cfg w) jobID jobMap out atm r" now flag]
    by (auto simp: releaseCall_def script_name_defs split: if_splits)
  done

section \<open>Properties\<close>

text \<open>
  C4: Whatever the interleaving of the heartbeat with the handler, the job is settled as in the
  sequential model: for every scheduling of the two goroutines, with a \<open>Stop\<close> at any moment, ticks
  taken after the context was cancelled, and other goroutines in between, the events of
  \<open>processJob\<close> are lock extensions, then one terminal call for the verdict of the policy, then the
  clean-up, with the handler run once when the payload decodes and the counters moved as \<open>settles\<close>
  says.
\<close>

theorem interleaved_job_settles:
  assumes "marshal_total sv" "hlookup jobMap ''defa'' = []" "concurrentJob sv w token jobID jobMap w0 pf w'"
  shows "\<exists>es. trace w' = trace w0 @ es \<and> settles sv w token jobID jobMap pf
    (GaugeAdd MetricJobsInFlight 1 [(AttrQueue, w_queueName w)] # es @
     [GaugeAdd MetricJobsInFlight (- 1) [(AttrQueue, w_queueName w)]])"
  using assms(3)
proof (rule concurrentJobE)
  fix w1 s
  assume w': "w' = outside s" and b: "run_state (beginJob sv w jobID jobMap) w0 = ((), w1)"
    and steps: "job_steps sv w token jobID jobMap (jobStarted w1) s" and over: "mainAt s = Over pf"
  obtain eb where eb: "trace w1 = trace w0 @ eb" "silent eb"
    using does_beginJob [of "\<lambda>_. silent"] b by (rule doesD)
  from job_ok_steps [OF assms(1) steps] over obtain em ef out where
    "trace w' = trace w1 @ em @ ef" "besideEvents w token jobID (ranBy sv jobID jobMap (mainAt s)) em"
    "finishEvents sv w token jobID jobMap out pf ef"
    by (auto simp: job_ok_def events_ok_def w')
  with settles_job [OF eb(2) _ _ assms(2), of w token jobID sv em out pf ef] eb(1) over show ?thesis
    by (intro exI [of _ "eb @ em @ ef"]) (auto simp: ranBy_def split: if_splits)
qed

text \<open>
  C7: The lock is never extended behind the terminal call: at every moment of every interleaving
  the script calls made so far are lock extensions followed by other calls, and as soon as there is
  one of those the heartbeat has ended.  A lock found lost has ended the heartbeat and cancelled
  the handler's context.
\<close>

theorem no_extension_after_terminal_call:
  assumes "marshal_total sv" "job_steps sv w token jobID jobMap (jobStarted w1) s"
  shows "\<exists>es n rest. trace (outside s) = trace w1 @ es \<and> calls es = replicate n (extendCall w token jobID) @ rest \<and>
     ExtendLock \<notin> callName ` set rest \<and> (rest \<noteq> [] \<longrightarrow> hbAt s = HbExited) \<and>
     (lockLost s \<longrightarrow> hbAt s = HbExited \<and> jobDone s)"
proof -
  note ok = job_ok_steps [OF assms]
  then have c: "waited (mainAt s) \<longrightarrow> hbAt s = HbExited" "lockLost s \<longrightarrow> hbAt s = HbExited \<and> jobDone s"
    by (simp_all add: job_ok_def control_ok_def)
  from ok obtain es where t: "trace (outside s) = trace w1 @ es" and e: "events_ok sv w token jobID jobMap (mainAt s) es"
    by (auto simp: job_ok_def)
  show ?thesis
  proof (cases "\<exists>pf. mainAt s = Over pf")
    case True
    then obtain em ef out pf where es: "es = em @ ef" "besideEvents w token jobID (ranBy sv jobID jobMap (mainAt s)) em"
      "finishEvents sv w token jobID jobMap out pf ef" using e by (auto simp: events_ok_def)
    then obtain n where "calls em = replicate n (extendCall w token jobID)" by (auto simp: besideEvents_def)
    with True es t c finishEvents_names [OF es(3)] show ?thesis
      by (intro exI [of _ es] exI [of _ n] exI [of _ "calls ef"]) (auto simp: waited_def)
  next
    case False
    then obtain n where "calls es = replicate n (extendCall w token jobID)"
      using e by (auto simp: events_ok_def besideEvents_def split: mainAt.splits)
    then show ?thesis using t c by (intro exI [of _ es] exI [of _ n] exI [of _ "[]"]) simp
  qed
qed

text \<open>
  C22: Waiting for the heartbeat never blocks for good: from every reachable point of every
  interleaving the two goroutines can run \<open>processJob\<close> to its end by their own steps alone, once the
  handler returns.  No \<open>Stop\<close> and no other goroutine is needed: it is the dispatcher's own
  cancellation of the context that lets the heartbeat end.
\<close>

theorem interleaved_job_can_finish:
  assumes "job_steps sv w token jobID jobMap (jobStarted w1) s"
  shows "\<exists>s' pf. own_steps sv w token jobID jobMap s s' \<and> mainAt s' = Over pf"
proof -
  have "control_ok sv jobID jobMap (jobStarted w1)" by (rule control_ok_started)
  with assms have "control_ok sv jobID jobMap s" by (rule control_ok_steps)
  then show ?thesis by (rule control_ok_can_finish [unfolded can_finish_def])
qed

end
