(* ===== verification/Observability.thy ===== *)
theory Observability
  imports Dispatcher Queue_Add
begin

text \<open>
  The observability adapters (\<open>observability/promadapter\<close>, \<open>oteladapter\<close>, \<open>slogadapter\<close>) and the
  no-op defaults of \<open>observability.go\<close>: what each of them asks of its backend for a signal of mkq.
  Prometheus, OpenTelemetry and the handler behind slog are not part of the program: the calls to
  them are values, in the order they are made.  The laws of a dispatcher's trace then say which
  calls the backends see over whole runs.
\<close>

section \<open>Structured values\<close>

text \<open>
  The value of an attribute after \<open>Value.Resolve\<close>; a kind without a case of its own is kept as the
  text that \<open>String\<close> makes of it.  \<open>render\<close> stands for the formatting of floats.
\<close>

datatype slogValue = KString string | KInt64 int | KFloat64 real | KBool bool | KOther string

type_synonym slogAttr = "string \<times> slogValue"

definition slogString :: "(real \<Rightarrow> string) \<Rightarrow> slogValue \<Rightarrow> string" where
  "slogString render v = (case v of
       KString s \<Rightarrow> s
     | KInt64 i \<Rightarrow> FormatInt i
     | KFloat64 x \<Rightarrow> render x
     | KBool b \<Rightarrow> (if b then ''true'' else ''false'')
     | KOther s \<Rightarrow> s)"

text \<open>
  The attributes of an event with their kinds: \<open>mkq.dedup.hit\<close> is a \<open>slog.Bool\<close>, the value of a
  panic a \<open>slog.Any\<close>, the sizes in the warning about the connection pool are \<open>slog.Int\<close>, and all
  others are \<open>slog.String\<close>.
\<close>

definition slogAttrs :: "attrs \<Rightarrow> slogAttr list" where
  "slogAttrs as = map (\<lambda>(k, v). (k,
     if k = ''mkq.dedup.hit'' then KBool (v = ''true'')
     else if k = ''panic'' then KOther v
     else if k = ''concurrency'' \<or> k = ''pool_size'' \<or> k = ''recommended_minimum'' then KInt64 (fst (ParseInt v))
     else KString v)) as"

section \<open>promadapter\<close>

text \<open>A collector: its name, its help text, its label names, and the buckets of a histogram.\<close>

record collector =
  co_name :: string
  co_help :: string
  co_labels :: "string list"
  co_buckets :: "real list"

record promMetrics =
  pm_jobsAdded :: collector
  pm_jobsProcessed :: collector
  pm_handlerDur :: collector
  pm_dispatchWait :: collector
  pm_jobsInFlight :: collector

record promConfig =
  pc_handlerBuckets :: "real list"
  pc_dispatchBuckets :: "real list"

datatype promOption = WithHandlerDurationBuckets "real list" | WithDispatchWaitBuckets "real list"

fun applyPromOption :: "promOption \<Rightarrow> promConfig \<Rightarrow> promConfig" where
  "applyPromOption (WithHandlerDurationBuckets b) c = c\<lparr>pc_handlerBuckets := b\<rparr>"
| "applyPromOption (WithDispatchWaitBuckets b) c = c\<lparr>pc_dispatchBuckets := b\<rparr>"

definition newCollectors :: "promConfig \<Rightarrow> promMetrics" where
  "newCollectors cfg =
     \<lparr>pm_jobsAdded = \<lparr>co_name = MetricJobsAddedTotal, co_help = ''Total jobs enqueued via mkq.Queue.Add.'',
        co_labels = [''queue'', ''name''], co_buckets = []\<rparr>,
      pm_jobsProcessed = \<lparr>co_name = MetricJobsProcessedTotal,
        co_help = ''Total jobs that reached a terminal state (completed or failed).'',
        co_labels = [''queue'', ''name'', ''status''], co_buckets = []\<rparr>,
      pm_handlerDur = \<lparr>co_name = MetricHandlerDurationSeconds, co_help = ''Handler invocation duration in seconds.'',
        co_labels = [''queue'', ''name''], co_buckets = pc_handlerBuckets cfg\<rparr>,
      pm_dispatchWait = \<lparr>co_name = MetricDispatchWaitSeconds,
        co_help = ''Time from job enqueue to handler start, in seconds.'',
        co_labels = [''queue''], co_buckets = pc_dispatchBuckets cfg\<rparr>,
      pm_jobsInFlight = \<lparr>co_name = MetricJobsInFlight,
        co_help = ''Jobs currently held by a worker (between dispatch and finalise).'',
        co_labels = [''queue''], co_buckets = []\<rparr>\<rparr>"

text \<open>
  \<open>New\<close>: \<open>defBuckets\<close> is \<open>prometheus.DefBuckets\<close>, the registerer (when there is one) is the function
  that takes the collectors or panics.
\<close>

definition newProm ::
  "real list \<Rightarrow> (collector list \<Rightarrow> unit outcome) option \<Rightarrow> promOption list \<Rightarrow> promMetrics outcome" where
  "newProm defBuckets reg opts =
     (let cfg = fold applyPromOption opts \<lparr>pc_handlerBuckets = defBuckets, pc_dispatchBuckets = defBuckets\<rparr>;
          m = newCollectors cfg
      in case reg of
           None \<Rightarrow> Returns m
         | Some register \<Rightarrow>
             (case register [pm_jobsAdded m, pm_jobsProcessed m, pm_handlerDur m, pm_dispatchWait m, pm_jobsInFlight m] of
                Panics r \<Rightarrow> Panics r
              | Returns _ \<Rightarrow> Returns m))"

definition attrsToLabels :: "(real \<Rightarrow> string) \<Rightarrow> slogAttr list \<Rightarrow> hash" where
  "attrsToLabels render as = fold (\<lambda>(k, v) out. hset out k (slogString render v)) as []"

text \<open>A call of the library: \<open>With(labels).Add(delta)\<close> or \<open>With(labels).Observe(value)\<close> on a collector.\<close>

datatype promCall = VecAdd collector hash real | VecObserve collector hash real

definition promCounterAdd :: "(real \<Rightarrow> string) \<Rightarrow> promMetrics \<Rightarrow> string \<Rightarrow> real \<Rightarrow> slogAttr list \<Rightarrow> promCall list" where
  "promCounterAdd render m name delta as =
     (let labels = attrsToLabels render as in
      if name = MetricJobsAddedTotal then
        [VecAdd (pm_jobsAdded m) [(''queue'', hlookup labels AttrQueue), (''name'', hlookup labels AttrJobName)] delta]
      else if name = MetricJobsProcessedTotal then
        [VecAdd (pm_jobsProcessed m) [(''queue'', hlookup labels AttrQueue), (''name'', hlookup labels AttrJobName),
           (''status'', hlookup labels AttrProcessStatus)] delta]
      else [])"

definition promHistogramObserve ::
  "(real \<Rightarrow> string) \<Rightarrow> promMetrics \<Rightarrow> string \<Rightarrow> real \<Rightarrow> slogAttr list \<Rightarrow> promCall list" where
  "promHistogramObserve render m name x as =
     (let labels = attrsToLabels render as in
      if name = MetricHandlerDurationSeconds then
        [VecObserve (pm_handlerDur m) [(''queue'', hlookup labels AttrQueue), (''name'', hlookup labels AttrJobName)] x]
      else if name = MetricDispatchWaitSeconds then
        [VecObserve (pm_dispatchWait m) [(''queue'', hlookup labels AttrQueue)] x]
      else [])"

definition promGaugeAdd :: "(real \<Rightarrow> string) \<Rightarrow> promMetrics \<Rightarrow> string \<Rightarrow> real \<Rightarrow> slogAttr list \<Rightarrow> promCall list" where
  "promGaugeAdd render m name delta as =
     (let labels = attrsToLabels render as in
      if name = MetricJobsInFlight then [VecAdd (pm_jobsInFlight m) [(''queue'', hlookup labels AttrQueue)] delta]
      else [])"

section \<open>oteladapter\<close>

datatype otelValue = OString string | OInt64 int | OFloat64 real | OBool bool

definition toOtelAttrs :: "slogAttr list \<Rightarrow> (string \<times> otelValue) list" where
  "toOtelAttrs as = map (\<lambda>(k, v). (k, case v of
       KString s \<Rightarrow> OString s
     | KInt64 i \<Rightarrow> OInt64 i
     | KFloat64 x \<Rightarrow> OFloat64 x
     | KBool b \<Rightarrow> OBool b
     | KOther s \<Rightarrow> OString s)) as"

text \<open>The calls on the library's tracer and span.\<close>

datatype otelCall =
    OStart string "(string \<times> otelValue) list"
  | OSetAttributes "(string \<times> otelValue) list"
  | ORecordError goerr
  | OSetStatusError string
  | OEnd

definition otelStart :: "string \<Rightarrow> slogAttr list \<Rightarrow> otelCall list" where
  "otelStart name as = [OStart name (toOtelAttrs as)]"

definition otelSetAttrs :: "slogAttr list \<Rightarrow> otelCall list" where
  "otelSetAttrs as = [OSetAttributes (toOtelAttrs as)]"

definition otelSetError :: "goerr option \<Rightarrow> otelCall list" where
  "otelSetError err = (case err of None \<Rightarrow> [] | Some e \<Rightarrow> [ORecordError e, OSetStatusError (err_text e)])"

definition otelEnd :: "otelCall list" where
  "otelEnd = [OEnd]"

section \<open>slogadapter\<close>

text \<open>\<open>LogAttrs\<close> on the background context, with the level's number.\<close>

datatype slogCall = LogAttrs int string "slogAttr list"

definition newSlog :: "'l \<Rightarrow> 'l option \<Rightarrow> 'l" where
  "newSlog dflt l = (case l of None \<Rightarrow> dflt | Some l \<Rightarrow> l)"

definition slogDebug :: "string \<Rightarrow> slogAttr list \<Rightarrow> slogCall" where
  "slogDebug msg as = LogAttrs (- 4) msg as"

definition slogInfo :: "string \<Rightarrow> slogAttr list \<Rightarrow> slogCall" where
  "slogInfo msg as = LogAttrs 0 msg as"

definition slogWarn :: "string \<Rightarrow> slogAttr list \<Rightarrow> slogCall" where
  "slogWarn msg as = LogAttrs 4 msg as"

definition slogError :: "string \<Rightarrow> slogAttr list \<Rightarrow> slogCall" where
  "slogError msg as = LogAttrs 8 msg as"

section \<open>The backends a client is given\<close>

text \<open>
  The interfaces \<open>Logger\<close>, \<open>Metrics\<close> and \<open>Tracer\<close> with the implementations of the repository: the
  no-ops that \<open>NewClient\<close> puts in for nil, and the adapters.  The number \<open>x\<close> is what a histogram
  event observed, which the trace leaves out.
\<close>

datatype metricsImpl = NoopMetrics | PromMetrics promMetrics

datatype tracerImpl = NoopTracer | OtelTracer

datatype loggerImpl = NoopLogger | SlogLogger

definition metricsOf :: "metricsImpl option \<Rightarrow> metricsImpl" where
  "metricsOf cfg = (case cfg of None \<Rightarrow> NoopMetrics | Some m \<Rightarrow> m)"

definition tracerOf :: "tracerImpl option \<Rightarrow> tracerImpl" where
  "tracerOf cfg = (case cfg of None \<Rightarrow> NoopTracer | Some t \<Rightarrow> t)"

definition loggerOf :: "loggerImpl option \<Rightarrow> loggerImpl" where
  "loggerOf cfg = (case cfg of None \<Rightarrow> NoopLogger | Some l \<Rightarrow> l)"

fun metricsCalls :: "(real \<Rightarrow> string) \<Rightarrow> metricsImpl \<Rightarrow> real \<Rightarrow> event \<Rightarrow> promCall list" where
  "metricsCalls render NoopMetrics x e = []"
| "metricsCalls render (PromMetrics m) x (CounterAdd n d as) = promCounterAdd render m n d (slogAttrs as)"
| "metricsCalls render (PromMetrics m) x (HistogramObserve n as) = promHistogramObserve render m n x (slogAttrs as)"
| "metricsCalls render (PromMetrics m) x (GaugeAdd n d as) = promGaugeAdd render m n d (slogAttrs as)"
| "metricsCalls render (PromMetrics m) x e = []"

fun tracerCalls :: "tracerImpl \<Rightarrow> event \<Rightarrow> otelCall list" where
  "tracerCalls NoopTracer e = []"
| "tracerCalls OtelTracer (SpanStart n as) = otelStart n (slogAttrs as)"
| "tracerCalls OtelTracer (SpanSetAttrs as) = otelSetAttrs (slogAttrs as)"
| "tracerCalls OtelTracer (SpanSetError e) = otelSetError (Some e)"
| "tracerCalls OtelTracer SpanEnd = otelEnd"
| "tracerCalls OtelTracer e = []"

fun loggerCalls :: "loggerImpl \<Rightarrow> event \<Rightarrow> slogCall list" where
  "loggerCalls NoopLogger e = []"
| "loggerCalls SlogLogger (Log lvl msg as) = [(case lvl of
       LDebug \<Rightarrow> slogDebug | LInfo \<Rightarrow> slogInfo | LWarn \<Rightarrow> slogWarn | LError \<Rightarrow> slogError) msg (slogAttrs as)]"
| "loggerCalls SlogLogger e = []"

section \<open>Laws of the signals\<close>

text \<open>The metric signal of an event: the name and the attributes.\<close>

fun signal :: "event \<Rightarrow> (string \<times> attrs) option" where
  "signal (CounterAdd n d as) = Some (n, as)"
| "signal (HistogramObserve n as) = Some (n, as)"
| "signal (GaugeAdd n d as) = Some (n, as)"
| "signal e = None"

fun callCollector :: "promCall \<Rightarrow> collector" where
  "callCollector (VecAdd c ls d) = c"
| "callCollector (VecObserve c ls x) = c"

fun callLabels :: "promCall \<Rightarrow> hash" where
  "callLabels (VecAdd c ls d) = ls"
| "callLabels (VecObserve c ls x) = ls"

text \<open>The attribute that a label of the collectors is filled from.\<close>

definition labelAttr :: "string \<Rightarrow> string" where
  "labelAttr l = (if l = ''queue'' then AttrQueue else if l = ''name'' then AttrJobName
     else if l = ''status'' then AttrProcessStatus else [])"

text \<open>
  An event is metered: when it is a signal, the adapter makes exactly one call, on the collector of
  the signal's name, with exactly the labels the collector declares, filled with exactly the
  signal's attributes, the first of which is the queue.
\<close>

definition metered :: "(real \<Rightarrow> string) \<Rightarrow> promMetrics \<Rightarrow> real \<Rightarrow> string \<Rightarrow> event \<Rightarrow> bool" where
  "metered render m x q e = (case signal e of
       None \<Rightarrow> metricsCalls render (PromMetrics m) x e = []
     | Some (n, as) \<Rightarrow> (case metricsCalls render (PromMetrics m) x e of
         [c] \<Rightarrow> co_name (callCollector c) = n \<and> map fst (callLabels c) = co_labels (callCollector c) \<and>
           map (\<lambda>(l, v). (labelAttr l, v)) (callLabels c) = as \<and> map_of as AttrQueue = Some q
       | _ \<Rightarrow> False))"

text \<open>A span is open or not: a second start, or a call on a span that is not open, is an error.\<close>

fun spanRun :: "bool \<Rightarrow> otelCall list \<Rightarrow> bool option" where
  "spanRun b [] = Some b"
| "spanRun b (OStart n as # cs) = (if b then None else spanRun True cs)"
| "spanRun b (OEnd # cs) = (if b then spanRun False cs else None)"
| "spanRun b (c # cs) = (if b then spanRun b cs else None)"

definition spanCalls :: "event list \<Rightarrow> otelCall list" where
  "spanCalls es = concat (map (tracerCalls OtelTracer) es)"

definition telemetry ::
  "(real \<Rightarrow> string) \<Rightarrow> promConfig \<Rightarrow> real \<Rightarrow> string \<Rightarrow> bool \<Rightarrow> bool \<Rightarrow> event list \<Rightarrow> bool" where
  "telemetry render cfg x q b b' es \<longleftrightarrow>
     list_all (metered render (newCollectors cfg) x q) es \<and> spanRun b (spanCalls es) = Some b'"

lemma spanRun_append: "spanRun b (cs @ cs') = Option.bind (spanRun b cs) (\<lambda>b'. spanRun b' cs')"
  by (induction b cs rule: spanRun.induct) simp_all

lemma telemetry_append:
  "telemetry render cfg x q b b1 es \<Longrightarrow> telemetry render cfg x q b1 b' es' \<Longrightarrow> telemetry render cfg x q b b' (es @ es')"
  by (simp add: telemetry_def spanCalls_def spanRun_append)

lemma metered_other: "signal e = None \<Longrightarrow> metered render m x q e"
  by (cases e) (simp_all add: metered_def)

lemma telemetry_obs: "telemetry render cfg x q b b' (obs es) = telemetry render cfg x q b b' es"
  unfolding telemetry_def spanCalls_def
  by (induction es arbitrary: b rule: obs.induct) (auto simp: metered_other spanRun_append bind_eq_Some_conv)

lemmas observability_names = AttrQueue_def AttrJobName_def AttrProcessStatus_def MetricJobsAddedTotal_def
  MetricJobsProcessedTotal_def MetricHandlerDurationSeconds_def MetricDispatchWaitSeconds_def MetricJobsInFlight_def

lemmas prom_defs = promCounterAdd_def promHistogramObserve_def promGaugeAdd_def attrsToLabels_def slogAttrs_def
  slogString_def newCollectors_def labelAttr_def hlookup_def

lemma metered_signals:
  "metered render (newCollectors cfg) x q (GaugeAdd MetricJobsInFlight d [(AttrQueue, q)])"
  "metered render (newCollectors cfg) x q (HistogramObserve MetricDispatchWaitSeconds [(AttrQueue, q)])"
  "metered render (newCollectors cfg) x q (HistogramObserve MetricHandlerDurationSeconds [(AttrQueue, q), (AttrJobName, nm)])"
  "metered render (newCollectors cfg) x q (CounterAdd MetricJobsAddedTotal d [(AttrQueue, q), (AttrJobName, nm)])"
  "metered render (newCollectors cfg) x q
     (CounterAdd MetricJobsProcessedTotal d [(AttrQueue, q), (AttrJobName, nm), (AttrProcessStatus, st)])"
  by (simp_all add: metered_def prom_defs observability_names Let_def)

section \<open>Lemmas: the signals of a job\<close>

lemma telemetry_Nil: "telemetry render cfg x q b b []"
  by (simp add: telemetry_def spanCalls_def)

lemma telemetry_one:
  "metered render (newCollectors cfg) x q e \<Longrightarrow> spanRun b (tracerCalls OtelTracer e) = Some b' \<Longrightarrow>
   telemetry render cfg x q b b' [e]"
  by (simp add: telemetry_def spanCalls_def)

text \<open>Events that no backend for metrics or spans hears of, and errors and attributes on an open span.\<close>

lemma telemetry_all:
  "(\<And>e. e \<in> set es \<Longrightarrow> telemetry render cfg x q b b [e]) \<Longrightarrow> telemetry render cfg x q b b es"
proof (induction es)
  case (Cons e es)
  then have "telemetry render cfg x q b b [e]" "telemetry render cfg x q b b es" by simp_all
  from telemetry_append [OF this] show ?case by simp
qed (rule telemetry_Nil)

lemma telemetry_event:
  "telemetry render cfg x q b b [ScriptCall c n ks as]" "telemetry render cfg x q b b [HandlerCall j]"
  "telemetry render cfg x q b b [Sleep d]" "telemetry render cfg x q b b [Cmd cm r]"
  "telemetry render cfg x q b b [Log l msg as']"
  "telemetry render cfg x q False True [SpanStart n as']" "telemetry render cfg x q True True [SpanSetAttrs as']"
  "telemetry render cfg x q True True [SpanSetError err]" "telemetry render cfg x q True False [SpanEnd]"
  by (auto intro!: telemetry_one simp: metered_other otelStart_def otelSetAttrs_def otelSetError_def otelEnd_def)

lemma telemetry_signals:
  "telemetry render cfg x (w_queueName w) b b [GaugeAdd MetricJobsInFlight d [(AttrQueue, w_queueName w)]]"
  "telemetry render cfg x (w_queueName w) b b [HistogramObserve MetricDispatchWaitSeconds [(AttrQueue, w_queueName w)]]"
  "telemetry render cfg x (w_queueName w) b b [observeHandler w jobMap]"
  "telemetry render cfg x (w_queueName w) b b [countProcessed w nm st]"
  by (auto intro!: telemetry_one simp: metered_signals observeHandler_def countProcessed_def)

lemma telemetry_calls:
  "telemetry render cfg x q b b [extendCall w t j]" "telemetry render cfg x q b b [releaseCall w t j]"
  "telemetry render cfg x q b b [terminalCall sv w jobID token jobMap out v now flag]"
  using terminalCall_call [of sv w jobID token jobMap out v now flag]
  by (auto simp: extendCall_def releaseCall_def telemetry_event)

lemma telemetry_of_obs: "telemetry render cfg x q b b' (obs es) \<Longrightarrow> telemetry render cfg x q b b' es"
  by (simp add: telemetry_obs)

lemma telemetry_bind:
  assumes "does m (\<lambda>_. telemetry render cfg x q b b1)" "\<And>a. does (f a) (\<lambda>_. telemetry render cfg x q b1 b')"
  shows "does (State_Monad.bind m f) (\<lambda>_. telemetry render cfg x q b b')"
  using assms(1) by (rule does_bind) (auto intro: does_weaken [OF assms(2)] telemetry_append)

lemma telemetry_beginJob: "does (beginJob sv w jobID jobMap) (\<lambda>_. telemetry render cfg x (w_queueName w) False True)"
proof -
  have "does (observeWait sv w jobMap) (\<lambda>_. telemetry render cfg x (w_queueName w) False False)"
    by (rule does_observeWait, rule telemetry_of_obs) (auto simp: telemetry_Nil telemetry_signals)
  then show ?thesis
    unfolding beginJob_def by (rule telemetry_bind) (intro does_emit telemetry_event)
qed

lemma telemetry_heartbeat: "does (heartbeat sv w token jobID) (\<lambda>_. telemetry render cfg x q b b)"
  by (rule does_heartbeat, rule telemetry_of_obs, rule telemetry_all) (auto simp: telemetry_calls)

lemma telemetry_runHandler: "does (runHandler sv c jobID jobMap) (\<lambda>_. telemetry render cfg x q b b)"
  by (rule does_runHandler) (auto intro: telemetry_Nil telemetry_event)

lemma telemetry_finalise:
  assumes "marshal_total sv"
  shows "does (finalise sv w jobID token jobMap out) (\<lambda>_. telemetry render cfg x q b b)"
  using finalise_refines_policy [OF assms]
proof (rule does_weaken)
  fix res es
  assume "carries_out sv w jobID token jobMap out res es"
  then obtain v now flag where "obs es = [terminalCall sv w jobID token jobMap out v now flag]"
    unfolding carries_out_def by (elim exE conjE) (erule finalisedE, rule that)
  then show "telemetry render cfg x q b b es" by (simp add: telemetry_obs [of _ _ _ _ _ _ es, symmetric] telemetry_calls)
qed

lemma telemetry_span_events:
  "set sp \<subseteq> range SpanSetAttrs \<union> range SpanSetError \<Longrightarrow> telemetry render cfg x q True True sp"
  by (rule telemetry_all) (auto intro: telemetry_event)

lemma telemetry_Cons:
  "telemetry render cfg x q b b1 [e] \<Longrightarrow> telemetry render cfg x q b1 b' es \<Longrightarrow> telemetry render cfg x q b b' (e # es)"
  using telemetry_append [of render cfg x q b b1 "[e]" b' es] by simp

lemma telemetry_finishJob:
  assumes "marshal_total sv"
  shows "does (finishJob sv w token jobID jobMap out) (\<lambda>_. telemetry render cfg x (w_queueName w) True False)"
proof -
  have sp: "telemetry render cfg x q True True (releaseCall w token jobID # sp)"
    if "set sp \<subseteq> range SpanSetAttrs \<union> range SpanSetError" for sp q
    using telemetry_calls(2) telemetry_span_events [OF that] by (rule telemetry_Cons)
  have failed: "does (finaliseFailed sv w token jobID out err) (\<lambda>_. telemetry render cfg x q True True)" for err q
    by (rule does_finaliseFailed, rule telemetry_of_obs)
      (auto simp: telemetry_Nil sp)
  have status: "does (countStatus w nm out st) (\<lambda>_. telemetry render cfg x (w_queueName w) True True)" for nm st
    by (rule does_countStatus)
      (simp add: statusEvents_def telemetry_Nil telemetry_signals telemetry_Cons [OF telemetry_signals(4) telemetry_event(8)]
        split: finaliseStatus.split)
  have resched: "does (if hlookup jobMap ''rjk'' \<noteq> [] then rescheduleNext sv [] w (hlookup jobMap ''rjk'') jobID else ret ())
      (\<lambda>_. telemetry render cfg x q True True)" for q
    by (rule does_reschedStep, rule telemetry_of_obs) (auto intro: telemetry_Nil telemetry_event)
  have last: "does (State_Monad.bind (emit SpanEnd) (\<lambda>_. ret pf)) (\<lambda>_. telemetry render cfg x q True False)" for pf q
    by (intro does_rules) (simp add: telemetry_event)
  show ?thesis
    unfolding finishJob_def Let_def
    by (intro telemetry_bind [OF telemetry_finalise [OF assms]] does_case_prod telemetry_bind [OF failed]
        telemetry_bind [OF status] telemetry_bind [OF resched] last)
qed

lemma telemetry_runJob:
  assumes m: "marshal_total sv"
  shows "does (runJob sv w token jobID jobMap) (\<lambda>_. telemetry render cfg x (w_queueName w) False False)"
proof -
  have gauge: "does (emit (GaugeAdd MetricJobsInFlight d [(AttrQueue, w_queueName w)]))
      (\<lambda>_. telemetry render cfg x (w_queueName w) b b)" for b d
    by (intro does_emit telemetry_signals)
  have dur: "does (emit (observeHandler w jobMap)) (\<lambda>_. telemetry render cfg x (w_queueName w) b b)" for b
    by (intro does_emit telemetry_signals)
  have job: "does (processJob sv w token jobID jobMap) (\<lambda>_. telemetry render cfg x (w_queueName w) False False)"
    unfolding processJob_def
    by (intro telemetry_bind [OF telemetry_beginJob] telemetry_bind [OF telemetry_heartbeat]
        telemetry_bind [OF telemetry_runHandler] telemetry_bind [OF dur] telemetry_finishJob m)
  have defa: "does (runDefa sv w token jobID jobMap d) (\<lambda>_. telemetry render cfg x (w_queueName w) False False)" for d
    by (rule does_weaken [OF runDefa_events [OF m]], rule telemetry_of_obs)
      (auto simp: defaEvents_def intro!: telemetry_Cons [OF telemetry_calls(3)] telemetry_calls telemetry_signals)
  show ?thesis
    unfolding runJob_def Let_def
    by (rule telemetry_bind [OF gauge], rule telemetry_bind [OF does_if [OF defa job]], rule telemetry_bind [OF gauge])
      (rule does_return, rule telemetry_Nil)
qed

section \<open>Lemmas: the signals of a dispatcher and of an add\<close>

interpretation signals: dispatcher_law "telemetry render cfg x (w_queueName w) False False" sv w
  for render cfg x and sv :: "('s, 't) services" and w
proof unfold_locales
  show "telemetry render cfg x (w_queueName w) False False es"
    if "obs es = [ScriptCall RunCtx MoveToActive (moveToActiveKeys (w_keys w)) as]" for es as
    by (rule telemetry_of_obs) (simp add: that telemetry_event)
  show "telemetry render cfg x (w_queueName w) False False es" if "set (obs es) \<subseteq> range Sleep" for es
    by (rule telemetry_of_obs, rule telemetry_all) (use that telemetry_event(3) in blast)
  show "telemetry render cfg x (w_queueName w) False False es" if "obs es = [releaseCall w token jobID]" for es token jobID
    by (rule telemetry_of_obs) (simp add: that telemetry_calls)
qed (auto intro: telemetry_Nil telemetry_append telemetry_runJob)

text \<open>The span operations as actions.\<close>

lemma telemetry_emits:
  "does (emit (SpanStart n as)) (\<lambda>_. telemetry render cfg x q False True)"
  "does (emit (SpanSetAttrs as)) (\<lambda>_. telemetry render cfg x q True True)"
  "does (emit (SpanSetError err)) (\<lambda>_. telemetry render cfg x q True True)"
  "does (emit SpanEnd) (\<lambda>_. telemetry render cfg x q True False)"
  by (rule does_emit, rule telemetry_event)+

lemmas telemetry_then = telemetry_emits [THEN telemetry_bind]

lemma telemetry_addReply:
  "does (addReply q jobName payload ts script pre r) (\<lambda>_. telemetry render cfg x (q_name q) True True)"
proof -
  have counter: "does (emit (CounterAdd MetricJobsAddedTotal 1 [(AttrQueue, q_name q), (AttrJobName, jobName)]))
      (\<lambda>_. telemetry render cfg x (q_name q) True True)"
    by (auto intro!: does_emit telemetry_one simp: metered_signals)
  show ?thesis
    unfolding addReply_def Let_def
    by (intro does_case_sum does_return telemetry_Nil telemetry_then does_if telemetry_bind [OF counter])
qed

lemma telemetry_addSend:
  "does (addSend sv q cfg' payload dataJSON) (\<lambda>_. telemetry render cfg x (q_name q) True True)"
proof -
  have now: "does (nowMilli sv) (\<lambda>_. telemetry render cfg x (q_name q) True True)"
    by (intro does_nowMilli telemetry_Nil)
  have get: "does (preGet sv k) (\<lambda>_. telemetry render cfg x (q_name q) True True)" for k
    unfolding preGet_def by (intro does_rules) (auto intro: telemetry_Nil telemetry_event)
  have run: "does (Run sv CallerCtx script ks as) (\<lambda>_. telemetry render cfg x (q_name q) True True)" for script ks as
    by (rule does_script, rule telemetry_of_obs) (simp add: telemetry_event)
  show ?thesis
    unfolding addSend_def Let_def
    by (intro telemetry_bind [OF now] telemetry_then telemetry_Nil does_case_sum does_return does_case_prod
        telemetry_bind [OF get] telemetry_bind [OF run] telemetry_addReply)
qed

lemma telemetry_Add: "does (Add sv q payload opts) (\<lambda>_. telemetry render cfg x (q_name q) False False)"
proof -
  have body: "does (addBody sv q payload opts) (\<lambda>_. telemetry render cfg x (q_name q) True True)"
    unfolding addBody_def Let_def by (intro does_case_option does_case_sum does_return telemetry_Nil telemetry_addSend)
  have err: "does (case e of Some e \<Rightarrow> if \<not> errors_Is e (Sentinel ErrDuplicateJob) then emit (SpanSetError e) else ret ()
      | None \<Rightarrow> ret ()) (\<lambda>_. telemetry render cfg x (q_name q) True True)" for e
    by (auto intro!: does_case_option does_if does_return telemetry_Nil telemetry_emits)
  show ?thesis
    unfolding Add_def
    by (intro telemetry_then telemetry_bind [OF body] does_case_prod telemetry_bind [OF err] does_return telemetry_Nil)
qed

text \<open>
  What is relied on of Prometheus: a collector keeps one number per combination of label values,
  and \<open>Add\<close> adds to the number of its own combination.
\<close>

definition adds_up :: "(promCall \<Rightarrow> 'p \<Rightarrow> 'p) \<Rightarrow> ('p \<Rightarrow> collector \<Rightarrow> hash \<Rightarrow> real) \<Rightarrow> bool" where
  "adds_up apply_call number \<longleftrightarrow> (\<forall>c p co ls. number (apply_call c p) co ls = number p co ls + (case c of
       VecAdd co' ls' d \<Rightarrow> if co' = co \<and> ls' = ls then d else 0
     | VecObserve _ _ _ \<Rightarrow> 0))"

abbreviation sentTo :: "(promCall \<Rightarrow> 'p \<Rightarrow> 'p) \<Rightarrow> (real \<Rightarrow> string) \<Rightarrow> promConfig \<Rightarrow> real \<Rightarrow> event list \<Rightarrow> 'p \<Rightarrow> 'p" where
  "sentTo apply_call render cfg x es \<equiv>
     fold apply_call (concat (map (metricsCalls render (PromMetrics (newCollectors cfg)) x) es))"

lemma metered_gauge:
  assumes "metered render (newCollectors cfg) x q (GaugeAdd n d as)"
  shows "n = MetricJobsInFlight" "promGaugeAdd render (newCollectors cfg) n d (slogAttrs as) =
    [VecAdd (pm_jobsInFlight (newCollectors cfg)) [(''queue'', q)] d]"
proof -
  define v where "v = hlookup (attrsToLabels render (slogAttrs as)) AttrQueue"
  show n: "n = MetricJobsInFlight" using assms by (auto simp: metered_def promGaugeAdd_def split: if_splits)
  with assms have "[(AttrQueue, v)] = as" "map_of as AttrQueue = Some q"
    by (simp_all add: metered_def promGaugeAdd_def labelAttr_def v_def)
  then have "v = q" by auto
  with n show "promGaugeAdd render (newCollectors cfg) n d (slogAttrs as) =
      [VecAdd (pm_jobsInFlight (newCollectors cfg)) [(''queue'', q)] d]"
    by (simp add: promGaugeAdd_def v_def)
qed

lemma gauge_event:
  assumes a: "adds_up apply_call number" and m: "metered render (newCollectors cfg) x q e"
  shows "number (sentTo apply_call render cfg x [e] p) (pm_jobsInFlight (newCollectors cfg)) [(''queue'', q)] =
    number p (pm_jobsInFlight (newCollectors cfg)) [(''queue'', q)] + inFlight [e]"
proof (cases e)
  case (GaugeAdd n d as)
  with m a [unfolded adds_up_def] metered_gauge [of render cfg x q n d as] show ?thesis by simp
qed (use a [unfolded adds_up_def] in \<open>simp_all add: promCounterAdd_def promHistogramObserve_def newCollectors_def
    observability_names Let_def\<close>)

lemma gauge_events:
  assumes "adds_up apply_call number" "list_all (metered render (newCollectors cfg) x q) es"
  shows "number (sentTo apply_call render cfg x es p) (pm_jobsInFlight (newCollectors cfg)) [(''queue'', q)] =
    number p (pm_jobsInFlight (newCollectors cfg)) [(''queue'', q)] + inFlight es"
  using assms(2)
proof (induction es arbitrary: p)
  case (Cons e es)
  then have "metered render (newCollectors cfg) x q e" by simp
  from gauge_event [OF assms(1) this, of p] Cons inFlight_append [of "[e]" es] show ?case by simp
qed simp

section \<open>Properties\<close>

text \<open>
  C17: No signal is lost or mislabelled on its way to Prometheus, and the spans handed to
  OpenTelemetry are well formed: over a whole run of a dispatcher, and over an \<open>Add\<close> on every path,
  each metric event makes the adapter call exactly one collector, the one registered under the
  event's name, with exactly the labels it declares, filled with the event's attributes and naming
  this queue; and each span that is started is ended once before the next, with attributes and
  errors only in between.
\<close>

theorem signals_reach_the_backends:
  "(marshal_total sv \<longrightarrow> does (dispatchLoop sv w fuel) (\<lambda>_ es.
      list_all (metered render (newCollectors cfg) x (w_queueName w)) es \<and> spanRun False (spanCalls es) = Some False)) \<and>
   does (Add sv q payload opts) (\<lambda>_ es.
      list_all (metered render (newCollectors cfg) x (q_name q)) es \<and> spanRun False (spanCalls es) = Some False)"
  using signals.law_dispatchLoop [where w = w and fuel = fuel and render = render and cfg = cfg and x = x] telemetry_Add [of sv q payload opts render cfg x]
  unfolding telemetry_def by blast

text \<open>
  The in-flight gauge that Prometheus shows for a queue is back at its value when a dispatcher
  has returned, whatever the jobs it ran did, provided that the library's \<open>Add\<close> adds.
\<close>

lemma prometheus_gauge_returns:
  assumes "adds_up apply_call number" "marshal_total sv" "run_state (dispatchLoop sv w fuel) wd = (Some (), wd')"
  shows "\<exists>es. trace wd' = trace wd @ es \<and>
     number (sentTo apply_call render cfg x es p) (pm_jobsInFlight (newCollectors cfg)) [(''queue'', w_queueName w)] =
     number p (pm_jobsInFlight (newCollectors cfg)) [(''queue'', w_queueName w)]"
proof -
  from signals.law_dispatchLoop [OF assms(2)] assms(3) obtain es
    where t: "trace wd' = trace wd @ es" "list_all (metered render (newCollectors cfg) x (w_queueName w)) es"
    by (rule doesD) (auto simp: telemetry_def)
  moreover from dispatchLoop_balanced [OF assms(2)] assms(3) obtain es'
    where "trace wd' = trace wd @ es'" "inFlight es' = 0" by (rule doesD) (auto simp: balanced_def)
  ultimately show ?thesis using gauge_events [OF assms(1) t(2), of p] by (intro exI [of _ es]) auto
qed

end
