(* ===== verification/Bench.thy ===== *)
theory Bench
  imports Lifecycle Client Queue_Add
begin

text \<open>
  The benchmark driver (\<open>bench/go/main.go\<close>): the producing loops, the handlers that count the jobs
  and close a channel when all have run, the figures it reports, the three modes and \<open>main\<close>.  What
  the worker's goroutines do while a mode waits is the outside's answer: the runs of the handler up
  to the moment the select returns.  The parsing of flags and the bytes of the output are left out;
  the output is the value that is encoded.
\<close>

section \<open>Producing\<close>

text \<open>The loop of \<open>runProduce\<close>: the index and the error of the \<open>Add\<close> it dies of, if any.\<close>

fun produce :: "('s, 't) services \<Rightarrow> Queue \<Rightarrow> 't \<Rightarrow> nat \<Rightarrow> nat \<Rightarrow> ('s, (nat \<times> goerr) option) act" where
  "produce sv q pl i 0 = ret None"
| "produce sv q pl i (Suc n) = do {
     (j, err) \<leftarrow> Add sv q pl [];
     (case err of Some e \<Rightarrow> ret (Some (i, e)) | None \<Rightarrow> produce sv q pl (Suc i) n)
   }"

section \<open>Consuming\<close>

text \<open>The variables the handlers share; closing a closed channel panics.\<close>

record benchState =
  bs_processed :: int
  bs_done :: bool
  bs_latencies :: "duration list"

definition benchStart :: benchState where
  "benchStart = \<lparr>bs_processed = 0, bs_done = False, bs_latencies = []\<rparr>"

definition consumeHandler :: "int \<Rightarrow> benchState \<Rightarrow> benchState outcome" where
  "consumeHandler n st =
     (let p = wrap64 (bs_processed st + 1); st' = st\<lparr>bs_processed := p\<rparr>
      in if p = n then (if bs_done st' then Panics ''close of closed channel'' else Returns (st'\<lparr>bs_done := True\<rparr>))
         else Returns st')"

text \<open>\<open>Time.Sub\<close> saturates at the bounds of a duration.\<close>

definition timeSub :: "gotime \<Rightarrow> gotime \<Rightarrow> duration" where
  "timeSub t u = max MinInt64 (min MaxInt64 (t - u))"

definition latencyHandler :: "int \<Rightarrow> (string \<times> gotime) list \<Rightarrow> string \<Rightarrow> gotime \<Rightarrow> benchState \<Rightarrow> benchState outcome" where
  "latencyHandler n addedAt jobID now st =
     consumeHandler n (case map_of addedAt jobID of
         Some t0 \<Rightarrow> st\<lparr>bs_latencies := bs_latencies st @ [timeSub now t0]\<rparr>
       | None \<Rightarrow> st)"

text \<open>
  A worker runs the handler on one job after another.  Without times of addition this is the
  handler of \<open>runConsume\<close>, which only counts.
\<close>

fun latencyRuns :: "int \<Rightarrow> (string \<times> gotime) list \<Rightarrow> (string \<times> gotime) list \<Rightarrow> benchState \<Rightarrow> benchState outcome" where
  "latencyRuns n addedAt [] st = Returns st"
| "latencyRuns n addedAt ((jobID, now) # js) st = (case latencyHandler n addedAt jobID now st of
       Returns st' \<Rightarrow> latencyRuns n addedAt js st'
     | Panics m \<Rightarrow> Panics m)"

section \<open>Reporting\<close>

definition percentiles :: "duration list \<Rightarrow> duration \<times> duration" where
  "percentiles d =
     (if d = [] then (0, 0)
      else let s = sort d in (s ! (length d * 50 div 100), s ! (length d * 99 div 100)))"

text \<open>A value of the report; a quotient by zero is not finite, and its text is what the encoder complains about.\<close>

datatype benchVal = VStr string | VInt int | VUint nat | VFloat real | VNotFinite string

definition fdiv :: "real \<Rightarrow> real \<Rightarrow> benchVal" where
  "fdiv x y =
     (if y \<noteq> 0 then VFloat (fl64 (x / y))
      else VNotFinite (if 0 < x then ''+Inf'' else if x < 0 then ''-Inf'' else ''NaN''))"

type_synonym report = "(string \<times> benchVal) list"

text \<open>\<open>ReadMemStats\<close>: the bytes of live objects, the bytes ever allocated, the collections.\<close>

record memStats =
  ms_HeapAlloc :: nat
  ms_TotalAlloc :: nat
  ms_NumGC :: nat

definition addRuntime :: "memStats \<Rightarrow> report \<Rightarrow> report" where
  "addRuntime ms m =
     (let m = hset m ''heapAllocBytes'' (VUint (ms_HeapAlloc ms));
          m = hset m ''totalAllocBytes'' (VUint (ms_TotalAlloc ms));
          m = hset m ''numGC'' (VUint (ms_NumGC ms))
      in case map_of m ''jobs'' of
           Some (VInt jobs) \<Rightarrow>
             if jobs > 0 then hset m ''allocPerJob'' (fdiv (fl64 (real (ms_TotalAlloc ms))) (fl64 (of_int jobs))) else m
         | _ \<Rightarrow> m)"

text \<open>
  How the process ends: with a line on its output, by \<open>log.Fatalf\<close>, or by \<open>os.Exit\<close>; the last two
  skip the deferred calls.  A value that is not finite has no JSON.
\<close>

datatype benchEnd = Reported report | Fatal string | Exit int

fun notFinite :: "report \<Rightarrow> string option" where
  "notFinite [] = None"
| "notFinite ((k, VNotFinite x) # m) = Some x"
| "notFinite (e # m) = notFinite m"

definition emitReport :: "report \<Rightarrow> benchEnd" where
  "emitReport m = (case notFinite m of
       None \<Rightarrow> Reported m
     | Some x \<Rightarrow> Fatal (''encode: json: unsupported value: '' @ x))"

section \<open>The modes\<close>

text \<open>
  What happens beside the benchmark's own goroutine: the handler runs until the select returns, each
  with the id of its job and its time, and whether the select took the case of the context; the
  call of \<open>Stop\<close> with the runs that end before it; the memory statistics.
\<close>

record 's benchEnv =
  be_wait :: "'s \<Rightarrow> ((string \<times> gotime) list \<times> bool) \<times> 's"
  be_stop :: "'s \<Rightarrow> (string \<times> gotime) list \<times> 's"
  be_mem :: "'s \<Rightarrow> memStats \<times> 's"

definition rate :: "int \<Rightarrow> duration \<Rightarrow> benchVal" where
  "rate n elapsed = fdiv (fl64 (of_int n)) (Seconds elapsed)"

definition runProduce :: "('s, 't) services \<Rightarrow> 's benchEnv \<Rightarrow> Queue \<Rightarrow> 't \<Rightarrow> int \<Rightarrow> ('s, benchEnd) act" where
  "runProduce sv env q pl n = do {
     start \<leftarrow> ask (sv_now sv);
     r \<leftarrow> produce sv q pl 0 (nat n);
     (case r of
        Some (i, err) \<Rightarrow> ret (Fatal (''Add['' @ fmt_nat i @ '']: '' @ err_text err))
      | None \<Rightarrow> do {
          now \<leftarrow> ask (sv_now sv);
          let elapsed = timeSub now start;
          ms \<leftarrow> ask (be_mem env);
          ret (emitReport (addRuntime ms
            [(''side'', VStr ''mkq''), (''mode'', VStr ''produce''), (''jobs'', VInt n),
             (''ms'', VInt (Milliseconds elapsed)), (''perSec'', rate n elapsed)]))
        })
   }"

definition benchOptions :: "int \<Rightarrow> WorkerOption list" where
  "benchOptions concurrency = [WithConcurrency concurrency, WithIdlePollInterval (10 * Millisecond)]"

text \<open>
  The select over \<open>done\<close> and \<open>ctx.Done()\<close>: the first is ready when the channel is closed.  With both
  ready the choice is the runtime's.
\<close>

definition awaitDone :: "string \<Rightarrow> int \<Rightarrow> benchState \<Rightarrow> bool \<Rightarrow> string option" where
  "awaitDone mode n st ctxCase =
     (if bs_done st \<and> \<not> ctxCase then None
      else Some (mode @ '': timed out after '' @ FormatInt (bs_processed st) @ ''/'' @ FormatInt n @ '' jobs''))"

definition runConsume ::
  "('s, 't) services \<Rightarrow> runtime_info \<Rightarrow> 's benchEnv \<Rightarrow> Queue \<Rightarrow> int \<Rightarrow> int \<Rightarrow> ('s, benchEnd outcome) act" where
  "runConsume sv ri env q n concurrency = do {
     start \<leftarrow> ask (sv_now sv);
     p \<leftarrow> Process sv ri (Some q) True (benchOptions concurrency);
     (case p of
        Inl err \<Rightarrow> ret (Returns (Fatal (''mkq.Process: '' @ err_text err)))
      | Inr worker \<Rightarrow> do {
          (runs, ctxCase) \<leftarrow> ask (be_wait env);
          (case latencyRuns n [] runs benchStart of
             Panics m \<Rightarrow> ret (Panics m)
           | Returns st \<Rightarrow>
               (case awaitDone ''consume'' n st ctxCase of
                  Some msg \<Rightarrow> ret (Returns (Fatal msg))
                | None \<Rightarrow> do {
                    now \<leftarrow> ask (sv_now sv);
                    let elapsed = timeSub now start;
                    late \<leftarrow> ask (be_stop env);
                    ms \<leftarrow> ask (be_mem env);
                    ret (Returns (emitReport (addRuntime ms
                      [(''side'', VStr ''mkq''), (''mode'', VStr ''consume''), (''jobs'', VInt n),
                       (''concurrency'', VInt concurrency), (''ms'', VInt (Milliseconds elapsed)),
                       (''perSec'', rate n elapsed)])))
                  }))
        })
   }"

text \<open>
  The producing loop of \<open>runLatency\<close>, which also remembers when each job was added; the loop would
  panic on a missing job without an error.
\<close>

fun produceTimed ::
  "('s, 't) services \<Rightarrow> Queue \<Rightarrow> 't \<Rightarrow> nat \<Rightarrow> nat \<Rightarrow> (string \<times> gotime) list \<Rightarrow>
     ('s, ((nat \<times> goerr) + (string \<times> gotime) list) outcome) act" where
  "produceTimed sv q pl i 0 addedAt = ret (Returns (Inr addedAt))"
| "produceTimed sv q pl i (Suc n) addedAt = do {
     now \<leftarrow> ask (sv_now sv);
     (j, err) \<leftarrow> Add sv q pl [];
     (case err of
        Some e \<Rightarrow> ret (Returns (Inl (i, e)))
      | None \<Rightarrow> (case j of
          None \<Rightarrow> ret (Panics ''nil pointer dereference'')
        | Some job \<Rightarrow> produceTimed sv q pl (Suc i) n (hset addedAt (j_ID job) now)))
   }"

text \<open>
  From the worker's start on; the handlers that are still running while \<open>Stop\<close> waits add their
  latencies too.
\<close>

definition latencyWorker ::
  "('s, 't) services \<Rightarrow> runtime_info \<Rightarrow> 's benchEnv \<Rightarrow> Queue \<Rightarrow> int \<Rightarrow> int \<Rightarrow> (string \<times> gotime) list \<Rightarrow> ('s, benchEnd outcome) act" where
  "latencyWorker sv ri env q n concurrency addedAt = do {
     p \<leftarrow> Process sv ri (Some q) True (benchOptions concurrency);
     (case p of
        Inl err \<Rightarrow> ret (Returns (Fatal (''mkq.Process: '' @ err_text err)))
      | Inr worker \<Rightarrow> do {
          (runs, ctxCase) \<leftarrow> ask (be_wait env);
          (case latencyRuns n addedAt runs benchStart of
             Panics m \<Rightarrow> ret (Panics m)
           | Returns st \<Rightarrow>
               (case awaitDone ''latency'' n st ctxCase of
                  Some msg \<Rightarrow> ret (Returns (Fatal msg))
                | None \<Rightarrow> do {
                    late \<leftarrow> ask (be_stop env);
                    (case latencyRuns n addedAt late st of
                       Panics m \<Rightarrow> ret (Panics m)
                     | Returns st' \<Rightarrow> do {
                         let (p50, p99) = percentiles (bs_latencies st');
                         ms \<leftarrow> ask (be_mem env);
                         ret (Returns (emitReport (addRuntime ms
                           [(''side'', VStr ''mkq''), (''mode'', VStr ''latency''), (''jobs'', VInt n),
                            (''concurrency'', VInt concurrency), (''p50ms'', VInt (Milliseconds p50)),
                            (''p99ms'', VInt (Milliseconds p99))])))
                       })
                  }))
        })
   }"

definition runLatency ::
  "('s, 't) services \<Rightarrow> runtime_info \<Rightarrow> 's benchEnv \<Rightarrow> Queue \<Rightarrow> 't \<Rightarrow> int \<Rightarrow> int \<Rightarrow> ('s, benchEnd outcome) act" where
  "runLatency sv ri env q pl n concurrency = do {
     r \<leftarrow> produceTimed sv q pl 0 (nat n) [];
     (case r of
        Panics m \<Rightarrow> ret (Panics m)
      | Returns (Inl (i, err)) \<Rightarrow> ret (Returns (Fatal (''Add['' @ fmt_nat i @ '']: '' @ err_text err)))
      | Returns (Inr addedAt) \<Rightarrow> latencyWorker sv ri env q n concurrency addedAt)
   }"

section \<open>Main\<close>

text \<open>The timeout ends the context of the calls and of the select: it acts through the services and \<open>be_wait\<close>.\<close>

record flags =
  fl_mode :: string
  fl_jobs :: int
  fl_concurrency :: int
  fl_queue :: string
  fl_prefix :: string
  fl_redis :: string
  fl_timeout :: duration

definition defaultFlags :: flags where
  "defaultFlags = \<lparr>fl_mode = [], fl_jobs = 1000, fl_concurrency = 16, fl_queue = ''bench'',
     fl_prefix = ''mkqbench'', fl_redis = ''127.0.0.1:6379'', fl_timeout = 300 * Second\<rparr>"

definition runMode ::
  "('s, 't) services \<Rightarrow> runtime_info \<Rightarrow> 's benchEnv \<Rightarrow> 't \<Rightarrow> flags \<Rightarrow> Queue \<Rightarrow> ('s, benchEnd outcome) act" where
  "runMode sv ri env pl fl q =
     (if fl_mode fl = ''produce'' then do { r \<leftarrow> runProduce sv env q pl (fl_jobs fl); ret (Returns r) }
      else if fl_mode fl = ''consume'' then runConsume sv ri env q (fl_jobs fl) (fl_concurrency fl)
      else if fl_mode fl = ''latency'' then runLatency sv ri env q pl (fl_jobs fl) (fl_concurrency fl)
      else ret (Returns (Exit 2)))"

text \<open>The deferred \<open>Close\<close> runs when \<open>main\<close> returns or panics, not after \<open>log.Fatalf\<close> or \<open>os.Exit\<close>.\<close>

definition deferred :: "benchEnd outcome \<Rightarrow> bool" where
  "deferred r = (case r of Returns (Fatal _) \<Rightarrow> False | Returns (Exit _) \<Rightarrow> False | _ \<Rightarrow> True)"

definition benchMain ::
  "('s, 't) services \<Rightarrow> runtime_info \<Rightarrow> 's benchEnv \<Rightarrow> 't \<Rightarrow> flags \<Rightarrow> ('s, benchEnd outcome) act" where
  "benchMain sv ri env pl fl = do {
     c \<leftarrow> NewClient sv None \<lparr>cf_Addrs = [fl_redis fl], cf_PoolSize = 0, cf_KeyPrefix = fl_prefix fl\<rparr>;
     (case c of
        Inl err \<Rightarrow> ret (Returns (Fatal (''mkq.NewClient: '' @ err_text err)))
      | Inr client \<Rightarrow> do {
          q \<leftarrow> Define sv (c_keyPrefix client) (fl_queue fl);
          r \<leftarrow> runMode sv ri env pl fl q;
          (if deferred r then do { closeClient sv; ret r } else ret r)
        })
   }"

section \<open>Lemmas\<close>

text \<open>Producing adds as many jobs as it was asked for, or stops at the first error.\<close>

lemma produce_counts:
  assumes m: "marshal_total sv" and d: "sv_marshal_data sv pl = Inr dataJSON"
  shows "does (produce sv q pl i n) (\<lambda>r es. case r of
     None \<Rightarrow> length (calls es) = n \<and>
       counted es = replicate n (CounterAdd MetricJobsAddedTotal 1 [(AttrQueue, q_name q), (AttrJobName, q_name q)])
   | Some (k, e) \<Rightarrow> i \<le> k \<and> k < i + n \<and> length (calls es) = Suc k - i \<and> length (counted es) = k - i)"
proof (induction n arbitrary: i)
  case 0
  then show ?case by (auto intro!: does_return)
next
  case (Suc n)
  have "addGuard (apply_options [] zero_addConfig) (Milliseconds (ac_delay (apply_options [] zero_addConfig))) = None"
    by code_simp
  note add = Add_post [OF refl m d this, of q]
  have nm: "jobNameOf q (apply_options [] zero_addConfig) = q_name q"
    by (simp add: jobNameOf_def) code_simp
  show ?case
    unfolding produce.simps
    by (rule does_bindI, rule does_weaken [OF add], intro does_case_prod does_case_option does_return does_weaken [OF Suc])
      (auto simp: addPost_def nm Let_def split: option.splits)
qed

text \<open>
  The channel is closed once, by the run that completes the number, however many runs there are
  (a job that is delivered again runs again).
\<close>

lemma latencyHandler_step:
  assumes "bs_processed st = int k" "bs_done st \<longleftrightarrow> 0 < n \<and> n \<le> int k" "int k < MaxInt64"
  shows "\<exists>st'. latencyHandler n addedAt jobID now st = Returns st' \<and> bs_processed st' = int (Suc k) \<and>
    (bs_done st' \<longleftrightarrow> 0 < n \<and> n \<le> int (Suc k))"
proof -
  have "wrap64 (int k + 1) = int k + 1" using assms(3) by (intro wrap64_id) (simp add: is_int64_def MaxInt64_def)
  with assms show ?thesis
    by (auto simp: latencyHandler_def consumeHandler_def Let_def split: option.split)
qed

lemma latencyRuns_close_once:
  assumes "bs_processed st = int k" "bs_done st \<longleftrightarrow> 0 < n \<and> n \<le> int k" "int (k + length js) \<le> MaxInt64"
  shows "\<exists>st'. latencyRuns n addedAt js st = Returns st' \<and> bs_processed st' = int (k + length js) \<and>
    (bs_done st' \<longleftrightarrow> 0 < n \<and> n \<le> int (k + length js))"
  using assms
proof (induction js arbitrary: st k)
  case (Cons j js)
  obtain jobID now where j: "j = (jobID, now)" by fastforce
  from latencyHandler_step [OF Cons.prems(1,2)] Cons.prems(3) obtain st' where
    s: "latencyHandler n addedAt jobID now st = Returns st'" "bs_processed st' = int (Suc k)"
      "bs_done st' \<longleftrightarrow> 0 < n \<and> n \<le> int (Suc k)" by fastforce
  from Cons.IH [OF s(2,3)] Cons.prems(3) s(1) j show ?case by simp
qed simp

lemma percentiles_in_range:
  assumes "d \<noteq> []"
  shows "length d * 50 div 100 < length d" "length d * 99 div 100 < length d"
  using assms by (simp_all add: less_mult_imp_div_less)

text \<open>At least \<open>Suc i\<close> elements of a sorted list lie at or below the one at place \<open>i\<close>.\<close>

lemma sorted_rank:
  assumes "sorted xs" "i < length xs"
  shows "Suc i \<le> length (filter (\<lambda>x. x \<le> xs ! i) xs)"
proof -
  have "x \<le> xs ! i" if "x \<in> set (take (Suc i) xs)" for x
    using that assms by (auto simp: in_set_conv_nth less_Suc_eq_le intro: sorted_nth_mono)
  then have "length (filter (\<lambda>x. x \<le> xs ! i) (take (Suc i) xs)) = Suc i"
    using assms(2) by (simp add: filter_id_conv)
  moreover have "filter P xs = filter P (take (Suc i) xs) @ filter P (drop (Suc i) xs)" for P
    by (simp flip: filter_append)
  ultimately show ?thesis by (metis length_append le_add1)
qed

text \<open>The figures are measured values, in order, and at least half of the values lie at or below the first.\<close>

lemma percentiles_sound:
  assumes "d \<noteq> []" "percentiles d = (p50, p99)"
  shows "p50 \<in> set d" "p99 \<in> set d" "p50 \<le> p99" "length d < 2 * length (filter (\<lambda>x. x \<le> p50) d)"
proof -
  let ?i = "length d * 50 div 100" and ?j = "length d * 99 div 100"
  have p: "p50 = sort d ! ?i" "p99 = sort d ! ?j" using assms by (simp_all add: percentiles_def Let_def)
  have "sort d ! ?i \<in> set (sort d)" "sort d ! ?j \<in> set (sort d)"
    using percentiles_in_range [OF assms(1)] by (intro nth_mem; simp)+
  then show "p50 \<in> set d" "p99 \<in> set d" by (simp_all add: p)
  show "p50 \<le> p99"
    unfolding p by (intro sorted_nth_mono) (use percentiles_in_range [OF assms(1)] in \<open>auto intro: div_le_mono\<close>)
  have "Suc ?i \<le> length (filter (\<lambda>x. x \<le> p50) (sort d))"
    unfolding p by (rule sorted_rank) (use percentiles_in_range(1) [OF assms(1)] in simp_all)
  also have "\<dots> = length (filter (\<lambda>x. x \<le> p50) d)" by (metis filter_sort length_sort)
  finally show "length d < 2 * length (filter (\<lambda>x. x \<le> p50) d)" by linarith
qed

text \<open>A mode that gets past its select has seen as many runs as it was asked for.\<close>

lemma awaitDone_sound:
  assumes "latencyRuns n addedAt runs benchStart = Returns st" "awaitDone mode n st ctxCase = None"
    "int (length runs) \<le> MaxInt64"
  shows "0 < n" "n \<le> int (length runs)"
proof -
  from latencyRuns_close_once [of benchStart 0 n runs addedAt] assms(1,3)
  have "bs_done st \<longleftrightarrow> 0 < n \<and> n \<le> int (length runs)" by (auto simp: benchStart_def)
  with assms(2) show "0 < n" "n \<le> int (length runs)" by (auto simp: awaitDone_def split: if_splits)
qed

text \<open>The report of the producer is written, with its rate, unless no time has passed at all.\<close>

lemma rate_finite: "Seconds elapsed \<noteq> 0 \<Longrightarrow> rate n elapsed = VFloat (fl64 (fl64 (of_int n) / Seconds elapsed))"
  by (simp add: rate_def fdiv_def)

lemma fl64_pos: "0 < x \<Longrightarrow> 0 < fl64 x"
  by (rule less_le_trans [OF _ fl64_lower]) simp_all

lemma produce_report:
  assumes "Seconds elapsed \<noteq> 0"
  shows "\<exists>m. emitReport (addRuntime ms [(''side'', VStr ''mkq''), (''mode'', VStr ''produce''), (''jobs'', VInt n),
      (''ms'', VInt (Milliseconds elapsed)), (''perSec'', rate n elapsed)]) = Reported m \<and>
    map_of m ''jobs'' = Some (VInt n) \<and> map_of m ''perSec'' = Some (VFloat (fl64 (fl64 (of_int n) / Seconds elapsed)))"
  using assms fl64_pos [of "of_int n"] by (auto simp: emitReport_def addRuntime_def Let_def rate_finite fdiv_def)

end
