(* ===== verification/Inspector.thy ===== *)
theory Inspector
  imports Queue_Add
begin

text \<open>
  Reading a queue from the outside: \<open>Counts\<close> (\<open>inspector.go\<close>), \<open>ListJobs\<close>
  (\<open>inspector_list.go\<close>) and \<open>IsPaused\<close> (\<open>inspector_admin.go\<close>).  The two readers have to agree on
  what the paused bucket is: the legacy list when it holds jobs, the waiting jobs while the queue is
  paused, and nothing otherwise.  Error texts that embed a Go type name are given without it.
\<close>

section \<open>Buckets\<close>

type_synonym JobBucket = string

definition JobBucketWait :: JobBucket where "JobBucketWait = ''wait''"
definition JobBucketActive :: JobBucket where "JobBucketActive = ''active''"
definition JobBucketDelayed :: JobBucket where "JobBucketDelayed = ''delayed''"
definition JobBucketPrioritized :: JobBucket where "JobBucketPrioritized = ''prioritized''"
definition JobBucketCompleted :: JobBucket where "JobBucketCompleted = ''completed''"
definition JobBucketFailed :: JobBucket where "JobBucketFailed = ''failed''"
definition JobBucketPaused :: JobBucket where "JobBucketPaused = ''paused''"

lemmas bucket_defs = JobBucketWait_def JobBucketActive_def JobBucketDelayed_def JobBucketPrioritized_def
  JobBucketCompleted_def JobBucketFailed_def JobBucketPaused_def

definition allBuckets :: "JobBucket list" where
  "allBuckets = [JobBucketWait, JobBucketActive, JobBucketDelayed, JobBucketPrioritized, JobBucketCompleted,
     JobBucketFailed, JobBucketPaused]"

record QueueCounts =
  qc_Wait :: int
  qc_Active :: int
  qc_Delayed :: int
  qc_Prioritized :: int
  qc_Completed :: int
  qc_Failed :: int
  qc_Paused :: int

definition zero_QueueCounts :: QueueCounts where
  "zero_QueueCounts = \<lparr>qc_Wait = 0, qc_Active = 0, qc_Delayed = 0, qc_Prioritized = 0, qc_Completed = 0,
     qc_Failed = 0, qc_Paused = 0\<rparr>"

definition containsBucket :: "JobBucket list \<Rightarrow> JobBucket \<Rightarrow> bool" where
  "containsBucket buckets want = list_ex (\<lambda>b. b = want) buckets"

definition assignBucket :: "QueueCounts \<Rightarrow> JobBucket \<Rightarrow> int \<Rightarrow> QueueCounts" where
  "assignBucket c b n =
     (if b = JobBucketWait then c\<lparr>qc_Wait := n\<rparr>
      else if b = JobBucketActive then c\<lparr>qc_Active := n\<rparr>
      else if b = JobBucketDelayed then c\<lparr>qc_Delayed := n\<rparr>
      else if b = JobBucketPrioritized then c\<lparr>qc_Prioritized := n\<rparr>
      else if b = JobBucketCompleted then c\<lparr>qc_Completed := n\<rparr>
      else if b = JobBucketFailed then c\<lparr>qc_Failed := n\<rparr>
      else if b = JobBucketPaused then c\<lparr>qc_Paused := n\<rparr>
      else c)"

section \<open>Counts\<close>

definition IsPaused :: "('s, 't) services \<Rightarrow> Queue \<Rightarrow> ('s, goerr + bool) act" where
  "IsPaused sv q = do {
     r \<leftarrow> redis sv (HExists CallerCtx (Meta (q_keys q)) ''paused'');
     ret (case r of Inl err \<Rightarrow> Inl (errorf ''mkq: isPaused: '' err) | Inr v \<Rightarrow> Inr (v = GInt64 1))
   }"

text \<open>The buckets sent: the waiting ones too when the paused ones are asked for.\<close>

definition countsQuery :: "JobBucket list \<Rightarrow> JobBucket list" where
  "countsQuery buckets =
     (if containsBucket buckets JobBucketPaused \<and> \<not> containsBucket buckets JobBucketWait
      then buckets @ [JobBucketWait] else buckets)"

text \<open>The loop over the reply: the counts so far and the number of waiting jobs.\<close>

fun countsLoop :: "bool \<Rightarrow> JobBucket list \<Rightarrow> gval list \<Rightarrow> QueueCounts \<times> int \<Rightarrow> QueueCounts \<times> int" where
  "countsLoop wantWait (b # bs) (raw # raws) (out, waitCount) =
     (let n = fst (toInt64 raw)
      in if b = JobBucketWait then
           countsLoop wantWait bs raws (if wantWait then assignBucket out b n else out, n)
         else countsLoop wantWait bs raws (assignBucket out b n, waitCount))"
| "countsLoop wantWait _ _ acc = acc"

text \<open>The end of \<open>Counts\<close>: the paused bucket without a legacy list.\<close>

definition pausedCount :: "('s, 't) services \<Rightarrow> Queue \<Rightarrow> bool \<Rightarrow> QueueCounts \<times> int \<Rightarrow> ('s, goerr + QueueCounts) act" where
  "pausedCount sv q wantPaused acc =
     (if wantPaused \<and> qc_Paused (fst acc) = 0 then do {
        paused \<leftarrow> IsPaused sv q;
        ret (case paused of
            Inl err \<Rightarrow> Inl err
          | Inr p \<Rightarrow> Inr (if p then (fst acc)\<lparr>qc_Paused := snd acc\<rparr> else fst acc))
      }
      else ret (Inr (fst acc)))"

definition Counts :: "('s, 't) services \<Rightarrow> Queue \<Rightarrow> JobBucket list \<Rightarrow> ('s, goerr + QueueCounts) act" where
  "Counts sv q buckets =
     (let buckets = (if buckets = [] then allBuckets else buckets);
          wantPaused = containsBucket buckets JobBucketPaused;
          wantWait = containsBucket buckets JobBucketWait;
          query = countsQuery buckets
      in do {
        r \<leftarrow> Run sv CallerCtx GetCounts [Base (q_keys q)] (map GStr query);
        (case r of
           Inl err \<Rightarrow> ret (Inl (errorf ''mkq: getCounts: '' err))
         | Inr res \<Rightarrow> (case res of
             GArr arr \<Rightarrow>
               if length arr \<noteq> length query then
                 ret (Inl (PlainErr (''mkq: getCounts: result length '' @ fmt_nat (length arr) @ '' != buckets '' @
                   fmt_nat (length query))))
               else pausedCount sv q wantPaused (countsLoop wantWait query arr (zero_QueueCounts, 0))
           | _ \<Rightarrow> ret (Inl (PlainErr ''mkq: getCounts: unexpected result type''))))
      })"

section \<open>ListJobs\<close>

record 't ListedJob =
  lj_Job :: "'t Job"
  lj_State :: JobState

definition isListBucket :: "JobBucket \<Rightarrow> bool" where
  "isListBucket b \<longleftrightarrow> b = JobBucketWait \<or> b = JobBucketPaused \<or> b = JobBucketActive"

fun stringElems :: "nat \<Rightarrow> gval list \<Rightarrow> goerr + string list" where
  "stringElems i [] = Inr []"
| "stringElems i (GStr s # r) = (case stringElems (Suc i) r of Inl e \<Rightarrow> Inl e | Inr ss \<Rightarrow> Inr (s # ss))"
| "stringElems i (v # r) = Inl (PlainErr (''element '' @ fmt_nat i @ '' not a string''))"

definition toStringSlice :: "gval \<Rightarrow> goerr + string list" where
  "toStringSlice v = (case v of
       GNil \<Rightarrow> Inr []
     | GArr arr \<Rightarrow> stringElems 0 arr
     | _ \<Rightarrow> Inl (PlainErr ''expected []any''))"

text \<open>The loop of \<open>fetchJobs\<close> over the commands' results, from index \<open>i\<close> on.\<close>

fun listedFrom ::
  "('s, 't) services \<Rightarrow> goerr + gval \<Rightarrow> nat \<Rightarrow> string list \<Rightarrow> goerr + 't ListedJob list" where
  "listedFrom sv r i [] = Inr []"
| "listedFrom sv r i (jobID # ids) =
     (let rest = listedFrom sv r (Suc i) ids
      in case cmdResult r i of
           Inl err \<Rightarrow> if err = RedisNil then rest else Inl (errorf (''mkq: HGetAll '' @ jobID @ '': '') err)
         | Inr v \<Rightarrow>
             (case (case v of GArr arr \<Rightarrow> flatHashToMap arr | _ \<Rightarrow> Inr []) of
                Inl err \<Rightarrow> Inl (errorf (''mkq: HGetAll '' @ jobID @ '': '') err)
              | Inr hash \<Rightarrow>
                  if hash = [] then rest
                  else (case buildJob (sv_zero sv) (sv_unmarshal sv) jobID hash of
                      Inl err \<Rightarrow> Inl (errorf (''mkq: buildJob '' @ jobID @ '': '') err)
                    | Inr job \<Rightarrow> (case rest of
                        Inl e \<Rightarrow> Inl e
                      | Inr js \<Rightarrow> Inr (\<lparr>lj_Job = job, lj_State = buildJobState hash\<rparr> # js)))))"

definition fetchJobs :: "('s, 't) services \<Rightarrow> Queue \<Rightarrow> string list \<Rightarrow> ('s, goerr + 't ListedJob list) act" where
  "fetchJobs sv q ids = do {
     r \<leftarrow> redis sv (Pipeline (map (\<lambda>i. HGetAll CallerCtx (JobKey (q_keys q) i)) ids));
     ret (case execErr r of
         Some err \<Rightarrow> if err = RedisNil then listedFrom sv r 0 ids else Inl (errorf ''mkq: pipeline HGetAll: '' err)
       | None \<Rightarrow> listedFrom sv r 0 ids)
   }"

text \<open>
  Which bucket is read: \<open>None\<close> stands for the empty listing of a queue that is not paused.
\<close>

definition listSource :: "('s, 't) services \<Rightarrow> Queue \<Rightarrow> JobBucket \<Rightarrow> ('s, goerr + JobBucket option) act" where
  "listSource sv q bucket =
     (if bucket \<noteq> JobBucketPaused then ret (Inr (Some bucket))
      else do {
        r \<leftarrow> redis sv (LLen CallerCtx (Paused (q_keys q)));
        (case r of
           Inl err \<Rightarrow> ret (Inl (errorf ''mkq: LLEN paused: '' err))
         | Inr legacy \<Rightarrow>
             if fst (toInt64 legacy) \<noteq> 0 then ret (Inr (Some bucket))
             else do {
               p \<leftarrow> IsPaused sv q;
               ret (case p of
                   Inl err \<Rightarrow> Inl err
                 | Inr paused \<Rightarrow> Inr (if paused then Some JobBucketWait else None))
             })
      })"

definition listRange ::
  "('s, 't) services \<Rightarrow> Queue \<Rightarrow> JobBucket \<Rightarrow> int \<Rightarrow> int \<Rightarrow> bool \<Rightarrow> ('s, goerr + 't ListedJob list) act" where
  "listRange sv q source start stop ascending = do {
     r \<leftarrow> Run sv CallerCtx GetRanges [Base (q_keys q)]
       [GStr (FormatInt start), GStr (FormatInt stop), GStr (if ascending then ''1'' else ''0''), GStr source];
     (case r of
        Inl err \<Rightarrow> ret (Inl (errorf ''mkq: getRanges: '' err))
      | Inr res \<Rightarrow> (case res of
          GArr outer \<Rightarrow>
            if outer = [] then ret (Inr [])
            else (case toStringSlice (outer ! 0) of
                Inl err \<Rightarrow> ret (Inl (errorf ''mkq: getRanges: '' err))
              | Inr ids \<Rightarrow>
                  if ids = [] then ret (Inr [])
                  else fetchJobs sv q (if ascending \<and> isListBucket source then rev ids else ids))
        | _ \<Rightarrow> ret (Inl (PlainErr ''mkq: getRanges: unexpected result type''))))
   }"

definition ListJobs ::
  "('s, 't) services \<Rightarrow> Queue \<Rightarrow> JobBucket \<Rightarrow> int \<Rightarrow> int \<Rightarrow> bool \<Rightarrow> ('s, goerr + 't ListedJob list) act" where
  "ListJobs sv q bucket start stop ascending = do {
     src \<leftarrow> listSource sv q bucket;
     (case src of
        Inl err \<Rightarrow> ret (Inl err)
      | Inr None \<Rightarrow> ret (Inr [])
      | Inr (Some source) \<Rightarrow> listRange sv q source start stop ascending)
   }"

section \<open>Lemmas\<close>

fun bucketCount :: "QueueCounts \<Rightarrow> JobBucket \<Rightarrow> int" where
  "bucketCount c b =
     (if b = JobBucketWait then qc_Wait c else if b = JobBucketActive then qc_Active c
      else if b = JobBucketDelayed then qc_Delayed c else if b = JobBucketPrioritized then qc_Prioritized c
      else if b = JobBucketCompleted then qc_Completed c else if b = JobBucketFailed then qc_Failed c
      else if b = JobBucketPaused then qc_Paused c else 0)"

declare bucketCount.simps [simp del]

text \<open>A bucket name that is none of the known ones is ignored.\<close>

lemma bucketCount_assign:
  "b' \<in> set allBuckets \<Longrightarrow> bucketCount (assignBucket c b n) b' = (if b' = b then n else bucketCount c b')"
  unfolding allBuckets_def by (auto simp: bucketCount.simps assignBucket_def bucket_defs)

lemma bucketCount_zero [simp]: "bucketCount zero_QueueCounts b = 0" "qc_Wait zero_QueueCounts = 0"
  by (simp_all add: bucketCount.simps zero_QueueCounts_def)

text \<open>The number the reply gives for a bucket, or the default when it was not asked for.\<close>

fun replyCount :: "JobBucket list \<Rightarrow> gval list \<Rightarrow> JobBucket \<Rightarrow> int \<Rightarrow> int" where
  "replyCount (q # qs) (raw # raws) b d = replyCount qs raws b (if q = b then fst (toInt64 raw) else d)"
| "replyCount _ _ b d = d"

lemma countsLoop_reply:
  assumes "b \<in> set allBuckets"
  shows "bucketCount (fst (countsLoop wantWait query arr (out, wc))) b =
      (if b = JobBucketWait \<and> \<not> wantWait then bucketCount out b else replyCount query arr b (bucketCount out b)) \<and>
    snd (countsLoop wantWait query arr (out, wc)) = replyCount query arr JobBucketWait wc"
  using assms
proof (induction wantWait query arr "(out, wc)" arbitrary: out wc rule: countsLoop.induct)
  case (1 wantWait q qs raw raws out wc)
  then show ?case by (auto simp: Let_def bucketCount_assign)
qed auto

lemma replyCount_unasked: "b \<notin> set qs \<Longrightarrow> replyCount qs arr b d = d"
  by (induction qs arr b d rule: replyCount.induct) auto

lemma containsBucket_iff: "containsBucket buckets x \<longleftrightarrow> x \<in> set buckets"
  by (auto simp: containsBucket_def list_ex_iff)

lemma does_IsPaused:
  assumes "\<And>rep. Q (case rep of Inl err \<Rightarrow> Inl (errorf ''mkq: isPaused: '' err) | Inr v \<Rightarrow> Inr (v = GInt64 1))
     [Cmd (HExists CallerCtx (Meta (q_keys q)) ''paused'') rep]"
  shows "does (IsPaused sv q) Q"
  unfolding IsPaused_def using assms by (intro does_rules) simp

text \<open>
  The specification of \<open>Counts\<close>.  \<open>askedFor\<close> are the buckets the caller means, \<open>reported\<close> what the
  counts have to be for a reply \<open>arr\<close> to the names \<open>args\<close>, once it is known whether the queue is paused:
  every field is the number of its own bucket, zero when the caller did not ask for it, and the
  paused one is the number of waiting jobs of a paused queue without a legacy list.
\<close>

definition askedFor :: "JobBucket list \<Rightarrow> JobBucket list" where
  "askedFor buckets =
     (if buckets = [] then [''wait'', ''active'', ''delayed'', ''prioritized'', ''completed'', ''failed'', ''paused''] else buckets)"

definition reported :: "JobBucket list \<Rightarrow> string list \<Rightarrow> gval list \<Rightarrow> bool \<Rightarrow> QueueCounts \<Rightarrow> bool" where
  "reported asked args arr paused out \<longleftrightarrow>
     (let num = (\<lambda>b. if b \<in> set asked then replyCount args arr b 0 else 0) in
      qc_Wait out = num ''wait'' \<and> qc_Active out = num ''active'' \<and> qc_Delayed out = num ''delayed'' \<and>
      qc_Prioritized out = num ''prioritized'' \<and> qc_Completed out = num ''completed'' \<and> qc_Failed out = num ''failed'' \<and>
      qc_Paused out = (if ''paused'' \<in> set asked \<and> num ''paused'' = 0 \<and> paused then replyCount args arr ''wait'' 0 else num ''paused''))"

text \<open>What follows an array of the right length: the pause question when it is needed, and the result.\<close>

definition countsAnswer ::
  "Queue \<Rightarrow> JobBucket list \<Rightarrow> string list \<Rightarrow> gval list \<Rightarrow> goerr + QueueCounts \<Rightarrow> event list \<Rightarrow> bool" where
  "countsAnswer q asked args arr r es \<longleftrightarrow>
     (if ''paused'' \<in> set asked \<and> replyCount args arr ''paused'' 0 = 0 then
        \<exists>rep. es = [Cmd (HExists CallerCtx (Meta (q_keys q)) ''paused'') rep] \<and>
          (case rep of
             Inl e \<Rightarrow> r = Inl (errorf ''mkq: isPaused: '' e)
           | Inr v \<Rightarrow> \<exists>out. r = Inr out \<and> reported asked args arr (v = GInt64 1) out)
      else es = [] \<and> (\<exists>out. r = Inr out \<and> reported asked args arr False out))"

text \<open>
  One call, for the buckets asked for in their order and for nothing else but the waiting jobs that
  the paused bucket needs; the failures of the call, and a reply of another shape, are errors.
\<close>

definition countsPost :: "Queue \<Rightarrow> JobBucket list \<Rightarrow> goerr + QueueCounts \<Rightarrow> event list \<Rightarrow> bool" where
  "countsPost q asked r es \<longleftrightarrow>
     (\<exists>args rep es1 es2. es = es1 @ es2 \<and>
        calls es1 = [ScriptCall CallerCtx ''getCounts-1'' [Base (q_keys q)] (map GStr args)] \<and>
        take (length asked) args = asked \<and>
        set args = set asked \<union> (if ''paused'' \<in> set asked then {''wait''} else {}) \<and>
        replies es1 = [(''getCounts-1'', rep)] \<and>
        (case rep of
           Inl e \<Rightarrow> r = Inl (errorf ''mkq: getCounts: '' e) \<and> es2 = []
         | Inr (GArr arr) \<Rightarrow>
             if length arr = length args then countsAnswer q asked args arr r es2 else isl r \<and> es2 = []
         | Inr _ \<Rightarrow> isl r \<and> es2 = []))"

lemma countsQuery_asked:
  "take (length asked) (countsQuery asked) = asked"
  "set (countsQuery asked) = set asked \<union> (if ''paused'' \<in> set asked then {''wait''} else {})"
  by (auto simp: countsQuery_def containsBucket_iff bucket_defs)

text \<open>The counts after the loop over the reply.\<close>

lemma countsLoop_fields:
  fixes asked :: "JobBucket list" and arr :: "gval list"
  defines "out \<equiv> fst (countsLoop (containsBucket asked JobBucketWait) (countsQuery asked) arr (zero_QueueCounts, 0))"
  shows "\<not> paused \<or> ''paused'' \<notin> set asked \<or> qc_Paused out \<noteq> 0 \<Longrightarrow> reported asked (countsQuery asked) arr paused out"
    "''paused'' \<in> set asked \<Longrightarrow> qc_Paused out = 0 \<Longrightarrow>
       reported asked (countsQuery asked) arr True (out\<lparr>qc_Paused := replyCount (countsQuery asked) arr ''wait'' 0\<rparr>)"
    "''paused'' \<in> set asked \<Longrightarrow> qc_Paused out = replyCount (countsQuery asked) arr ''paused'' 0"
proof -
  have c: "bucketCount out b = (if b \<in> set asked then replyCount (countsQuery asked) arr b 0 else 0)"
    if "b \<in> set allBuckets" for b
    using countsLoop_reply [OF that, of "containsBucket asked JobBucketWait" "countsQuery asked" arr zero_QueueCounts 0]
      countsQuery_asked(2) [of asked] replyCount_unasked [of b "countsQuery asked" arr 0]
    by (auto simp: out_def containsBucket_iff bucket_defs split: if_splits)
  note f = c [of "''wait''"] c [of "''active''"] c [of "''delayed''"] c [of "''prioritized''"] c [of "''completed''"]
    c [of "''failed''"] c [of "''paused''"]
  show "\<not> paused \<or> ''paused'' \<notin> set asked \<or> qc_Paused out \<noteq> 0 \<Longrightarrow> reported asked (countsQuery asked) arr paused out"
    "''paused'' \<in> set asked \<Longrightarrow> qc_Paused out = 0 \<Longrightarrow>
       reported asked (countsQuery asked) arr True (out\<lparr>qc_Paused := replyCount (countsQuery asked) arr ''wait'' 0\<rparr>)"
    "''paused'' \<in> set asked \<Longrightarrow> qc_Paused out = replyCount (countsQuery asked) arr ''paused'' 0"
    using f by (auto simp: reported_def Let_def bucketCount.simps bucket_defs allBuckets_def split: if_splits)
qed

lemma countsLoop_wait: "snd (countsLoop b qs arr (out, wc)) = replyCount qs arr ''wait'' wc"
  using countsLoop_reply [of JobBucketWait] by (simp add: allBuckets_def JobBucketWait_def)

lemma does_pausedCount:
  "does (pausedCount sv q (containsBucket asked JobBucketPaused)
       (countsLoop (containsBucket asked JobBucketWait) (countsQuery asked) arr (zero_QueueCounts, 0)))
     (countsAnswer q asked (countsQuery asked) arr)"
  using countsLoop_fields [where asked = asked and arr = arr] unfolding pausedCount_def
  by (intro does_if does_bindI does_IsPaused does_return)
    (auto simp: countsAnswer_def containsBucket_iff bucket_defs countsLoop_wait split: sum.splits)

lemma does_case_array:
  assumes "\<And>arr. v = GArr arr \<Longrightarrow> does (f arr) Q" "(\<And>arr. v \<noteq> GArr arr) \<Longrightarrow> Q (Inl e) []"
  shows "does (case v of GArr arr \<Rightarrow> f arr | _ \<Rightarrow> ret (Inl e)) Q"
  using assms by (cases v) (auto intro!: does_return)

section \<open>Properties\<close>

text \<open>
  C26: \<open>Counts\<close> makes one call of \<open>getCounts\<close>, with the buckets the caller asked for in their order (all
  seven when it named none) and the waiting one besides exactly when the paused one is asked for and
  the waiting one is not.  A reply with one number per name is reported field by field: the number
  of its own bucket, zero for a bucket nobody asked for, also for the waiting one added behind the
  caller's back; the paused bucket is the legacy list's length when that is not zero, else the
  number of waiting jobs when the HEXISTS that is then sent says that the queue is paused, else
  zero.  A failed call, a reply of another shape or length, and a failed HEXISTS are returned as
  errors.
\<close>

theorem Counts_reports_reply: "does (Counts sv q buckets) (countsPost q (askedFor buckets))"
proof -
  have asked: "(if buckets = [] then allBuckets else buckets) = askedFor buckets"
    by (simp add: askedFor_def allBuckets_def bucket_defs)
  have run: "does (Run sv CallerCtx GetCounts [Base (q_keys q)] (map GStr (countsQuery (askedFor buckets)))) (\<lambda>r es.
      replies es = [(''getCounts-1'', r)] \<and>
      calls es = [ScriptCall CallerCtx ''getCounts-1'' [Base (q_keys q)] (map GStr (countsQuery (askedFor buckets)))])"
    by (rule does_Run) (metis GetCounts_def calls.simps(1,2) calls_obs)
  have post: "countsPost q (askedFor buckets) r (es @ es2)"
    if "replies es = [(''getCounts-1'', rep)] \<and>
      calls es = [ScriptCall CallerCtx ''getCounts-1'' [Base (q_keys q)] (map GStr (countsQuery (askedFor buckets)))]"
      "case rep of Inl e \<Rightarrow> r = Inl (errorf ''mkq: getCounts: '' e) \<and> es2 = []
       | Inr (GArr arr) \<Rightarrow>
           if length arr = length (countsQuery (askedFor buckets))
           then countsAnswer q (askedFor buckets) (countsQuery (askedFor buckets)) arr r es2 else isl r \<and> es2 = []
       | Inr _ \<Rightarrow> isl r \<and> es2 = []" for rep r es es2
    unfolding countsPost_def using that countsQuery_asked by blast
  show ?thesis
    unfolding Counts_def asked Let_def
    by (intro does_bindI does_weaken [OF run] does_case_sum does_return does_case_array does_if
        does_weaken [OF does_pausedCount] post) (assumption | simp split: gval.splits)+
qed

text \<open>
  C27: A listing keeps the order of the ids it was made for: the jobs returned are, in order, those
  whose hash the pipeline found, each under its own id; ids whose hash is gone are skipped, and no
  other id is lost or repeated.
\<close>

theorem listing_keeps_order:
  assumes "listedFrom sv (Inr (GArr (map (\<lambda>h. GArr (hgetall_reply h)) hs))) 0 ids = Inr js" "length hs = length ids"
    "list_all (\<lambda>h. distinct (map fst h)) hs"
  shows "map (\<lambda>j. j_ID (lj_Job j)) js = map fst (filter (\<lambda>(i, h). h \<noteq> []) (zip ids hs)) \<and>
    map lj_State js = map (\<lambda>(i, h). buildJobState h) (filter (\<lambda>(i, h). h \<noteq> []) (zip ids hs))"
proof -
  have cmd: "cmdResult (Inr (GArr (map (\<lambda>h. GArr (hgetall_reply h)) hs'))) i = Inr (GArr (hgetall_reply (hs' ! i)))"
    if "i < length hs'" for i hs'
    using that by (simp add: cmdResult_def)
  have bid: "buildJob (sv_zero sv) (sv_unmarshal sv) jid h = Inr job \<Longrightarrow> j_ID job = jid" for jid h job
    by (auto simp: buildJob_def Let_def split: if_splits sum.splits)
  have gen: "map (\<lambda>j. j_ID (lj_Job j)) js = map fst (filter (\<lambda>(i, h). h \<noteq> []) (zip ids (drop n hs))) \<and>
      map lj_State js = map (\<lambda>(i, h). buildJobState h) (filter (\<lambda>(i, h). h \<noteq> []) (zip ids (drop n hs)))"
    if "listedFrom sv (Inr (GArr (map (\<lambda>h. GArr (hgetall_reply h)) hs))) n ids = Inr js" "length hs = n + length ids"
    for n js ids
    using that
  proof (induction ids arbitrary: n js)
    case (Cons jid ids)
    have n: "n < length hs" and d: "drop n hs = hs ! n # drop (Suc n) hs"
      using Cons.prems(2) by (auto simp: Cons_nth_drop_Suc)
    have fh: "flatHashToMap (hgetall_reply (hs ! n)) = Inr (hs ! n)"
      using assms(3) n by (intro flatHashToMap_hgetall) (simp add: list_all_length)
    show ?case
    proof (cases "hs ! n = []")
      case True
      with Cons n cmd [OF n] fh d show ?thesis by simp
    next
      case False
      with Cons.prems(1) n cmd [OF n] fh obtain job js' where
        j: "buildJob (sv_zero sv) (sv_unmarshal sv) jid (hs ! n) = Inr job"
        "listedFrom sv (Inr (GArr (map (\<lambda>h. GArr (hgetall_reply h)) hs))) (Suc n) ids = Inr js'"
        "js = \<lparr>lj_Job = job, lj_State = buildJobState (hs ! n)\<rparr> # js'"
        by (auto simp: Let_def split: sum.splits)
      with Cons.IH [of "Suc n" js'] Cons.prems(2) False d bid [OF j(1)] show ?thesis by simp
    qed
  qed simp
  from gen [of 0 ids js] assms(1,2) show ?thesis by simp
qed

end
