(* ===== verification/Admin.thy ===== *)
theory Admin
  imports Inspector Dispatcher
begin

text \<open>
  Changing a queue and its jobs from the outside: removal, draining, promotion, retry, pause and
  resume (\<open>inspector_admin.go\<close>), progress, data and log of a job (\<open>job_mutation.go\<close>) and the
  per-minute metrics (\<open>queue_metrics.go\<close>).  Every operation is one script call (\<open>Resume\<close> repeats
  it) whose integer reply is classified.  A nil error is \<open>None\<close>; error texts that embed a Go type
  name are given without it.
\<close>

section \<open>One script call with an integer reply\<close>

text \<open>
  The shape \<open>RemoveJob\<close>, \<open>PromoteJob\<close> and \<open>RetryJob\<close> share: wrap a failed call, refuse a reply
  that is not an integer, and classify the code.
\<close>

definition codeReply :: "string \<Rightarrow> (int \<Rightarrow> goerr option) \<Rightarrow> goerr + gval \<Rightarrow> goerr option" where
  "codeReply script classify r = (case r of
       Inl err \<Rightarrow> Some (errorf (''mkq: '' @ script @ '': '') err)
     | Inr (GInt64 code) \<Rightarrow> classify code
     | Inr _ \<Rightarrow> Some (PlainErr (''mkq: '' @ script @ '': unexpected result type'')))"

definition unknownCode :: "string \<Rightarrow> int \<Rightarrow> goerr" where
  "unknownCode script code = PlainErr (''mkq: '' @ script @ '' returned error code '' @ FormatInt code)"

definition emptyJobID :: goerr where
  "emptyJobID = PlainErr ''mkq: jobID must be non-empty''"

section \<open>RemoveJob\<close>

definition removeCode :: "int \<Rightarrow> goerr option" where
  "removeCode code =
     (if code = 1 then None
      else if code = 0 then Some (Sentinel ErrJobActive)
      else if code = -8 then Some (Sentinel ErrJobIsScheduler)
      else Some (unknownCode ''removeJob'' code))"

definition RemoveJob :: "('s, 't) services \<Rightarrow> Queue \<Rightarrow> string \<Rightarrow> ('s, goerr option) act" where
  "RemoveJob sv q jobID =
     (if jobID = [] then ret (Some emptyJobID)
      else do {
        r \<leftarrow> Run sv CallerCtx Scripts.RemoveJob [JobKey (q_keys q) jobID, Repeat (q_keys q)]
          [GStr jobID, GStr ''0'', GStr (Base (q_keys q))];
        ret (codeReply ''removeJob'' removeCode r)
      })"

section \<open>DrainPending\<close>

record drainConfig =
  dc_includeDelayed :: bool

type_synonym DrainOption = "drainConfig \<Rightarrow> drainConfig"

definition WithDrainDelayed :: "bool \<Rightarrow> DrainOption" where
  "WithDrainDelayed b c = c\<lparr>dc_includeDelayed := b\<rparr>"

definition DrainPending :: "('s, 't) services \<Rightarrow> Queue \<Rightarrow> DrainOption list \<Rightarrow> ('s, goerr option) act" where
  "DrainPending sv q opts =
     (let cfg = apply_options opts \<lparr>dc_includeDelayed = False\<rparr>;
          delayedFlag = (if dc_includeDelayed cfg then ''1'' else ''0''); k = q_keys q
      in do {
        r \<leftarrow> Run sv CallerCtx Scripts.Drain [Wait k, Paused k, Delayed k, Prioritized k, Repeat k]
          [GStr (Base k), GStr delayedFlag];
        ret (case r of
            Inl err \<Rightarrow> if errors_Is err RedisNil then None else Some (errorf ''mkq: drain: '' err)
          | Inr _ \<Rightarrow> None)
      })"

section \<open>PromoteJob\<close>

definition promoteCode :: "int \<Rightarrow> goerr option" where
  "promoteCode code =
     (if code = 0 then None
      else if code = -3 then Some (Sentinel ErrJobNotInDelayed)
      else Some (unknownCode ''promote'' code))"

definition PromoteJob :: "('s, 't) services \<Rightarrow> Queue \<Rightarrow> string \<Rightarrow> ('s, goerr option) act" where
  "PromoteJob sv q jobID =
     (if jobID = [] then ret (Some emptyJobID)
      else let k = q_keys q in do {
        r \<leftarrow> Run sv CallerCtx Promote
          [Delayed k, Wait k, Paused k, Meta k, Prioritized k, Active k, PriorityCounter k, Events k, Marker k]
          [GStr (Base k), GStr jobID];
        ret (codeReply ''promote'' promoteCode r)
      })"

section \<open>RetryJob\<close>

record retryConfig =
  rc_fromState :: JobBucket
  rc_resetAtm :: bool
  rc_resetAts :: bool

type_synonym RetryOption = "retryConfig \<Rightarrow> retryConfig"

definition default_retryConfig :: retryConfig where
  "default_retryConfig = \<lparr>rc_fromState = JobBucketFailed, rc_resetAtm = True, rc_resetAts = True\<rparr>"

definition WithRetryFromState :: "JobBucket \<Rightarrow> RetryOption" where
  "WithRetryFromState state c = c\<lparr>rc_fromState := state\<rparr>"

definition WithResetAttempts :: "bool \<Rightarrow> RetryOption" where
  "WithResetAttempts reset c = c\<lparr>rc_resetAtm := reset, rc_resetAts := reset\<rparr>"

text \<open>The state's key, the field that is cleared and the name of the previous state.\<close>

definition retrySource :: "Queue \<Rightarrow> JobBucket \<Rightarrow> (string \<times> string \<times> string) option" where
  "retrySource q state =
     (if state = JobBucketFailed then Some (Failed (q_keys q), ''failedReason'', ''failed'')
      else if state = JobBucketCompleted then Some (Completed (q_keys q), ''returnvalue'', ''completed'')
      else None)"

definition reprocessCode :: "int \<Rightarrow> goerr option" where
  "reprocessCode code =
     (if code = 1 then None
      else if code = -1 then Some (Sentinel ErrJobNotFound)
      else if code = -3 then Some (Sentinel ErrJobNotInExpectedState)
      else Some (unknownCode ''reprocessJob'' code))"

definition flag01 :: "bool \<Rightarrow> string" where
  "flag01 b = (if b then ''1'' else ''0'')"

definition RetryJob :: "('s, 't) services \<Rightarrow> Queue \<Rightarrow> string \<Rightarrow> RetryOption list \<Rightarrow> ('s, goerr option) act" where
  "RetryJob sv q jobID opts =
     (if jobID = [] then ret (Some emptyJobID)
      else let cfg = apply_options opts default_retryConfig; k = q_keys q in
        case retrySource q (rc_fromState cfg) of
          None \<Rightarrow> ret (Some (PlainErr (''mkq: RetryJob source state '' @ quoted (rc_fromState cfg) @
            '' must be JobBucketFailed or JobBucketCompleted'')))
        | Some (stateKey, propVal, prevState) \<Rightarrow> do {
            r \<leftarrow> Run sv CallerCtx ReprocessJob
              [JobKey k jobID, Events k, stateKey, Wait k, Meta k, Active k, Marker k, Prioritized k, PriorityCounter k]
              [GStr jobID, GStr ''LPUSH'', GStr propVal, GStr prevState, GStr (flag01 (rc_resetAtm cfg)),
               GStr (flag01 (rc_resetAts cfg))];
            ret (codeReply ''reprocessJob'' reprocessCode r)
          })"

section \<open>Pause and resume\<close>

definition legacyDrainRounds :: nat where
  "legacyDrainRounds = 100"

definition runPauseScript ::
  "('s, 't) services \<Rightarrow> Queue \<Rightarrow> string \<Rightarrow> string \<Rightarrow> string \<Rightarrow> ('s, goerr + int) act" where
  "runPauseScript sv q source target event =
     (let k = q_keys q in do {
        r \<leftarrow> Run sv CallerCtx Scripts.Pause
          [source, target, Meta k, Prioritized k, Events k, Delayed k, Marker k] [GStr event, GStr ''1''];
        ret (case r of
            Inl err \<Rightarrow> if errors_Is err RedisNil then Inr 0 else Inl (errorf (''mkq: '' @ event @ '': '') err)
          | Inr (GInt64 remaining) \<Rightarrow> Inr remaining
          | Inr _ \<Rightarrow> Inr 0)
      })"

text \<open>One round of the loop of \<open>pauseResume\<close>; its variable is the round number.\<close>

definition pauseBody ::
  "('s, 't) services \<Rightarrow> Queue \<Rightarrow> string \<Rightarrow> string \<Rightarrow> string \<Rightarrow> nat \<Rightarrow> ('s, nat + goerr option) act" where
  "pauseBody sv q source target event rnd = do {
     r \<leftarrow> runPauseScript sv q source target event;
     ret (case r of
         Inl err \<Rightarrow> Inr (Some err)
       | Inr remaining \<Rightarrow>
           if remaining \<le> 0 then Inr None
           else if rnd + 1 \<ge> legacyDrainRounds then
             Inr (Some (PlainErr (''mkq: '' @ event @ '': '' @ FormatInt remaining @
               '' jobs still parked in the legacy paused list after '' @ fmt_nat legacyDrainRounds @ '' rounds'')))
           else Inl (rnd + 1))
   }"

text \<open>The loop ends within \<open>legacyDrainRounds\<close> rounds, which the fuel allows for.\<close>

definition pauseResume :: "('s, 't) services \<Rightarrow> Queue \<Rightarrow> string \<Rightarrow> string \<Rightarrow> string \<Rightarrow> ('s, goerr option option) act" where
  "pauseResume sv q source target event = loop legacyDrainRounds (pauseBody sv q source target event) 0"

definition Pause :: "('s, 't) services \<Rightarrow> Queue \<Rightarrow> ('s, goerr option option) act" where
  "Pause sv q = pauseResume sv q (Wait (q_keys q)) (Paused (q_keys q)) ''paused''"

definition Resume :: "('s, 't) services \<Rightarrow> Queue \<Rightarrow> ('s, goerr option option) act" where
  "Resume sv q = pauseResume sv q (Paused (q_keys q)) (Wait (q_keys q)) ''resumed''"

section \<open>Progress, data and log of a job\<close>

definition classifyMutationResult :: "gval \<Rightarrow> goerr option" where
  "classifyMutationResult res = (case res of
       GInt64 code \<Rightarrow>
         if code = -1 then Some (Sentinel ErrJobNotFound)
         else if code < 0 then Some (PlainErr (''mkq: mutation lua returned error code '' @ FormatInt code))
         else None
     | _ \<Rightarrow> None)"

definition mutationReply :: "string \<Rightarrow> goerr + gval \<Rightarrow> goerr option" where
  "mutationReply script r = (case r of
       Inl err \<Rightarrow> Some (errorf (''mkq: '' @ script @ '': '') err)
     | Inr res \<Rightarrow> classifyMutationResult res)"

text \<open>\<open>progress\<close> is the outcome of \<open>json.Marshal\<close> on the caller's value.\<close>

definition UpdateJobProgress :: "('s, 't) services \<Rightarrow> Queue \<Rightarrow> string \<Rightarrow> goerr + string \<Rightarrow> ('s, goerr option) act" where
  "UpdateJobProgress sv q jobID progress =
     (if jobID = [] then ret (Some emptyJobID)
      else case progress of
          Inl err \<Rightarrow> ret (Some (errorf ''mkq: marshal progress: '' err))
        | Inr progJSON \<Rightarrow> do {
            r \<leftarrow> Run sv CallerCtx Scripts.UpdateProgress
              [JobKey (q_keys q) jobID, Events (q_keys q), Meta (q_keys q)] [GStr jobID, GStr progJSON];
            ret (mutationReply ''updateProgress'' r)
          })"

definition UpdateJobData :: "('s, 't) services \<Rightarrow> Queue \<Rightarrow> string \<Rightarrow> 't \<Rightarrow> ('s, goerr option) act" where
  "UpdateJobData sv q jobID data =
     (if jobID = [] then ret (Some emptyJobID)
      else case sv_marshal_data sv data of
          Inl err \<Rightarrow> ret (Some (errorf ''mkq: marshal data: '' err))
        | Inr dataJSON \<Rightarrow> do {
            r \<leftarrow> Run sv CallerCtx Scripts.UpdateData [JobKey (q_keys q) jobID] [GStr dataJSON];
            ret (mutationReply ''updateData'' r)
          })"

definition AppendJobLog :: "('s, 't) services \<Rightarrow> Queue \<Rightarrow> string \<Rightarrow> string \<Rightarrow> ('s, goerr option) act" where
  "AppendJobLog sv q jobID line =
     (if jobID = [] then ret (Some emptyJobID)
      else do {
        r \<leftarrow> Run sv CallerCtx AddLog [JobKey (q_keys q) jobID, JobLogs (q_keys q) jobID]
          [GStr jobID, GStr line, GStr []];
        ret (case r of
            Inl err \<Rightarrow> Some (errorf ''mkq: addLog: '' err)
          | Inr res \<Rightarrow> if error_code res \<noteq> None then Some (Sentinel ErrJobNotFound) else None)
      })"

text \<open>The methods of a job: a job without a queue back-pointer (\<open>None\<close>) is detached.\<close>

definition UpdateProgress ::
  "('s, 't) services \<Rightarrow> Queue option \<Rightarrow> string \<Rightarrow> goerr + string \<Rightarrow> ('s, goerr option) act" where
  "UpdateProgress sv queue jobID progress = (case queue of
       None \<Rightarrow> ret (Some (Sentinel ErrJobDetached)) | Some q \<Rightarrow> UpdateJobProgress sv q jobID progress)"

definition UpdateData :: "('s, 't) services \<Rightarrow> Queue option \<Rightarrow> string \<Rightarrow> 't \<Rightarrow> ('s, goerr option) act" where
  "UpdateData sv queue jobID d = (case queue of
       None \<Rightarrow> ret (Some (Sentinel ErrJobDetached)) | Some q \<Rightarrow> UpdateJobData sv q jobID d)"

definition LogLine :: "('s, 't) services \<Rightarrow> Queue option \<Rightarrow> string \<Rightarrow> string \<Rightarrow> ('s, goerr option) act" where
  "LogLine sv queue jobID line = (case queue of
       None \<Rightarrow> ret (Some (Sentinel ErrJobDetached)) | Some q \<Rightarrow> AppendJobLog sv q jobID line)"

record JobLogsResult =
  jl_Logs :: "string list"
  jl_Count :: int

text \<open>
  The two results of the pipeline.  redis.Nil counts as an empty result, both for the pipeline and
  for its commands.
\<close>

definition hardErr :: "goerr option \<Rightarrow> goerr option" where
  "hardErr err = (case err of Some e \<Rightarrow> if errors_Is e RedisNil then None else Some e | None \<Rightarrow> None)"

definition softResult :: "goerr + gval \<Rightarrow> goerr + gval" where
  "softResult r = (case r of Inl e \<Rightarrow> if errors_Is e RedisNil then Inr GNil else Inl e | Inr v \<Rightarrow> Inr v)"

definition logsResult :: "string \<Rightarrow> goerr + gval \<Rightarrow> goerr + JobLogsResult" where
  "logsResult jobID r =
     (let bad = (\<lambda>err. errorf (''mkq: getJobLogs '' @ jobID @ '': '') err)
      in case hardErr (execErr r) of
           Some err \<Rightarrow> Inl (bad err)
         | None \<Rightarrow>
             (case softResult (cmdResult r 0) of
                Inl err \<Rightarrow> Inl (bad err)
              | Inr logs \<Rightarrow> (case softResult (cmdResult r 1) of
                  Inl err \<Rightarrow> Inl (bad err)
                | Inr count \<Rightarrow> (case toStringSlice logs of
                    Inl err \<Rightarrow> Inl (bad err)
                  | Inr ls \<Rightarrow> Inr \<lparr>jl_Logs = ls, jl_Count = fst (toInt64 count)\<rparr>))))"

definition GetJobLogs ::
  "('s, 't) services \<Rightarrow> Queue \<Rightarrow> string \<Rightarrow> int \<Rightarrow> int \<Rightarrow> ('s, goerr + JobLogsResult) act" where
  "GetJobLogs sv q jobID start stop =
     (if jobID = [] then ret (Inl emptyJobID)
      else let key = JobLogs (q_keys q) jobID in do {
        r \<leftarrow> redis sv (Pipeline [LRange CallerCtx key start stop, LLen CallerCtx key]);
        ret (logsResult jobID r)
      })"

section \<open>Metrics\<close>

record QueueMetricsMeta =
  mm_Count :: int
  mm_PrevTS :: int
  mm_PrevCount :: int

record QueueMetrics =
  qm_Meta :: QueueMetricsMeta
  qm_Data :: "int list"
  qm_Count :: int

definition parseMetricsInt :: "gval \<Rightarrow> int" where
  "parseMetricsInt v = (case v of
       GNil \<Rightarrow> 0
     | GStr x \<Rightarrow> if x = [] then 0 else fst (ParseInt x)
     | GInt64 x \<Rightarrow> x
     | _ \<Rightarrow> (case toInt64 v of (n, ok) \<Rightarrow> if ok then n else 0))"

definition parseMetricsMeta :: "gval \<Rightarrow> goerr + QueueMetricsMeta" where
  "parseMetricsMeta raw = (case raw of
       GArr arr \<Rightarrow>
         if length arr \<noteq> 3 then
           Inl (PlainErr (''mkq: getMetrics meta: expected 3 fields, got '' @ fmt_nat (length arr)))
         else Inr \<lparr>mm_Count = parseMetricsInt (arr ! 0), mm_PrevTS = parseMetricsInt (arr ! 1),
           mm_PrevCount = parseMetricsInt (arr ! 2)\<rparr>
     | _ \<Rightarrow> Inl (PlainErr ''mkq: getMetrics meta: unexpected type''))"

definition parseMetricsData :: "gval \<Rightarrow> goerr + int list" where
  "parseMetricsData raw = (case raw of
       GArr arr \<Rightarrow> Inr (map parseMetricsInt arr)
     | _ \<Rightarrow> Inl (PlainErr ''mkq: getMetrics data: unexpected type''))"

definition metricsReply :: "goerr + gval \<Rightarrow> goerr + QueueMetrics" where
  "metricsReply r = (case r of
       Inl err \<Rightarrow> Inl (errorf ''mkq: getMetrics: '' err)
     | Inr (GArr arr) \<Rightarrow>
         if length arr \<noteq> 3 then Inl (PlainErr ''mkq: getMetrics: unexpected result type'')
         else (case parseMetricsMeta (arr ! 0) of
             Inl err \<Rightarrow> Inl err
           | Inr meta \<Rightarrow> (case parseMetricsData (arr ! 1) of
               Inl err \<Rightarrow> Inl err
             | Inr data \<Rightarrow> Inr \<lparr>qm_Meta = meta, qm_Data = data, qm_Count = fst (toInt64 (arr ! 2))\<rparr>))
     | Inr _ \<Rightarrow> Inl (PlainErr ''mkq: getMetrics: unexpected result type''))"

definition invalidMetricsBucket :: "JobBucket \<Rightarrow> goerr" where
  "invalidMetricsBucket kind =
     Wrapped (sentinel_text ErrInvalidMetricsBucket @ '' (got '' @ quoted kind @ '')'') [Sentinel ErrInvalidMetricsBucket]"

definition GetMetrics ::
  "('s, 't) services \<Rightarrow> Queue \<Rightarrow> JobBucket \<Rightarrow> int \<Rightarrow> int \<Rightarrow> ('s, goerr + QueueMetrics) act" where
  "GetMetrics sv q kind start stop =
     (if kind \<noteq> JobBucketCompleted \<and> kind \<noteq> JobBucketFailed then ret (Inl (invalidMetricsBucket kind))
      else let metricsKey = Metrics (q_keys q) kind; dataKey = metricsKey @ '':data'' in do {
        r \<leftarrow> Run sv CallerCtx Scripts.GetMetrics [metricsKey, dataKey] [GInt64 start, GInt64 stop];
        ret (metricsReply r)
      })"

section \<open>Lemmas\<close>

text \<open>A reply of the pause script that leaves jobs in the legacy list, and one that is a failure.\<close>

definition parked :: "goerr + gval \<Rightarrow> bool" where
  "parked r = (case r of Inr (GInt64 n) \<Rightarrow> n > 0 | _ \<Rightarrow> False)"

definition scriptFailed :: "goerr + gval \<Rightarrow> bool" where
  "scriptFailed r = (case r of Inl e \<Rightarrow> \<not> errors_Is e RedisNil | _ \<Rightarrow> False)"

definition pauseCall :: "Queue \<Rightarrow> string \<Rightarrow> string \<Rightarrow> string \<Rightarrow> event" where
  "pauseCall q source target event = (let k = q_keys q in
     ScriptCall CallerCtx Scripts.Pause [source, target, Meta k, Prioritized k, Events k, Delayed k, Marker k]
       [GStr event, GStr ''1''])"

lemma calls_of_call: "obs es = [ScriptCall c n ks as] \<Longrightarrow> calls es = [ScriptCall c n ks as]"
  by (metis calls_obs calls.simps(1,2))

text \<open>What one round did.\<close>

definition pauseRound :: "event \<Rightarrow> nat \<Rightarrow> nat + goerr option \<Rightarrow> event list \<Rightarrow> bool" where
  "pauseRound call rnd r es \<longleftrightarrow> (\<exists>rep. replies es = [(Scripts.Pause, rep)] \<and> calls es = [call] \<and>
     (case r of
        Inl rnd' \<Rightarrow> parked rep \<and> rnd' = Suc rnd \<and> Suc rnd < legacyDrainRounds
      | Inr res \<Rightarrow> (res = None \<longleftrightarrow> \<not> parked rep \<and> \<not> scriptFailed rep) \<and> (parked rep \<longrightarrow> legacyDrainRounds \<le> Suc rnd)))"

lemma pauseBody_round:
  "does (pauseBody sv q source target event rnd) (pauseRound (pauseCall q source target event) rnd)"
  unfolding pauseRound_def pauseBody_def runPauseScript_def
  by (intro does_rules does_Run)
    (auto dest!: calls_of_call simp: pauseCall_def Let_def parked_def scriptFailed_def split: sum.splits gval.splits)

text \<open>The loop of \<open>pauseResume\<close> is bounded whatever the script replies.\<close>

interpretation pause_rounds: bounded_loop "pauseBody sv q source target event" "\<lambda>rnd w. True"
  "\<lambda>rnd. legacyDrainRounds - 1 - rnd" for sv q source target event
proof unfold_locales
  fix rnd w rnd' w'
  assume "run_state (pauseBody sv q source target event rnd) w = (Inl rnd', w')"
  from doesD [OF pauseBody_round this] have "rnd' = Suc rnd" "Suc rnd < legacyDrainRounds"
    by (auto simp: pauseRound_def)
  then show "True \<and> legacyDrainRounds - 1 - rnd' < legacyDrainRounds - 1 - rnd" by simp
qed

text \<open>
  What \<open>pauseResume\<close> did: the same call once per round, every reply but the last one leaving
  parked jobs, and nil returned exactly when the last reply is neither a failure nor leaves any.
\<close>

definition pausePost :: "event \<Rightarrow> goerr option \<Rightarrow> event list \<Rightarrow> bool" where
  "pausePost call res es \<longleftrightarrow>
     (\<exists>rs r. replies es = map (Pair Scripts.Pause) (rs @ [r]) \<and> calls es = replicate (Suc (length rs)) call \<and>
        list_all parked rs \<and> length rs < legacyDrainRounds \<and> (res = None \<longleftrightarrow> \<not> parked r \<and> \<not> scriptFailed r) \<and>
        (parked r \<longrightarrow> Suc (length rs) = legacyDrainRounds))"

lemma pauseResume_post:
  "does (pauseResume sv q source target event)
     (\<lambda>r es. case r of None \<Rightarrow> True | Some res \<Rightarrow> pausePost (pauseCall q source target event) res es)"
proof -
  define J where "J rnd es \<longleftrightarrow> (\<exists>rs. replies es = map (Pair Scripts.Pause) rs \<and> length rs = rnd \<and> list_all parked rs \<and>
    calls es = replicate rnd (pauseCall q source target event) \<and> rnd < legacyDrainRounds)" for rnd es
  have "does (pauseBody sv q source target event rnd)
      (\<lambda>r es'. case r of Inl rnd' \<Rightarrow> J rnd' (es @ es') | Inr res \<Rightarrow> pausePost (pauseCall q source target event) res (es @ es'))"
    if j: "J rnd es" for rnd es
  proof (rule does_weaken [OF pauseBody_round])
    fix r es'
    assume r: "pauseRound (pauseCall q source target event) rnd r es'"
    from j obtain rs where rs: "replies es = map (Pair Scripts.Pause) rs" "length rs = rnd" "list_all parked rs"
      "calls es = replicate rnd (pauseCall q source target event)" "rnd < legacyDrainRounds"
      unfolding J_def by blast
    from r obtain rep where rep: "replies es' = [(Scripts.Pause, rep)]" unfolding pauseRound_def by blast
    show "case r of Inl rnd' \<Rightarrow> J rnd' (es @ es') | Inr res \<Rightarrow> pausePost (pauseCall q source target event) res (es @ es')"
    proof (cases r)
      case (Inl rnd')
      with r rs rep show ?thesis
        by (auto simp: pauseRound_def J_def replicate_append_same intro!: exI [of _ "rs @ [rep]"])
    next
      case (Inr res)
      with r rs show ?thesis
        by (auto simp: pauseRound_def pausePost_def replicate_append_same intro!: exI [of _ rs])
    qed
  qed
  moreover have "J 0 []" by (simp add: J_def legacyDrainRounds_def)
  ultimately show ?thesis
    using does_loop [of J "pauseBody sv q source target event" "pausePost (pauseCall q source target event)" 0 "[]" legacyDrainRounds]
    by (simp add: pauseResume_def cong: option.case_cong)
qed

text \<open>
  The contract of an operation that is one script call with an integer reply: without a call there
  is an error of its own, else the reply is classified.
\<close>

locale coded_op =
  fixes oper :: "('s, goerr option) act" and script :: string and name :: string and classify :: "int \<Rightarrow> goerr option"
  assumes one_call: "does oper (\<lambda>r es. replies es = [] \<and> (\<exists>m. r = Some (PlainErr m)) \<or>
      (\<exists>rep. replies es = [(script, rep)] \<and> r = codeReply name classify rep))"
begin

lemma codeReply_nil: "codeReply name classify r = None \<longleftrightarrow> (\<exists>code. r = Inr (GInt64 code) \<and> classify code = None)"
  by (auto simp: codeReply_def split: sum.splits gval.splits)

lemma codeReply_sentinel:
  "codeReply name classify r = Some (Sentinel s) \<longleftrightarrow> (\<exists>code. r = Inr (GInt64 code) \<and> classify code = Some (Sentinel s))"
  by (auto simp: codeReply_def errorf_def split: sum.splits gval.splits)

lemma nil_iff:
  assumes "\<And>code. classify code = None \<longleftrightarrow> code = ok"
  shows "does oper (\<lambda>r es. (r = None) = (replies es = [(script, Inr (GInt64 ok))]))"
  by (rule does_weaken [OF one_call]) (auto simp: codeReply_nil assms)

lemma sentinel_iff:
  assumes "\<And>code. classify code = Some (Sentinel s) \<longleftrightarrow> code = c"
  shows "does oper (\<lambda>r es. (r = Some (Sentinel s)) = (replies es = [(script, Inr (GInt64 c))]))"
  by (rule does_weaken [OF one_call]) (auto simp: codeReply_sentinel assms)

end

interpretation remove_op: coded_op "RemoveJob sv q jobID" Scripts.RemoveJob "''removeJob''" removeCode for sv q jobID
  by unfold_locales (auto simp: RemoveJob_def emptyJobID_def intro!: does_return does_bindI does_Run)

interpretation promote_op: coded_op "PromoteJob sv q jobID" Promote "''promote''" promoteCode for sv q jobID
  by unfold_locales (auto simp: PromoteJob_def emptyJobID_def Let_def intro!: does_return does_bindI does_Run)

interpretation retry_op: coded_op "RetryJob sv q jobID opts" ReprocessJob "''reprocessJob''" reprocessCode for sv q jobID opts
  unfolding coded_op_def RetryJob_def Let_def emptyJobID_def
  by (intro does_if does_case_option does_case_prod does_return does_bindI does_Run) auto

lemma admin_codes:
  "removeCode code = None \<longleftrightarrow> code = 1" "removeCode code = Some (Sentinel ErrJobActive) \<longleftrightarrow> code = 0"
  "removeCode code = Some (Sentinel ErrJobIsScheduler) \<longleftrightarrow> code = - 8"
  "promoteCode code = None \<longleftrightarrow> code = 0" "promoteCode code = Some (Sentinel ErrJobNotInDelayed) \<longleftrightarrow> code = - 3"
  "reprocessCode code = None \<longleftrightarrow> code = 1" "reprocessCode code = Some (Sentinel ErrJobNotFound) \<longleftrightarrow> code = - 1"
  "reprocessCode code = Some (Sentinel ErrJobNotInExpectedState) \<longleftrightarrow> code = - 3"
  by (simp_all add: removeCode_def promoteCode_def reprocessCode_def unknownCode_def)

text \<open>What getMetrics-2.lua replies for a snapshot: bulk strings, and the list's length.\<close>

definition metrics_wire :: "QueueMetrics \<Rightarrow> gval" where
  "metrics_wire m = GArr
     [GArr (map (\<lambda>n. GStr (FormatInt n)) [mm_Count (qm_Meta m), mm_PrevTS (qm_Meta m), mm_PrevCount (qm_Meta m)]),
      GArr (map (\<lambda>n. GStr (FormatInt n)) (qm_Data m)), GInt64 (qm_Count m)]"

definition metrics_ok :: "QueueMetrics \<Rightarrow> bool" where
  "metrics_ok m \<longleftrightarrow> list_all is_int64
     ([mm_Count (qm_Meta m), mm_PrevTS (qm_Meta m), mm_PrevCount (qm_Meta m), qm_Count m] @ qm_Data m)"

lemma parseMetricsInt_FormatInt: "is_int64 n \<Longrightarrow> parseMetricsInt (GStr (FormatInt n)) = n"
  by (simp add: parseMetricsInt_def ParseInt_FormatInt)

interpretation metrics: codec metrics_wire "\<lambda>v. case metricsReply (Inr v) of Inr m \<Rightarrow> Some m | Inl _ \<Rightarrow> None" metrics_ok
proof unfold_locales
  fix m
  assume "metrics_ok m"
  then have "map (\<lambda>n. parseMetricsInt (GStr (FormatInt n))) (qm_Data m) = qm_Data m"
    by (intro map_idI) (auto simp: metrics_ok_def list_all_iff parseMetricsInt_FormatInt)
  with \<open>metrics_ok m\<close> show "(case metricsReply (Inr (metrics_wire m)) of Inr m \<Rightarrow> Some m | Inl _ \<Rightarrow> None) = Some m"
    by (simp add: metrics_wire_def metricsReply_def parseMetricsMeta_def parseMetricsData_def metrics_ok_def
        parseMetricsInt_FormatInt comp_def toInt64_def numeral_2_eq_2)
qed

section \<open>Properties\<close>

text \<open>
  C20: \<open>Pause\<close> and \<open>Resume\<close> always return, whatever Redis answers.  They send the pause script once
  per round, always with the same keys and arguments, go round again only while a reply leaves jobs
  in the legacy paused list, and stop after at most 100 rounds; nil is returned exactly when the
  last reply is no failure and leaves no job, and an error over parked jobs only after round 100.
\<close>

theorem pause_and_resume_return:
  "does (Pause sv q) (\<lambda>r es. r \<noteq> None \<and>
     pausePost (pauseCall q (Wait (q_keys q)) (Paused (q_keys q)) ''paused'') (the r) es) \<and>
   does (Resume sv q) (\<lambda>r es. r \<noteq> None \<and>
     pausePost (pauseCall q (Paused (q_keys q)) (Wait (q_keys q)) ''resumed'') (the r) es)"
proof -
  have "does (pauseResume sv q source target event)
      (\<lambda>r es. r \<noteq> None \<and> pausePost (pauseCall q source target event) (the r) es)" for source target event
  proof (rule does_weaken [OF does_returns [OF _ pauseResume_post]])
    show "\<exists>r w'. run_state (pauseResume sv q source target event) w = (Some r, w')" for w
      unfolding pauseResume_def by (rule pause_rounds.loop_returns) (simp_all add: legacyDrainRounds_def)
  qed auto
  then show ?thesis by (simp add: Pause_def Resume_def)
qed

text \<open>
  The administrative operations report what the script said: \<open>RemoveJob\<close>, \<open>PromoteJob\<close> and
  \<open>RetryJob\<close> return nil exactly when the script ran once and replied its success code, and each
  documented sentinel exactly for its own reply code.
\<close>

lemma admin_errors_follow_codes:
  "does (RemoveJob sv q jobID) (\<lambda>r es.
     (r = None) = (replies es = [(Scripts.RemoveJob, Inr (GInt64 1))]) \<and>
     (r = Some (Sentinel ErrJobActive)) = (replies es = [(Scripts.RemoveJob, Inr (GInt64 0))]) \<and>
     (r = Some (Sentinel ErrJobIsScheduler)) = (replies es = [(Scripts.RemoveJob, Inr (GInt64 (- 8)))])) \<and>
   does (PromoteJob sv q jobID) (\<lambda>r es.
     (r = None) = (replies es = [(Promote, Inr (GInt64 0))]) \<and>
     (r = Some (Sentinel ErrJobNotInDelayed)) = (replies es = [(Promote, Inr (GInt64 (- 3)))])) \<and>
   does (RetryJob sv q jobID opts) (\<lambda>r es.
     (r = None) = (replies es = [(ReprocessJob, Inr (GInt64 1))]) \<and>
     (r = Some (Sentinel ErrJobNotFound)) = (replies es = [(ReprocessJob, Inr (GInt64 (- 1)))]) \<and>
     (r = Some (Sentinel ErrJobNotInExpectedState)) = (replies es = [(ReprocessJob, Inr (GInt64 (- 3)))]))"
  by (intro conjI does_conj remove_op.nil_iff remove_op.sentinel_iff promote_op.nil_iff promote_op.sentinel_iff
      retry_op.nil_iff retry_op.sentinel_iff admin_codes)

text \<open>
  A metrics snapshot survives the wire: what getMetrics-2.lua replies for 64-bit counters is read
  back by \<open>GetMetrics\<close> as the same metadata, the same data points in the same order and the same
  total.
\<close>

lemma metrics_roundtrip:
  "metrics_ok m \<Longrightarrow> metricsReply (Inr (metrics_wire m)) = Inr m"
  using metrics.dec_enc [of m] by (simp split: sum.splits)

end
