(* ===== verification/Events_Stream.thy ===== *)
theory Events_Stream
  imports Schedule "HOL-Library.Sublist"
begin

text \<open>
  \<open>events.go\<close>: the typed events of a queue, their decoder, and the subscription loop over the
  queue's Redis stream.  What a subscriber meets outside (XREAD, its context, \<open>Close\<close>, the user's
  handler) is a field of \<open>stream_env\<close>; the events handed to the handler and the ids XREAD was
  asked to start after are recorded.
\<close>

section \<open>Events\<close>

datatype QueueEvent =
    AddedEvent (id_of: string) (JobID: string) (ev_Name: string)
  | WaitingEvent (id_of: string) (JobID: string) (Prev: string)
  | ActiveEvent (id_of: string) (JobID: string) (Prev: string)
  | CompletedEvent (id_of: string) (JobID: string) (ReturnValue: "string option") (Prev: string)
  | FailedEvent (id_of: string) (JobID: string) (FailedReason: string) (Prev: string)
  | DelayedEvent (id_of: string) (JobID: string) (DelayedUntilMs: int)
  | StalledEvent (id_of: string) (JobID: string)
  | DrainedEvent (id_of: string)
  | RetriesExhaustedEvent (id_of: string) (JobID: string) (AttemptsMade: int)
  | RemovedEvent (id_of: string) (JobID: string) (Prev: string)
  | ProgressEvent (id_of: string) (JobID: string) (ev_Data: "string option")
  | RawEvent (id_of: string) (ev_Type: string) (Fields: hash)

text \<open>The \<open>ID\<close> methods.  A nil \<open>json.RawMessage\<close> is \<open>None\<close>.\<close>

definition event_ID :: "QueueEvent \<Rightarrow> string" where
  "event_ID e = id_of e"

text \<open>A value of a stream entry: a string, bytes, or anything else with its \<open>%v\<close> text.\<close>

datatype xvalue = XStr string | XBytes string | XOther string

record XMessage =
  xm_ID :: string
  xm_Values :: "(string \<times> xvalue) list"

definition fieldText :: "xvalue \<Rightarrow> string" where
  "fieldText v = (case v of XStr x \<Rightarrow> x | XBytes x \<Rightarrow> x | XOther x \<Rightarrow> x)"

definition rawJSON :: "string \<Rightarrow> string option" where
  "rawJSON s = (if s = [] then None else Some s)"

definition decodeStreamMessage :: "XMessage \<Rightarrow> QueueEvent" where
  "decodeStreamMessage msg =
     (let fields = map (\<lambda>(k, v). (k, fieldText v)) (xm_Values msg); f = hlookup fields; i = xm_ID msg
      in if f ''event'' = ''added'' then AddedEvent i (f ''jobId'') (f ''name'')
         else if f ''event'' = ''waiting'' then WaitingEvent i (f ''jobId'') (f ''prev'')
         else if f ''event'' = ''active'' then ActiveEvent i (f ''jobId'') (f ''prev'')
         else if f ''event'' = ''completed'' then
           CompletedEvent i (f ''jobId'') (rawJSON (f ''returnvalue'')) (f ''prev'')
         else if f ''event'' = ''failed'' then FailedEvent i (f ''jobId'') (f ''failedReason'') (f ''prev'')
         else if f ''event'' = ''delayed'' then DelayedEvent i (f ''jobId'') (fst (ParseInt (f ''delay'')))
         else if f ''event'' = ''stalled'' then StalledEvent i (f ''jobId'')
         else if f ''event'' = ''drained'' then DrainedEvent i
         else if f ''event'' = ''retries-exhausted'' then
           RetriesExhaustedEvent i (f ''jobId'') (fst (Atoi (f ''attemptsMade'')))
         else if f ''event'' = ''removed'' then RemovedEvent i (f ''jobId'') (f ''prev'')
         else if f ''event'' = ''progress'' then ProgressEvent i (f ''jobId'') (rawJSON (f ''data''))
         else RawEvent i (f ''event'') fields)"

section \<open>The subscription\<close>

text \<open>The state of \<open>closeOnce\<close> and of the channel \<open>closeCh\<close>; closing a closed channel panics.\<close>

record QueueEvents =
  qe_keys :: builder
  qe_once :: bool
  qe_closed :: bool

definition NewQueueEvents :: "Queue \<Rightarrow> QueueEvents" where
  "NewQueueEvents q = \<lparr>qe_keys = q_keys q, qe_once = False, qe_closed = False\<rparr>"

definition closeChan :: "QueueEvents \<Rightarrow> QueueEvents outcome" where
  "closeChan qe = (if qe_closed qe then Panics ''close of closed channel'' else Returns (qe\<lparr>qe_closed := True\<rparr>))"

definition Close :: "QueueEvents \<Rightarrow> QueueEvents outcome" where
  "Close qe = (if qe_once qe then Returns qe else closeChan (qe\<lparr>qe_once := True\<rparr>))"

text \<open>
  The \<open>select\<close> at the head of the loop: the context is done, the subscription was closed (when both
  are ready Go picks one), or neither.
\<close>

datatype poll = CtxDone | Closed | Open

definition selectPoll :: "bool \<Rightarrow> bool \<Rightarrow> bool \<Rightarrow> poll" where
  "selectPoll ctxDone chClosed ctxFirst =
     (if ctxDone \<and> (ctxFirst \<or> \<not> chClosed) then CtxDone else if chClosed then Closed else Open)"

record 's stream_env =
  se_poll :: "'s \<Rightarrow> poll \<times> 's"
  se_ctxErr :: "'s \<Rightarrow> goerr option \<times> 's"
  se_xread :: "string \<Rightarrow> string \<Rightarrow> duration \<Rightarrow> 's \<Rightarrow> (goerr + (string \<times> XMessage list) list) \<times> 's"
  se_handler :: "QueueEvent \<Rightarrow> 's \<Rightarrow> goerr option \<times> 's"

record 's sub_world =
  su_ext :: 's
  su_reads :: "(string \<times> XMessage list) list" \<comment> \<open>the id each XREAD started after, and what it brought\<close>
  su_delivered :: "QueueEvent list"

definition streamBlockTimeout :: duration where
  "streamBlockTimeout = 200 * Millisecond"

definition su_ask :: "('s \<Rightarrow> 'a \<times> 's) \<Rightarrow> ('s sub_world, 'a) state" where
  "su_ask f = State (\<lambda>w. let (a, s') = f (su_ext w) in (a, w\<lparr>su_ext := s'\<rparr>))"

definition su_read ::
  "'s stream_env \<Rightarrow> string \<Rightarrow> string \<Rightarrow> ('s sub_world, goerr + (string \<times> XMessage list) list) state" where
  "su_read env key lastID = do {
     r \<leftarrow> su_ask (se_xread env key lastID streamBlockTimeout);
     State (\<lambda>w. ((), w\<lparr>su_reads := su_reads w @
       [(lastID, case r of Inl e \<Rightarrow> [] | Inr streams \<Rightarrow> concat (map snd streams))]\<rparr>));
     State_Monad.return r
   }"

definition su_deliver :: "'s stream_env \<Rightarrow> QueueEvent \<Rightarrow> ('s sub_world, goerr option) state" where
  "su_deliver env ev = do {
     State (\<lambda>w. ((), w\<lparr>su_delivered := su_delivered w @ [ev]\<rparr>));
     su_ask (se_handler env ev)
   }"

text \<open>
  The two inner loops, over the entries of the streams in order: \<open>Inl\<close> is the new \<open>lastID\<close>, \<open>Inr\<close>
  the error the handler returned.
\<close>

fun deliverAll :: "'s stream_env \<Rightarrow> string \<Rightarrow> XMessage list \<Rightarrow> ('s sub_world, string + goerr) state" where
  "deliverAll env lastID [] = State_Monad.return (Inl lastID)"
| "deliverAll env lastID (msg # msgs) = do {
     err \<leftarrow> su_deliver env (decodeStreamMessage msg);
     (case err of
        Some e \<Rightarrow> State_Monad.return (Inr e)
      | None \<Rightarrow> deliverAll env (xm_ID msg) msgs)
   }"

definition subscribeBody ::
  "'s stream_env \<Rightarrow> string \<Rightarrow> string \<Rightarrow> ('s sub_world, string + goerr option) state" where
  "subscribeBody env streamKey lastID = do {
     p \<leftarrow> su_ask (se_poll env);
     (case p of
        CtxDone \<Rightarrow> do { e \<leftarrow> su_ask (se_ctxErr env); State_Monad.return (Inr e) }
      | Closed \<Rightarrow> State_Monad.return (Inr None)
      | Open \<Rightarrow> do {
          r \<leftarrow> su_read env streamKey lastID;
          (case r of
             Inl err \<Rightarrow>
               if errors_Is err RedisNil then State_Monad.return (Inl lastID)
               else if errors_Is err Canceled \<or> errors_Is err DeadlineExceeded then do {
                 e \<leftarrow> su_ask (se_ctxErr env); State_Monad.return (Inr e)
               }
               else State_Monad.return (Inr (Some (errorf ''mkq: XREAD events: '' err)))
           | Inr streams \<Rightarrow> do {
               d \<leftarrow> deliverAll env lastID (concat (map snd streams));
               State_Monad.return (case d of Inl lastID' \<Rightarrow> Inl lastID' | Inr e \<Rightarrow> Inr (Some e))
             })
        })
   }"

definition Subscribe ::
  "'s stream_env \<Rightarrow> nat \<Rightarrow> QueueEvents \<Rightarrow> bool \<Rightarrow> ('s sub_world, goerr option option) state" where
  "Subscribe env fuel qe hasHandler =
     (if \<not> hasHandler then
        State_Monad.return (Some (Some (PlainErr ''mkq: QueueEvents.Subscribe requires a non-nil handler'')))
      else loop fuel (subscribeBody env (Events (qe_keys qe))) ''$'')"

section \<open>Lemmas: the subscription\<close>

lemma su_ask_run: "run_state (su_ask f) w = (a, w') \<Longrightarrow> su_reads w' = su_reads w \<and> su_delivered w' = su_delivered w"
  by (auto simp: su_ask_def split: prod.splits)

lemma su_read_run:
  assumes "run_state (su_read env key l) w = (r, w')"
  shows "su_delivered w' = su_delivered w \<and> (\<exists>s. r = fst (se_xread env key l streamBlockTimeout s)) \<and>
    su_reads w' = su_reads w @ [(l, case r of Inl e \<Rightarrow> [] | Inr streams \<Rightarrow> concat (map snd streams))]"
  using assms by (auto simp: su_read_def su_ask_def split: prod.splits) (metis fst_conv)+

text \<open>The id after which the next XREAD starts, once the given entries were delivered.\<close>

definition lastOf :: "string \<Rightarrow> XMessage list \<Rightarrow> string" where
  "lastOf l msgs = (if msgs = [] then l else xm_ID (last msgs))"

lemma lastOf_simps [simp]:
  "lastOf l [] = l" "lastOf l (m # ms) = lastOf (xm_ID m) ms" "lastOf l (ms @ ms') = lastOf (lastOf l ms) ms'"
  by (simp_all add: lastOf_def)

lemma deliverAll_run:
  assumes "run_state (deliverAll env l msgs) w = (r, w')"
  shows "su_reads w' = su_reads w \<and> (\<exists>ms. prefix ms msgs \<and> su_delivered w' = su_delivered w @ map decodeStreamMessage ms \<and>
    (case r of Inl l' \<Rightarrow> ms = msgs \<and> l' = lastOf l msgs | Inr e \<Rightarrow> ms \<noteq> []))"
  using assms
proof (induction msgs arbitrary: l w)
  case (Cons msg msgs)
  obtain err w1 where d: "run_state (su_deliver env (decodeStreamMessage msg)) w = (err, w1)" by fastforce
  then have w1: "su_reads w1 = su_reads w" "su_delivered w1 = su_delivered w @ [decodeStreamMessage msg]"
    by (auto simp: su_deliver_def dest!: su_ask_run)
  show ?case
  proof (cases err)
    case None
    with Cons.prems d have "run_state (deliverAll env (xm_ID msg) msgs) w1 = (r, w')" by simp
    from Cons.IH [OF this] obtain ms where "su_reads w' = su_reads w1" "prefix ms msgs"
      "su_delivered w' = su_delivered w1 @ map decodeStreamMessage ms"
      "case r of Inl l' \<Rightarrow> ms = msgs \<and> l' = lastOf (xm_ID msg) msgs | Inr e \<Rightarrow> ms \<noteq> []" by blast
    with w1 show ?thesis by (intro conjI exI [of _ "msg # ms"]) (auto split: sum.splits)
  next
    case (Some e)
    with Cons.prems d w1 show ?thesis by (intro conjI exI [of _ "[msg]"]) auto
  qed
qed auto

text \<open>All entries XREAD brought, and the order in which it was asked for them.\<close>

definition brought :: "'s sub_world \<Rightarrow> XMessage list" where
  "brought w = concat (map snd (su_reads w))"

fun chained :: "string \<Rightarrow> (string \<times> XMessage list) list \<Rightarrow> bool" where
  "chained l [] \<longleftrightarrow> True"
| "chained l ((i, ms) # rs) \<longleftrightarrow> i = l \<and> chained (lastOf l ms) rs"

lemma chained_append: "chained l (rs @ [(i, ms)]) \<longleftrightarrow> chained l rs \<and> i = lastOf l (concat (map snd rs))"
  by (induction l rs rule: chained.induct) auto

text \<open>
  What XREAD promises: entries come in the order of their ids, all of them after the id it was
  asked for, and \<open>$\<close> is no id.
\<close>

definition xread_contract :: "'s stream_env \<Rightarrow> (string \<Rightarrow> string \<Rightarrow> bool) \<Rightarrow> bool" where
  "xread_contract env later \<longleftrightarrow> transp later \<and> irreflp later \<and> (\<forall>key l d s streams.
     fst (se_xread env key l d s) = Inr streams \<longrightarrow>
       (let ids = map xm_ID (concat (map snd streams))
        in sorted_wrt later ids \<and> ''$'' \<notin> set ids \<and> (l = ''$'' \<or> list_all (later l) ids)))"

definition in_order :: "(string \<Rightarrow> string \<Rightarrow> bool) \<Rightarrow> 's sub_world \<Rightarrow> bool" where
  "in_order later w \<longleftrightarrow> sorted_wrt later (map xm_ID (brought w)) \<and> ''$'' \<notin> set (map xm_ID (brought w)) \<and> chained ''$'' (su_reads w)"

definition sub_inv :: "(string \<Rightarrow> string \<Rightarrow> bool) \<Rightarrow> string \<Rightarrow> 's sub_world \<Rightarrow> bool" where
  "sub_inv later l w \<longleftrightarrow> in_order later w \<and> l = lastOf ''$'' (brought w) \<and> su_delivered w = map decodeStreamMessage (brought w)"

lemma in_order_read:
  assumes c: "xread_contract env later" and i: "in_order later w" "l = lastOf ''$'' (brought w)"
    and r: "run_state (su_read env key l) w = (r, w')"
  shows "in_order later w' \<and> su_delivered w' = su_delivered w \<and>
    brought w' = brought w @ (case r of Inl e \<Rightarrow> [] | Inr streams \<Rightarrow> concat (map snd streams))"
proof -
  from su_read_run [OF r] obtain s where r': "r = fst (se_xread env key l streamBlockTimeout s)"
    and d: "su_delivered w' = su_delivered w"
    and rd: "su_reads w' = su_reads w @ [(l, case r of Inl e \<Rightarrow> [] | Inr streams \<Rightarrow> concat (map snd streams))]" by blast
  let ?new = "case r of Inl e \<Rightarrow> [] | Inr streams \<Rightarrow> concat (map snd streams)"
  have b: "brought w' = brought w @ ?new" by (simp add: brought_def rd)
  have new: "sorted_wrt later (map xm_ID ?new) \<and> ''$'' \<notin> set (map xm_ID ?new) \<and>
      (l = ''$'' \<or> list_all (later l) (map xm_ID ?new))"
    using c r' unfolding xread_contract_def Let_def by (cases r) fastforce+
  have tr: "transp later" using c by (simp add: xread_contract_def)
  have old: "later x y" if "x \<in> set (map xm_ID (brought w))" "y \<in> set (map xm_ID ?new)" for x y
  proof -
    have ne: "brought w \<noteq> []" using that by auto
    then have l: "l = last (map xm_ID (brought w))" by (simp add: i(2) lastOf_def last_map)
    then have "l \<in> set (map xm_ID (brought w))" using ne by (metis last_in_set map_is_Nil_conv)
    then have "l \<noteq> ''$''" using i(1) unfolding in_order_def by metis
    with new that(2) have ly: "later l y" by (auto simp: list_all_iff)
    obtain ys where ys: "map xm_ID (brought w) = ys @ [l]" using ne l by (metis append_butlast_last_id map_is_Nil_conv)
    have "sorted_wrt later (ys @ [l])" using i(1) unfolding in_order_def ys by blast
    moreover have "x \<in> set (ys @ [l])" using that(1) unfolding ys .
    ultimately have "x = l \<or> later x l" by (auto simp: sorted_wrt_append)
    with ly tr show ?thesis by (meson transpD)
  qed
  show ?thesis
    using i new d old unfolding in_order_def b rd chained_append
    by (auto simp: sorted_wrt_append brought_def)
qed

text \<open>What holds when the subscription ends.\<close>

definition sub_end :: "(string \<Rightarrow> string \<Rightarrow> bool) \<Rightarrow> 's sub_world \<Rightarrow> bool" where
  "sub_end later w \<longleftrightarrow> in_order later w \<and> prefix (su_delivered w) (map decodeStreamMessage (brought w))"

lemma sub_inv_end: "sub_inv later l w \<Longrightarrow> sub_end later w"
  by (simp add: sub_inv_def sub_end_def)

lemma su_ask_inv: "run_state (su_ask f) w = (a, w') \<Longrightarrow> sub_inv later l w \<Longrightarrow> sub_inv later l w'"
  by (drule su_ask_run) (simp add: sub_inv_def in_order_def brought_def)

lemma deliverAll_inv:
  assumes w: "in_order later w" "brought w = old @ msgs" "su_delivered w = map decodeStreamMessage old" "l = lastOf ''$'' old"
    and run: "run_state (deliverAll env l msgs) w = (d, w')"
  shows "case d of Inl l' \<Rightarrow> sub_inv later l' w' | Inr e \<Rightarrow> sub_end later w'"
proof -
  from deliverAll_run [OF run] obtain ms where ms: "su_reads w' = su_reads w" "prefix ms msgs"
    "su_delivered w' = su_delivered w @ map decodeStreamMessage ms"
    "case d of Inl l' \<Rightarrow> ms = msgs \<and> l' = lastOf l msgs | Inr e \<Rightarrow> ms \<noteq> []" by blast
  have "in_order later w'" "brought w' = brought w" using w(1) ms(1) by (simp_all add: in_order_def brought_def)
  with ms w show ?thesis by (cases d) (auto simp: sub_inv_def sub_end_def map_mono_prefix)
qed

lemma subscribeBody_inv:
  assumes c: "xread_contract env later" and i: "sub_inv later l w" and run: "run_state (subscribeBody env key l) w = (r, w')"
  shows "case r of Inl l' \<Rightarrow> sub_inv later l' w' | Inr res \<Rightarrow> sub_end later w'"
proof -
  obtain p w1 where p: "run_state (su_ask (se_poll env)) w = (p, w1)" by fastforce
  note w1 = su_ask_inv [OF p i]
  have ask_end: "sub_end later v'" if "run_state (su_ask f) v = (a, v')" "sub_inv later l v" for f and a :: 'x and v v'
    using su_ask_inv [OF that] by (rule sub_inv_end)
  show ?thesis
  proof (cases "p = Open")
    case False
    with run p ask_end [OF _ w1, of "se_ctxErr env"] sub_inv_end [OF w1] show ?thesis
      by (cases p) (auto simp: subscribeBody_def split: prod.splits)
  next
    case True
    obtain x w2 where x: "run_state (su_read env key l) w1 = (x, w2)" by fastforce
    have o: "in_order later w1" "l = lastOf ''$'' (brought w1)" "su_delivered w1 = map decodeStreamMessage (brought w1)"
      using w1 by (simp_all add: sub_inv_def)
    note w2 = in_order_read [OF c o(1,2) x]
    show ?thesis
    proof (cases x)
      case (Inl err)
      with w2 o have i2: "sub_inv later l w2" by (simp add: sub_inv_def)
      from run p True x Inl i2 sub_inv_end [OF i2] ask_end [OF _ i2, of "se_ctxErr env"] show ?thesis
        by (auto simp: subscribeBody_def split: prod.splits if_splits)
    next
      case (Inr streams)
      obtain d where d: "run_state (deliverAll env l (concat (map snd streams))) w2 = (d, w')"
        "r = (case d of Inl l' \<Rightarrow> Inl l' | Inr e \<Rightarrow> Inr (Some e))"
        using run p True x Inr by (auto simp: subscribeBody_def split: prod.splits)
      with deliverAll_inv [OF _ _ _ o(2) d(1)] w2 o(3) Inr show ?thesis by (cases d) simp_all
    qed
  qed
qed

lemma sorted_wrt_prefix: "prefix xs ys \<Longrightarrow> sorted_wrt P ys \<Longrightarrow> sorted_wrt P xs"
  by (auto simp: prefix_def sorted_wrt_append)

lemma irreflp_sorted_distinct: "irreflp later \<Longrightarrow> sorted_wrt later xs \<Longrightarrow> distinct xs"
  by (induction xs) (auto dest: irreflpD)

lemma event_ID_decode [simp]: "event_ID (decodeStreamMessage msg) = xm_ID msg"
  by (simp add: event_ID_def decodeStreamMessage_def Let_def)

lemma map_event_ID [simp]: "map event_ID (map decodeStreamMessage msgs) = map xm_ID msgs"
  by simp

section \<open>Lemmas: the decoder\<close>

text \<open>The entry the scripts add to the stream for an event.\<close>

fun event_message :: "QueueEvent \<Rightarrow> XMessage" where
  "event_message (AddedEvent i j n) = \<lparr>xm_ID = i, xm_Values = [(''event'', XStr ''added''), (''jobId'', XStr j), (''name'', XStr n)]\<rparr>"
| "event_message (WaitingEvent i j p) = \<lparr>xm_ID = i, xm_Values = [(''event'', XStr ''waiting''), (''jobId'', XStr j), (''prev'', XStr p)]\<rparr>"
| "event_message (ActiveEvent i j p) = \<lparr>xm_ID = i, xm_Values = [(''event'', XStr ''active''), (''jobId'', XStr j), (''prev'', XStr p)]\<rparr>"
| "event_message (CompletedEvent i j v p) = \<lparr>xm_ID = i, xm_Values = [(''event'', XStr ''completed''), (''jobId'', XStr j)] @
     (case v of None \<Rightarrow> [] | Some x \<Rightarrow> [(''returnvalue'', XStr x)]) @ [(''prev'', XStr p)]\<rparr>"
| "event_message (FailedEvent i j r p) = \<lparr>xm_ID = i, xm_Values = [(''event'', XStr ''failed''), (''jobId'', XStr j),
     (''failedReason'', XStr r), (''prev'', XStr p)]\<rparr>"
| "event_message (DelayedEvent i j d) = \<lparr>xm_ID = i, xm_Values = [(''event'', XStr ''delayed''), (''jobId'', XStr j),
     (''delay'', XStr (FormatInt d))]\<rparr>"
| "event_message (StalledEvent i j) = \<lparr>xm_ID = i, xm_Values = [(''event'', XStr ''stalled''), (''jobId'', XStr j)]\<rparr>"
| "event_message (DrainedEvent i) = \<lparr>xm_ID = i, xm_Values = [(''event'', XStr ''drained'')]\<rparr>"
| "event_message (RetriesExhaustedEvent i j a) = \<lparr>xm_ID = i, xm_Values = [(''event'', XStr ''retries-exhausted''), (''jobId'', XStr j),
     (''attemptsMade'', XStr (FormatInt a))]\<rparr>"
| "event_message (RemovedEvent i j p) = \<lparr>xm_ID = i, xm_Values = [(''event'', XStr ''removed''), (''jobId'', XStr j), (''prev'', XStr p)]\<rparr>"
| "event_message (ProgressEvent i j d) = \<lparr>xm_ID = i, xm_Values = [(''event'', XStr ''progress''), (''jobId'', XStr j)] @
     (case d of None \<Rightarrow> [] | Some x \<Rightarrow> [(''data'', XStr x)])\<rparr>"
| "event_message (RawEvent i t fs) = \<lparr>xm_ID = i, xm_Values = map (\<lambda>(k, v). (k, XStr v)) fs\<rparr>"

definition knownEvents :: "string list" where
  "knownEvents = [''added'', ''waiting'', ''active'', ''completed'', ''failed'', ''delayed'', ''stalled'', ''drained'',
     ''retries-exhausted'', ''removed'', ''progress'']"

fun event_ok :: "QueueEvent \<Rightarrow> bool" where
  "event_ok (CompletedEvent i j v p) \<longleftrightarrow> v \<noteq> Some []"
| "event_ok (ProgressEvent i j d) \<longleftrightarrow> d \<noteq> Some []"
| "event_ok (DelayedEvent i j d) \<longleftrightarrow> is_int64 d"
| "event_ok (RetriesExhaustedEvent i j a) \<longleftrightarrow> is_int64 a"
| "event_ok (RawEvent i t fs) \<longleftrightarrow> t = hlookup fs ''event'' \<and> t \<notin> set knownEvents"
| "event_ok e \<longleftrightarrow> True"

lemma rawJSON_lookup: "v \<noteq> Some [] \<Longrightarrow> rawJSON (case v of None \<Rightarrow> [] | Some x \<Rightarrow> x) = v"
  by (cases v) (auto simp: rawJSON_def)

interpretation event_stream: codec event_message "\<lambda>m. Some (decodeStreamMessage m)" event_ok
proof unfold_locales
  fix e :: QueueEvent
  assume "event_ok e"
  then have "decodeStreamMessage (event_message e) = e"
    by (cases e)
      (auto simp: decodeStreamMessage_def Let_def hlookup_def fieldText_def rawJSON_def ParseInt_FormatInt Atoi_def comp_def
        knownEvents_def case_prod_unfold split: option.splits)
  then show "Some (decodeStreamMessage (event_message e)) = Some e" by simp
qed

section \<open>Properties\<close>

text \<open>
  C18: A subscriber sees the stream in order.  When XREAD returns entries in the order of their ids and
  only after the id it is asked for, then whatever the handler, the context and \<open>Close\<close> do, the
  events handed to the handler have strictly ascending ids (so none is delivered twice), they are a
  prefix of what XREAD brought (all of it while the subscription goes on), and every XREAD starts
  after the last entry of the ones before it.
\<close>

theorem subscription_in_order:
  assumes c: "xread_contract env later"
    and run: "run_state (Subscribe env fuel qe True) \<lparr>su_ext = s, su_reads = [], su_delivered = []\<rparr> = (r, w)"
  shows "sorted_wrt later (map event_ID (su_delivered w)) \<and> distinct (map event_ID (su_delivered w)) \<and>
    (if r = None then su_delivered w = map decodeStreamMessage (brought w)
     else prefix (su_delivered w) (map decodeStreamMessage (brought w))) \<and> chained ''$'' (su_reads w)"
proof -
  let ?K = "\<lambda>(x :: goerr option) w. sub_end later w"
  have "case r of None \<Rightarrow> \<exists>l'. sub_inv later l' w | Some x \<Rightarrow> ?K x w"
  proof (rule loop_invariant [where I = "sub_inv later" and K = ?K])
    show "sub_inv later ''$'' \<lparr>su_ext = s, su_reads = [], su_delivered = []\<rparr>"
      by (simp add: sub_inv_def in_order_def brought_def)
    show "run_state (loop fuel (subscribeBody env (Events (qe_keys qe))) ''$'')
        \<lparr>su_ext = s, su_reads = [], su_delivered = []\<rparr> = (r, w)"
      using run by (simp add: Subscribe_def)
  qed (rule subscribeBody_inv [OF c])
  then have o: "in_order later w" and p: "prefix (su_delivered w) (map decodeStreamMessage (brought w))"
    and n: "r = None \<Longrightarrow> su_delivered w = map decodeStreamMessage (brought w)"
    by (auto simp: sub_inv_def sub_end_def split: option.splits)
  have "prefix (map event_ID (su_delivered w)) (map xm_ID (brought w))"
    using map_mono_prefix [OF p, of event_ID] by (simp only: map_event_ID)
  then have "sorted_wrt later (map event_ID (su_delivered w))"
    using o sorted_wrt_prefix unfolding in_order_def by blast
  moreover have "irreflp later" using c by (simp add: xread_contract_def)
  ultimately show ?thesis using irreflp_sorted_distinct o p n by (auto simp: in_order_def)
qed

text \<open>
  Every event survives the stream: decoding the entry written for an event gives that event
  back, with its id, for all eleven kinds the library knows and for the entries of any other kind.
\<close>

lemma event_roundtrip:
  "event_ok e \<Longrightarrow> decodeStreamMessage (event_message e) = e"
  using event_stream.dec_enc [of e] by simp

text \<open>
  A stream for the subscription: every XREAD takes the next batch, and returns it when it obeys
  the contract, ids being ordered by their length here.
\<close>

definition batch_ok :: "string \<Rightarrow> XMessage list \<Rightarrow> bool" where
  "batch_ok l b \<longleftrightarrow> (let ids = map xm_ID b; later = (\<lambda>x y. length x < length y)
     in sorted_wrt later ids \<and> list_all (\<lambda>i. i \<noteq> ''$'') ids \<and> (l = ''$'' \<or> list_all (later l) ids))"

definition batch_env :: "XMessage list list stream_env" where
  "batch_env =
     \<lparr>se_poll = (\<lambda>s. (if s = [] then Closed else Open, s)),
      se_ctxErr = (\<lambda>s. (None, s)),
      se_xread = (\<lambda>key l d s. case s of
          [] \<Rightarrow> (Inl RedisNil, [])
        | b # bs \<Rightarrow> (if batch_ok l b then Inr [(key, b)] else Inl RedisNil, bs)),
      se_handler = (\<lambda>ev s. (None, s))\<rparr>"

lemma batch_contract: "xread_contract batch_env (\<lambda>x y. length x < length y)"
proof -
  have "transp (\<lambda>x y :: string. length x < length y)" "irreflp (\<lambda>x y :: string. length x < length y)"
    by (auto intro: transpI irreflpI)
  moreover have "''$'' \<notin> set ids" if "list_all (\<lambda>i. i \<noteq> ''$'') ids" for ids
    using that by (auto simp: list_all_iff)
  ultimately show ?thesis
    by (auto simp: xread_contract_def batch_env_def batch_ok_def Let_def list_all_iff split: list.splits if_splits)
qed

theorem subscription_in_order_witness:
  "map event_ID (su_delivered (snd (run_state (Subscribe batch_env 5 \<lparr>qe_keys = New [] ''mail'', qe_once = False, qe_closed = False\<rparr> True)
     \<lparr>su_ext = [[], [event_message (StalledEvent ''1-0'' ''7''), event_message (DrainedEvent ''10-0'')]],
      su_reads = [], su_delivered = []\<rparr>))) = [''1-0'', ''10-0''] \<and>
   distinct (map event_ID (su_delivered (snd (run_state (Subscribe batch_env 5 \<lparr>qe_keys = New [] ''mail'', qe_once = False, qe_closed = False\<rparr> True)
     \<lparr>su_ext = [[], [event_message (StalledEvent ''1-0'' ''7''), event_message (DrainedEvent ''10-0'')]],
      su_reads = [], su_delivered = []\<rparr>))))"
proof
  let ?s = "[[], [event_message (StalledEvent ''1-0'' ''7''), event_message (DrainedEvent ''10-0'')]]"
  let ?r = "run_state (Subscribe batch_env 5 \<lparr>qe_keys = New [] ''mail'', qe_once = False, qe_closed = False\<rparr> True) \<lparr>su_ext = ?s, su_reads = [], su_delivered = []\<rparr>"
  show "map event_ID (su_delivered (snd ?r)) = [''1-0'', ''10-0'']" by code_simp
  show "distinct (map event_ID (su_delivered (snd ?r)))"
    using subscription_in_order [OF batch_contract, of 5 _ ?s "fst ?r" "snd ?r"] by simp
qed

text \<open>
  A queue that is quiet when the subscription starts: every entry is added between two calls of
  XREAD, none during a call.  As long as nothing was delivered each XREAD starts at the end of the
  stream again, so the entries, though added after \<open>Subscribe\<close> was called, are never delivered.
\<close>

definition quiet_env :: "(XMessage list \<times> XMessage list) stream_env" where
  "quiet_env =
     \<lparr>se_poll = (\<lambda>(log, coming). case coming of [] \<Rightarrow> (Closed, (log, [])) | m # ms \<Rightarrow> (Open, (log @ [m], ms))),
      se_ctxErr = (\<lambda>s. (None, s)),
      se_xread = (\<lambda>key l d (log, coming).
         let new = (if l = ''$'' then [] else tl (dropWhile (\<lambda>m. xm_ID m \<noteq> l) log))
         in (if new = [] then Inl RedisNil else Inr [(key, new)], (log, coming))),
      se_handler = (\<lambda>ev s. (None, s))\<rparr>"

theorem quiet_subscription_misses_events:
  "run_state (Subscribe quiet_env 5 \<lparr>qe_keys = New [] ''mail'', qe_once = False, qe_closed = False\<rparr> True)
     \<lparr>su_ext = ([], [event_message (StalledEvent ''1-0'' ''7''), event_message (DrainedEvent ''2-0'')]),
      su_reads = [], su_delivered = []\<rparr> =
   (Some None, \<lparr>su_ext = ([event_message (StalledEvent ''1-0'' ''7''), event_message (DrainedEvent ''2-0'')], []),
      su_reads = [(''$'', []), (''$'', [])], su_delivered = []\<rparr>)"
  by code_simp

text \<open>Calling \<open>Close\<close> a number of times, and an environment that polls a given subscriber.\<close>

fun closeTimes :: "nat \<Rightarrow> QueueEvents \<Rightarrow> QueueEvents outcome" where
  "closeTimes 0 qe = Returns qe"
| "closeTimes (Suc n) qe = (case Close qe of Returns qe' \<Rightarrow> closeTimes n qe' | Panics m \<Rightarrow> Panics m)"

definition polls :: "'s stream_env \<Rightarrow> QueueEvents \<Rightarrow> bool" where
  "polls env qe \<longleftrightarrow> (\<forall>s. \<exists>ctxDone ctxFirst. fst (se_poll env s) = selectPoll ctxDone (qe_closed qe) ctxFirst)"

lemma closeTimes_closed: "qe_once qe \<Longrightarrow> closeTimes n qe = Returns qe"
  by (induction n) (simp_all add: Close_def)

lemma closeTimes_new:
  "0 < n \<Longrightarrow> closeTimes n (NewQueueEvents q) = Returns \<lparr>qe_keys = q_keys q, qe_once = True, qe_closed = True\<rparr>"
  by (cases n) (simp_all add: Close_def closeChan_def NewQueueEvents_def closeTimes_closed)

lemma subscribeBody_not_open:
  assumes "\<And>s. fst (se_poll env s) \<noteq> Open"
  shows "\<exists>e w'. run_state (subscribeBody env key l) w = (Inr e, w') \<and> su_reads w' = su_reads w \<and>
    su_delivered w' = su_delivered w \<and> (e = None \<or> (\<exists>s. e = fst (se_ctxErr env s)))"
proof -
  obtain p s1 where p: "se_poll env (su_ext w) = (p, s1)" by fastforce
  obtain e s2 where e: "se_ctxErr env s1 = (e, s2)" by fastforce
  have "p \<noteq> Open" using assms [of "su_ext w"] p by simp
  then show ?thesis
    using p e by (cases p) (auto simp: subscribeBody_def su_ask_def intro: exI [of _ s1])
qed

text \<open>
  C37: Closing is safe and final: \<open>Close\<close> may be called any number of times without closing the
  channel twice, and after the first call a subscription on that object ends in its next round, at
  whatever entry it stands and without reading or delivering another one, with nil or, when its
  context is done too, with the context's error.
\<close>

theorem closed_subscription_ends:
  assumes "0 < n"
  shows "\<exists>qe'. closeTimes n (NewQueueEvents q) = Returns qe' \<and> (\<forall>env w l fuel. polls env qe' \<longrightarrow>
     (\<exists>e w'. run_state (loop (Suc fuel) (subscribeBody env (Events (qe_keys qe'))) l) w = (Some e, w') \<and>
        su_reads w' = su_reads w \<and> su_delivered w' = su_delivered w \<and>
        (e = None \<or> (\<exists>s. e = fst (se_ctxErr env s)))))"
proof (rule exI [of _ "\<lparr>qe_keys = q_keys q, qe_once = True, qe_closed = True\<rparr>"], intro conjI allI impI)
  let ?qe = "\<lparr>qe_keys = q_keys q, qe_once = True, qe_closed = True\<rparr>"
  show "closeTimes n (NewQueueEvents q) = Returns ?qe" using assms by (rule closeTimes_new)
  fix env :: "'a stream_env" and w l fuel
  assume "polls env ?qe"
  then have "fst (se_poll env s) \<noteq> Open" for s
    by (auto simp: polls_def selectPoll_def dest!: spec [of _ s] split: if_splits)
  from subscribeBody_not_open [OF this] obtain e w' where
    "run_state (subscribeBody env (Events (qe_keys ?qe)) l) w = (Inr e, w')" "su_reads w' = su_reads w"
    "su_delivered w' = su_delivered w" "e = None \<or> (\<exists>s. e = fst (se_ctxErr env s))" by blast
  then show "\<exists>e w'. run_state (loop (Suc fuel) (subscribeBody env (Events (qe_keys ?qe))) l) w = (Some e, w') \<and>
      su_reads w' = su_reads w \<and> su_delivered w' = su_delivered w \<and> (e = None \<or> (\<exists>s. e = fst (se_ctxErr env s)))"
    by (intro exI [of _ e] exI [of _ w']) simp
qed

text \<open>A subscriber that was closed twice, polled without a deadline.\<close>

definition closed_env :: "nat stream_env" where
  "closed_env = \<lparr>se_poll = (\<lambda>s. (Closed, s)), se_ctxErr = (\<lambda>s. (None, s)), se_xread = (\<lambda>k l d s. (Inr [], s)),
     se_handler = (\<lambda>ev s. (None, s))\<rparr>"

theorem closed_subscription_ends_witness:
  "\<exists>qe' w'. closeTimes 2 (NewQueueEvents \<lparr>q_name = ''mail'', q_keys = New [] ''mail''\<rparr>) = Returns qe' \<and>
     run_state (Subscribe closed_env 1 qe' True) \<lparr>su_ext = 0, su_reads = [], su_delivered = []\<rparr> = (Some None, w') \<and>
     su_reads w' = [] \<and> su_delivered w' = []"
proof -
  let ?q = "\<lparr>q_name = ''mail'', q_keys = New [] ''mail''\<rparr>" and ?w = "\<lparr>su_ext = 0, su_reads = [], su_delivered = []\<rparr>"
  obtain qe' where q: "closeTimes 2 (NewQueueEvents ?q) = Returns qe'"
    and ends: "\<And>(env :: nat stream_env) w l fuel. polls env qe' \<Longrightarrow>
      \<exists>e w'. run_state (loop (Suc fuel) (subscribeBody env (Events (qe_keys qe'))) l) w = (Some e, w') \<and>
        su_reads w' = su_reads w \<and> su_delivered w' = su_delivered w \<and> (e = None \<or> (\<exists>s. e = fst (se_ctxErr env s)))"
    using closed_subscription_ends [OF zero_less_numeral, where q = ?q and ?'a = nat] by blast
  have "qe_closed qe'" using q by (auto simp: closeTimes_new)
  then have "polls closed_env qe'" by (auto simp: polls_def selectPoll_def closed_env_def intro: exI [of _ False])
  from ends [OF this, of 0 "''$''" ?w] q show ?thesis by (auto simp: Subscribe_def closed_env_def)
qed

end
