(* ===== verification/Preprocess.thy ===== *)
theory Preprocess
  imports Errors "HOL-Library.Multiset"
begin

text \<open>
  \<open>internal/lua/preprocess.go\<close>: expanding the include directives of the vendored scripts.  A file
  is its bytes; the embedded file system is a parameter.  The regular expression
  \<open>(?m)^\s*---\s*@include\s+"([^"]+)"\s*$\<close> is a matcher with Go's leftmost-first meaning: all its parts
  but the last are forced, and the trailing white space is the longest run that ends a line.
  Slice expressions that are out of range panic.
\<close>

section \<open>The directive\<close>

definition newline :: char where
  "newline = CHR 0x0A"

definition is_space :: "char \<Rightarrow> bool" where
  "is_space c \<longleftrightarrow> c \<in> {CHR 0x09, CHR 0x0A, CHR 0x0C, CHR 0x0D, CHR '' ''}"

text \<open>The longest white space at the front of \<open>s\<close> that is followed by an end of line.\<close>

fun space_to_eol :: "string \<Rightarrow> nat option" where
  "space_to_eol [] = Some 0"
| "space_to_eol (c # s) =
     (case (if is_space c then space_to_eol s else None) of
        Some n \<Rightarrow> Some (Suc n)
      | None \<Rightarrow> if c = newline then Some 0 else None)"

definition strip_literal :: "string \<Rightarrow> string \<Rightarrow> string option" where
  "strip_literal p s = (if HasPrefix s p then Some (drop (length p) s) else None)"

text \<open>
  A match at the front of \<open>s\<close>, which stands at the beginning of a line: where the captured path
  starts, its length, and where the match ends, all relative to \<open>s\<close>.
\<close>

definition match_directive :: "string \<Rightarrow> (nat \<times> nat \<times> nat) option" where
  "match_directive s =
     (case strip_literal ''---'' (dropWhile is_space s) of
        None \<Rightarrow> None
      | Some s1 \<Rightarrow> (case strip_literal ''@include'' (dropWhile is_space s1) of
          None \<Rightarrow> None
        | Some s2 \<Rightarrow>
            if s2 = [] \<or> \<not> is_space (hd s2) then None
            else (case strip_literal [CHR 0x22] (dropWhile is_space s2) of
                None \<Rightarrow> None
              | Some s3 \<Rightarrow>
                  let ref = takeWhile (\<lambda>c. c \<noteq> CHR 0x22) s3; s4 = drop (length ref) s3
                  in if ref = [] \<or> s4 = [] then None
                     else (case space_to_eol (tl s4) of
                         None \<Rightarrow> None
                       | Some n \<Rightarrow> Some (length s - length s3, length ref, length s - length (tl s4) + n)))))"

text \<open>
  The leftmost match at or after the front of \<open>s\<close>; \<open>bol\<close> says whether \<open>s\<close> stands at the beginning of
  a line, \<open>pos\<close> is the position of \<open>s\<close> in the file.  A match is \<open>[fullStart, fullEnd, groupStart,
  groupEnd]\<close>.
\<close>

fun find_match :: "bool \<Rightarrow> nat \<Rightarrow> string \<Rightarrow> (nat \<times> nat \<times> nat \<times> nat) option" where
  "find_match bol pos s =
     (case (if bol then match_directive s else None) of
        Some (g, l, e) \<Rightarrow> Some (pos, pos + e, pos + g, pos + g + l)
      | None \<Rightarrow> (case s of [] \<Rightarrow> None | c # s' \<Rightarrow> find_match (c = newline) (Suc pos) s'))"

declare find_match.simps [simp del]

text \<open>
  \<open>FindAllSubmatchIndex\<close>: the search goes on where the last match ended.  A match is not empty, so
  as many searches as the file has bytes are enough.
\<close>

fun find_all :: "nat \<Rightarrow> string \<Rightarrow> nat \<Rightarrow> (nat \<times> nat \<times> nat \<times> nat) list" where
  "find_all 0 data pos = []"
| "find_all (Suc n) data pos =
     (case find_match (pos = 0 \<or> data ! (pos - 1) = newline) pos (drop pos data) of
        None \<Rightarrow> []
      | Some m \<Rightarrow> m # find_all n data (fst (snd m)))"

definition FindAllSubmatchIndex :: "string \<Rightarrow> (nat \<times> nat \<times> nat \<times> nat) list" where
  "FindAllSubmatchIndex data = find_all (Suc (length data)) data 0"

section \<open>Paths\<close>

definition slash :: char where
  "slash = CHR ''/''"

fun split_path :: "string \<Rightarrow> string list" where
  "split_path [] = [[]]"
| "split_path (c # s) = (if c = slash then [] # split_path s
     else (case split_path s of [] \<Rightarrow> [[c]] | w # ws \<Rightarrow> (c # w) # ws))"

fun join_path :: "string list \<Rightarrow> string" where
  "join_path [] = []"
| "join_path [w] = w"
| "join_path (w # ws) = w @ slash # join_path ws"

text \<open>\<open>path.Clean\<close>, element by element; the result so far is reversed.\<close>

definition clean_step :: "bool \<Rightarrow> string \<Rightarrow> string list \<Rightarrow> string list" where
  "clean_step rooted w out =
     (if w = [] \<or> w = ''.'' then out
      else if w = ''..'' then
        (case out of
           [] \<Rightarrow> if rooted then [] else [w]
         | v # vs \<Rightarrow> if v = ''..'' then w # out else vs)
      else w # out)"

definition Clean :: "string \<Rightarrow> string" where
  "Clean p =
     (let rooted = HasPrefix p [slash];
          body = join_path (rev (fold (clean_step rooted) (split_path p) []))
      in if rooted then slash # body else if body = [] then ''.'' else body)"

definition Join2 :: "string \<Rightarrow> string \<Rightarrow> string" where
  "Join2 a b = (if a = [] then (if b = [] then [] else Clean b) else if b = [] then Clean a else Clean (a @ slash # b))"

definition Dir :: "string \<Rightarrow> string" where
  "Dir p = Clean (rev (dropWhile (\<lambda>c. c \<noteq> slash) (rev p)))"

section \<open>Expansion\<close>

definition scriptsRoot :: string where
  "scriptsRoot = ''scripts''"

definition maxIncludeDepth :: nat where
  "maxIncludeDepth = 32"

type_synonym file_system = "string \<Rightarrow> goerr + string"

definition resolveInclude :: "string \<Rightarrow> string \<Rightarrow> goerr + string" where
  "resolveInclude dir ref =
     (if HasPrefix ref [slash] \<or> Contains ref ''..'' then
        Inl (PlainErr (''lua include reference escapes scripts root: '' @ [CHR 0x22] @ ref @ [CHR 0x22]))
      else let target = Clean (Join2 dir ref) @ ''.lua'' in
        if \<not> HasPrefix target (scriptsRoot @ [slash]) then
          Inl (PlainErr (''lua include resolved outside scripts root: '' @ [CHR 0x22] @ ref @ [CHR 0x22] @
            '' -> '' @ [CHR 0x22] @ target @ [CHR 0x22]))
        else Inr target)"

text \<open>The buffer and the files inlined so far; an error leaves the expansion at once.\<close>

type_synonym expansion = "(goerr + (string \<times> string list)) outcome"

text \<open>
  The loop of \<open>expand\<close> over the matches.  \<open>rec\<close> expands an included file with the state so far;
  \<open>stack\<close> contains the file itself.
\<close>

fun expandLoop ::
  "(string \<Rightarrow> string \<Rightarrow> string list \<Rightarrow> expansion) \<Rightarrow> string \<Rightarrow> string list \<Rightarrow> string \<Rightarrow>
     (nat \<times> nat \<times> nat \<times> nat) list \<Rightarrow> nat \<Rightarrow> string \<Rightarrow> string list \<Rightarrow> expansion" where
  "expandLoop rec filePath stack data [] cursor buf included =
     (case go_slice data (int cursor) (int (length data)) of
        Panics m \<Rightarrow> Panics m
      | Returns rest \<Rightarrow> Returns (Inr (buf @ rest, included)))"
| "expandLoop rec filePath stack data ((fullStart, fullEnd, groupStart, groupEnd) # ms) cursor buf included =
     (case go_slice data (int cursor) (int fullStart) of
        Panics m \<Rightarrow> Panics m
      | Returns before \<Rightarrow>
          (let ref = take (groupEnd - groupStart) (drop groupStart data);
               cursor' = (if fullEnd < length data \<and> data ! fullEnd = newline then Suc fullEnd else fullEnd)
           in case resolveInclude (Dir filePath) ref of
                Inl err \<Rightarrow> Returns (Inl err)
              | Inr target \<Rightarrow>
                  if target \<in> set stack then
                    Returns (Inl (PlainErr (''lua include cycle detected at '' @ filePath @ '' -> '' @ target)))
                  else if target \<in> set included then
                    expandLoop rec filePath stack data ms cursor' (buf @ before) included
                  else (case rec target (buf @ before) (target # included) of
                      Panics m \<Rightarrow> Panics m
                    | Returns (Inl err) \<Rightarrow> Returns (Inl err)
                    | Returns (Inr (buf', included')) \<Rightarrow>
                        expandLoop rec filePath stack data ms cursor' buf' included')))"

text \<open>
  \<open>expand\<close>, with the number of levels left as first argument (\<open>maxIncludeDepth + 1 - depth\<close>): none
  left is \<open>depth > maxIncludeDepth\<close>.
\<close>

fun expand :: "nat \<Rightarrow> file_system \<Rightarrow> string \<Rightarrow> string list \<Rightarrow> string \<Rightarrow> string list \<Rightarrow> expansion" where
  "expand 0 fsys filePath stack buf included =
     Returns (Inl (PlainErr (''lua include depth exceeded '' @ fmt_nat maxIncludeDepth @ '' at '' @ filePath)))"
| "expand (Suc levels) fsys filePath stack buf included =
     (if filePath \<in> set stack then Returns (Inl (PlainErr (''lua include cycle detected at '' @ filePath)))
      else case fsys filePath of
          Inl err \<Rightarrow> Returns (Inl (errorf (''read lua '' @ filePath @ '': '') err))
        | Inr data \<Rightarrow>
            expandLoop (\<lambda>target buf included. expand levels fsys target (filePath # stack) buf included)
              filePath (filePath # stack) data (FindAllSubmatchIndex data) 0 buf included)"

definition preprocess :: "file_system \<Rightarrow> string \<Rightarrow> (goerr + string) outcome" where
  "preprocess fsys name =
     (case expand (Suc maxIncludeDepth) fsys (Join2 scriptsRoot (name @ ''.lua'')) [] [] [] of
        Panics m \<Rightarrow> Panics m
      | Returns (Inl err) \<Rightarrow> Returns (Inl err)
      | Returns (Inr (buf, included)) \<Rightarrow> Returns (Inr buf))"

section \<open>Lemmas\<close>

text \<open>
  The directives of a file: where the text goes on after a match, the file's own text (all of it
  but the directives), and the files its directives name.
\<close>

definition after_match :: "string \<Rightarrow> nat \<times> nat \<times> nat \<times> nat \<Rightarrow> nat" where
  "after_match data m = (case m of (fullStart, fullEnd, groupStart, groupEnd) \<Rightarrow>
     if fullEnd < length data \<and> data ! fullEnd = newline then Suc fullEnd else fullEnd)"

fun own_text :: "string \<Rightarrow> (nat \<times> nat \<times> nat \<times> nat) list \<Rightarrow> nat \<Rightarrow> string" where
  "own_text data [] cursor = drop cursor data"
| "own_text data (m # ms) cursor = take (fst m - cursor) (drop cursor data) @ own_text data ms (after_match data m)"

definition target :: "string \<Rightarrow> string \<Rightarrow> nat \<times> nat \<times> nat \<times> nat \<Rightarrow> goerr + string" where
  "target filePath data m = (case m of (fullStart, fullEnd, groupStart, groupEnd) \<Rightarrow>
     resolveInclude (Dir filePath) (take (groupEnd - groupStart) (drop groupStart data)))"

definition own :: "file_system \<Rightarrow> string \<Rightarrow> string" where
  "own fsys f = (case fsys f of Inl e \<Rightarrow> [] | Inr data \<Rightarrow> own_text data (FindAllSubmatchIndex data) 0)"

text \<open>
  A list of files in which every file is readable, occurs once and comes after all the files its
  directives name; \<open>D\<close> are the files that came before.
\<close>

fun layered :: "file_system \<Rightarrow> string set \<Rightarrow> string list \<Rightarrow> bool" where
  "layered fsys D [] \<longleftrightarrow> True"
| "layered fsys D (f # fs) \<longleftrightarrow> f \<notin> D \<and>
     (\<exists>data. fsys f = Inr data \<and> (\<forall>m \<in> set (FindAllSubmatchIndex data). \<exists>t \<in> D. target f data m = Inr t)) \<and>
     layered fsys (insert f D) fs"

lemma layered_append: "layered fsys D (xs @ ys) \<longleftrightarrow> layered fsys D xs \<and> layered fsys (D \<union> set xs) ys"
  by (induction xs arbitrary: D) auto

lemma layered_distinct: "layered fsys D fs \<Longrightarrow> distinct fs \<and> set fs \<inter> D = {}"
  by (induction fs arbitrary: D) auto

definition texts :: "file_system \<Rightarrow> string list \<Rightarrow> char multiset" where
  "texts fsys fs = mset (concat (map (own fsys) fs))"

lemma texts_simps [simp]: "texts fsys [] = {#}" "texts fsys (xs @ ys) = texts fsys xs + texts fsys ys"
  "texts fsys (f # fs) = mset (own fsys f) + texts fsys fs"
  by (simp_all add: texts_def)

text \<open>
  What inlining means, in order.  \<open>inlines fsys D f out fin\<close>: with the files \<open>D\<close> already in the output,
  the text of \<open>f\<close> with its directives replaced is \<open>out\<close>, and the files whose text it contains were
  finished in the order \<open>fin\<close>.  \<open>inlines_rest\<close> is the rest of a file from \<open>cursor\<close> on: the text before
  the next directive comes first, then the named file unless it is in the output already, then
  what follows the line of the directive.
\<close>

inductive inlines :: "file_system \<Rightarrow> string set \<Rightarrow> string \<Rightarrow> string \<Rightarrow> string list \<Rightarrow> bool"
  and inlines_rest :: "file_system \<Rightarrow> string set \<Rightarrow> string \<Rightarrow> string \<Rightarrow> (nat \<times> nat \<times> nat \<times> nat) list \<Rightarrow> nat \<Rightarrow> string \<Rightarrow>
    string list \<Rightarrow> bool"
  for fsys where
  whole: "fsys f = Inr data \<Longrightarrow> inlines_rest fsys D f data (FindAllSubmatchIndex data) 0 out fin \<Longrightarrow>
     inlines fsys D f out (fin @ [f])"
| ending: "inlines_rest fsys D f data [] cursor (drop cursor data) []"
| again: "target f data m = Inr t \<Longrightarrow> t \<in> D \<Longrightarrow> inlines_rest fsys D f data ms (after_match data m) out fin \<Longrightarrow>
     inlines_rest fsys D f data (m # ms) cursor (take (fst m - cursor) (drop cursor data) @ out) fin"
| first: "target f data m = Inr t \<Longrightarrow> t \<notin> D \<Longrightarrow> inlines fsys D t mid fin \<Longrightarrow>
     inlines_rest fsys (D \<union> set fin) f data ms (after_match data m) out fin' \<Longrightarrow>
     inlines_rest fsys D f data (m # ms) cursor (take (fst m - cursor) (drop cursor data) @ mid @ out) (fin @ fin')"

inductive_cases inlines_fileE: "inlines fsys D f out fin"
inductive_cases inlines_doneE: "inlines_rest fsys D f data [] cursor out fin"
inductive_cases inlines_nextE: "inlines_rest fsys D f data (m # ms) cursor out fin"

text \<open>There is one such text for a file, and it consists of the own texts of the files in \<open>fin\<close>.\<close>

lemma inlines_unique:
  "inlines fsys D f out fin \<Longrightarrow> inlines fsys D f out' fin' \<Longrightarrow> out' = out \<and> fin' = fin"
  "inlines_rest fsys D f data ms cursor out fin \<Longrightarrow> inlines_rest fsys D f data ms cursor out' fin' \<Longrightarrow> out' = out \<and> fin' = fin"
proof (induction arbitrary: out' fin' and out' fin' rule: inlines_inlines_rest.inducts)
  case (whole f data D out fin)
  from whole(4) whole(1) show ?case by (elim inlines_fileE) (auto dest: whole(3))
next
  case (ending D f data cursor)
  then show ?case by (elim inlines_doneE) simp
next
  case (again f data m t D ms out fin cursor)
  from again(5) again(1,2) show ?case by (elim inlines_nextE) (auto dest: again(4))
next
  case (first f data m t D mid fin ms out fin2 cursor)
  from first(7) show ?case
  proof (rule inlines_nextE)
    fix t' mid' fin1 out1 fin1'
    assume n: "out' = take (fst m - cursor) (drop cursor data) @ mid' @ out1" "fin' = fin1 @ fin1'" "target f data m = Inr t'"
      "inlines fsys D t' mid' fin1" "inlines_rest fsys (D \<union> set fin1) f data ms (after_match data m) out1 fin1'"
    from n(3,4) first(1,4) have "mid' = mid" "fin1 = fin" by auto
    with n first(6) show ?thesis by auto
  qed (use first(1,2) in auto)
qed

lemma inlines_texts:
  "inlines fsys D f out fin \<Longrightarrow> mset out = texts fsys fin"
  "inlines_rest fsys D f data ms cursor out fin \<Longrightarrow> mset out = texts fsys fin + mset (own_text data ms cursor)"
  by (induction rule: inlines_inlines_rest.inducts) (simp_all add: own_def ac_simps)

lemma go_slice_Returns: "go_slice s i j = Returns t \<Longrightarrow> t = take (nat (j - i)) (drop (nat i) s)"
  by (simp add: go_slice_def split: if_splits)

lemma expandLoop_Cons:
  assumes "expandLoop rec f st data (m # ms) cursor buf inc = Returns (Inr (buf', inc'))"
  obtains t where "target f data m = Inr t" "t \<notin> set st" "t \<in> set inc"
      "expandLoop rec f st data ms (after_match data m) (buf @ take (fst m - cursor) (drop cursor data)) inc = Returns (Inr (buf', inc'))"
    | t b1 i1 where "target f data m = Inr t" "t \<notin> set st" "t \<notin> set inc"
      "rec t (buf @ take (fst m - cursor) (drop cursor data)) (t # inc) = Returns (Inr (b1, i1))"
      "expandLoop rec f st data ms (after_match data m) b1 i1 = Returns (Inr (buf', inc'))"
proof -
  obtain a b g e where m: "m = (a, b, g, e)" by (cases m)
  from assms obtain pre where pre: "go_slice data (int cursor) (int a) = Returns pre"
    by (auto simp: m split: outcome.splits)
  with go_slice_Returns [OF pre] have p: "go_slice data (int cursor) (int a) = Returns (take (a - cursor) (drop cursor data))"
    by (simp add: nat_diff_distrib')
  from assms p obtain t where t: "target f data m = Inr t" "t \<notin> set st"
    by (auto simp: m target_def Let_def split: sum.splits if_splits)
  show ?thesis
  proof (cases "t \<in> set inc")
    case True
    with assms t p that(1) [of t] show ?thesis
      by (simp add: m target_def after_match_def Let_def)
  next
    case False
    with assms t p that(2) [of t] show ?thesis
      by (auto simp: m target_def after_match_def Let_def split: outcome.splits sum.splits)
  qed
qed

text \<open>
  What an expansion that succeeds has done: after the files \<open>D\<close> that were finished before, the
  new ones follow in the order they were finished, each once, and the inlined text was appended to
  the buffer.  While it runs, the files inlined so far are finished or on the stack.
\<close>

definition expands ::
  "file_system \<Rightarrow> string list \<Rightarrow> (string \<Rightarrow> string \<Rightarrow> string list \<Rightarrow> expansion) \<Rightarrow> bool" where
  "expands fsys stack rec \<longleftrightarrow> (\<forall>f buf inc buf' inc' D.
     rec f buf inc = Returns (Inr (buf', inc')) \<and> D \<subseteq> set inc \<and> set inc \<subseteq> D \<union> set stack \<union> {f} \<and>
     D \<inter> set stack = {} \<and> f \<notin> D \<longrightarrow>
     (\<exists>fin out. layered fsys D (fin @ [f]) \<and> set inc' = set inc \<union> set fin \<and> set fin \<inter> set (f # stack) = {} \<and>
        inlines fsys D f out (fin @ [f]) \<and> buf' = buf @ out))"

text \<open>The file a directive names is finished after its own directives, and the rest of the loop follows.\<close>

lemma join_finished:
  assumes "layered fsys D (fin @ [t])" "set i1 = set (t # inc) \<union> set fin" "set fin \<inter> set (t # st) = {}" "t \<notin> set st"
    and "layered fsys (D \<union> set (fin @ [t])) fin'" "set inc' = set i1 \<union> set fin'" "set fin' \<inter> set st = {}"
  shows "layered fsys D ((fin @ [t]) @ fin')" "set inc' = set inc \<union> set ((fin @ [t]) @ fin')"
    "set ((fin @ [t]) @ fin') \<inter> set st = {}"
proof -
  show "layered fsys D ((fin @ [t]) @ fin')" using assms(1,5) unfolding layered_append by simp
qed (use assms in auto)

lemma expandLoop_spec:
  assumes rec: "expands fsys st rec"
    and run: "expandLoop rec f st data ms cursor buf inc = Returns (Inr (buf', inc'))"
    and inv: "D \<subseteq> set inc" "set inc \<subseteq> D \<union> set st" "D \<inter> set st = {}"
  shows "\<exists>fin out. layered fsys D fin \<and> set inc' = set inc \<union> set fin \<and> set fin \<inter> set st = {} \<and>
    inlines_rest fsys D f data ms cursor out fin \<and> buf' = buf @ out \<and>
    (\<forall>m \<in> set ms. \<exists>t \<in> D \<union> set fin. target f data m = Inr t)"
  using run inv
proof (induction ms arbitrary: cursor buf inc D)
  case Nil
  from Nil.prems(1) obtain rest where "go_slice data (int cursor) (int (length data)) = Returns rest"
    "buf' = buf @ rest" "inc' = inc" by (auto split: outcome.splits)
  with go_slice_Returns [OF this(1)] ending [of fsys D f data cursor] show ?case
    by (intro exI [of _ "[]"] exI [of _ "drop cursor data"]) (simp add: nat_diff_distrib')
next
  case (Cons m ms)
  let ?pre = "take (fst m - cursor) (drop cursor data)" and ?next = "after_match data m"
  from Cons.prems(1) show ?case
  proof (cases rule: expandLoop_Cons)
    case (1 t)
    from Cons.IH [OF 1(4) Cons.prems(2-4)] obtain fin out where fin: "layered fsys D fin" "set inc' = set inc \<union> set fin"
      "set fin \<inter> set st = {}" "inlines_rest fsys D f data ms ?next out fin" "buf' = (buf @ ?pre) @ out"
      "\<forall>m \<in> set ms. \<exists>t \<in> D \<union> set fin. target f data m = Inr t" by blast
    have t: "t \<in> D" using 1(2,3) Cons.prems(3) by blast
    from fin 1(1) t inlines_inlines_rest.again [OF 1(1) t fin(4)] show ?thesis
      by (intro exI [of _ fin] exI [of _ "?pre @ out"]) auto
  next
    case (2 t b1 i1)
    from Cons.prems(2) 2(3) have tD: "t \<notin> D" by blast
    have "D \<subseteq> set (t # inc)" "set (t # inc) \<subseteq> D \<union> set st \<union> {t}" using Cons.prems by auto
    with rec 2(4) Cons.prems(4) tD obtain fin mid where fin: "layered fsys D (fin @ [t])" "set i1 = set (t # inc) \<union> set fin"
      "set fin \<inter> set (t # st) = {}" "inlines fsys D t mid (fin @ [t])" "b1 = (buf @ ?pre) @ mid"
      unfolding expands_def by (metis (no_types, lifting))
    let ?D = "D \<union> set (fin @ [t])"
    have "?D \<subseteq> set i1" "set i1 \<subseteq> ?D \<union> set st" "?D \<inter> set st = {}" using fin(2,3) 2(2) Cons.prems(2-4) by auto
    from Cons.IH [OF 2(5) this] obtain fin' out where fin': "layered fsys ?D fin'" "set inc' = set i1 \<union> set fin'"
      "set fin' \<inter> set st = {}" "inlines_rest fsys ?D f data ms ?next out fin'" "buf' = b1 @ out"
      "\<forall>m \<in> set ms. \<exists>t \<in> ?D \<union> set fin'. target f data m = Inr t" by blast
    from join_finished [OF fin(1-3) 2(2) fin'(1-3)] fin'(5,6) fin(5) 2(1)
      inlines_inlines_rest.first [OF 2(1) tD fin(4) fin'(4), of cursor]
    show ?thesis by (intro exI [of _ "(fin @ [t]) @ fin'"] exI [of _ "?pre @ mid @ out"]) auto
  qed
qed

lemma expand_spec: "expands fsys stack (\<lambda>f buf inc. expand levels fsys f stack buf inc)"
proof (induction levels arbitrary: stack)
  case 0
  then show ?case by (simp add: expands_def)
next
  case (Suc levels)
  show ?case
    unfolding expands_def
  proof (intro allI impI, elim conjE)
    fix f buf inc buf' inc' D
    assume run: "expand (Suc levels) fsys f stack buf inc = Returns (Inr (buf', inc'))"
      and inv: "D \<subseteq> set inc" "set inc \<subseteq> D \<union> set stack \<union> {f}" "D \<inter> set stack = {}" "f \<notin> D"
    from run obtain data where d: "f \<notin> set stack" "fsys f = Inr data"
      "expandLoop (\<lambda>t buf included. expand levels fsys t (f # stack) buf included) f (f # stack) data
         (FindAllSubmatchIndex data) 0 buf inc = Returns (Inr (buf', inc'))"
      by (auto split: if_splits sum.splits)
    have "set inc \<subseteq> D \<union> set (f # stack)" "D \<inter> set (f # stack) = {}" using inv by auto
    from expandLoop_spec [OF Suc.IH d(3) inv(1) this] obtain fin out where fin: "layered fsys D fin"
      "set inc' = set inc \<union> set fin" "set fin \<inter> set (f # stack) = {}"
      "inlines_rest fsys D f data (FindAllSubmatchIndex data) 0 out fin" "buf' = buf @ out"
      "\<forall>m \<in> set (FindAllSubmatchIndex data). \<exists>t \<in> D \<union> set fin. target f data m = Inr t" by blast
    have "layered fsys D (fin @ [f])" using fin(1,3,6) d(2) inv(4) by (simp add: layered_append)
    with inlines_inlines_rest.whole [OF d(2) fin(4)] fin(2,3,5)
    show "\<exists>fin out. layered fsys D (fin @ [f]) \<and> set inc' = set inc \<union> set fin \<and>
        set fin \<inter> set (f # stack) = {} \<and> inlines fsys D f out (fin @ [f]) \<and> buf' = buf @ out"
      by blast
  qed
qed

section \<open>Properties\<close>

text \<open>
  C19: A script that is preprocessed successfully is its text with every directive line replaced, in
  place, by the text of the file it names, itself preprocessed the same way, the first time the
  file is named, and by nothing later on (\<open>inlines\<close>, which determines the text).  The include graph
  has no cycle: the files are readable, each is inlined once and after all the files its own
  directives name, and the script comes last; the output consists of exactly the own texts of
  these files.
\<close>

theorem preprocess_inlines_once:
  assumes "preprocess fsys name = Returns (Inr out)"
  shows "\<exists>fs. inlines fsys {} (Join2 scriptsRoot (name @ ''.lua'')) out fs \<and> layered fsys {} fs \<and> distinct fs \<and>
    fs \<noteq> [] \<and> last fs = Join2 scriptsRoot (name @ ''.lua'') \<and> mset out = mset (concat (map (own fsys) fs))"
proof -
  let ?e = "Join2 scriptsRoot (name @ ''.lua'')"
  from assms obtain inc where "expand (Suc maxIncludeDepth) fsys ?e [] [] [] = Returns (Inr (out, inc))"
    by (auto simp: preprocess_def simp del: expand.simps split: outcome.splits sum.splits)
  moreover note expand_spec [of fsys "[]" "Suc maxIncludeDepth", unfolded expands_def, rule_format, of ?e "[]" "[]" out inc "{}"]
  ultimately obtain fin where "layered fsys {} (fin @ [?e])" "inlines fsys {} ?e out (fin @ [?e])"
    by (auto simp del: expand.simps)
  with layered_distinct [of fsys "{}" "fin @ [?e]"] inlines_texts(1) [of fsys "{}" ?e out "fin @ [?e]"] show ?thesis
    by (intro exI [of _ "fin @ [?e]"]) (simp add: texts_def)
qed

text \<open>A directive line, and a script with two of them whose files share a third one.\<close>

definition directive :: "string \<Rightarrow> string" where
  "directive ref = ''--- @include '' @ [CHR 0x22] @ ref @ [CHR 0x22, newline]"

definition shared_fs :: file_system where
  "shared_fs f =
     (if f = ''scripts/main.lua'' then Inr (''k;'' @ [newline] @ directive ''includes/a'' @ directive ''includes/b'' @ ''m'')
      else if f = ''scripts/includes/a.lua'' then Inr (directive ''shared'' @ ''a'')
      else if f = ''scripts/includes/b.lua'' then Inr (directive ''shared'' @ ''b'')
      else if f = ''scripts/includes/shared.lua'' then Inr ''s''
      else Inl (PlainErr ''file does not exist''))"

theorem preprocess_inlines_once_witness:
  "preprocess shared_fs ''main'' = Returns (Inr (''k;'' @ [newline] @ ''sabm'')) \<and>
   (\<exists>fs. inlines shared_fs {} ''scripts/main.lua'' (''k;'' @ [newline] @ ''sabm'') fs \<and> layered shared_fs {} fs \<and> distinct fs)"
proof -
  have p: "preprocess shared_fs ''main'' = Returns (Inr (''k;'' @ [newline] @ ''sabm''))" by code_simp
  have "Join2 scriptsRoot (''main'' @ ''.lua'') = ''scripts/main.lua''" by code_simp
  with p preprocess_inlines_once [OF p] show ?thesis by auto
qed

text \<open>
  Two directives with a blank line between them make \<open>expand\<close> panic: the trailing white space of
  the first match takes the line break that ends its line, the second match starts with the blank
  line, and the cursor has already been moved past it.
\<close>

definition blank_line_fs :: file_system where
  "blank_line_fs f =
     (if f = ''scripts/main.lua'' then Inr (directive ''includes/a'' @ [newline] @ directive ''includes/b'')
      else Inr ''x'')"

theorem blank_line_between_directives_panics:
  "preprocess blank_line_fs ''main'' = Panics ''slice bounds out of range''"
  by code_simp

end
