(* ===== verification/Spec2Isabelle.thy ===== *)
theory Spec2Isabelle
  imports Scenario Opts_Trip Heartbeat Observability Bench Admin Events_Stream Preprocess
begin

text \<open>
  A verification development of mkq, a job queue over Redis that speaks BullMQ's wire format.

  \<^bold>\<open>The program.\<close>  A \<^emph>\<open>client\<close> (\<open>mkq.go\<close>) owns the Redis connection and the \<^emph>\<open>scripter\<close>
  (\<open>internal/lua/loader.go\<close>), which runs the vendored Lua scripts that its \<^emph>\<open>preprocessor\<close>
  (\<open>preprocess.go\<close>) has put together.  A \<^emph>\<open>queue\<close> (\<open>queue.go\<close>) adds jobs: options (\<open>options.go\<close>)
  become a payload (\<open>internal/proto\<close>) and one script call with keys of the shared layout
  (\<open>internal/keys\<close>).  A \<^emph>\<open>worker\<close> (\<open>worker.go\<close>) runs dispatchers that take jobs, run the user's
  handler under a lock kept alive by a heartbeat, and make one terminal call per job, chosen by the
  retry policy (\<open>backoff.go\<close>); it also recovers stalled jobs, adds the next iteration of recurring
  schedules (\<open>schedule.go\<close>, \<open>cron.go\<close>), and is stopped or drained.  \<^emph>\<open>Inspectors\<close> (\<open>inspector.go\<close>,
  \<open>inspector_list.go\<close>, \<open>inspector_admin.go\<close>, \<open>job_mutation.go\<close>, \<open>queue_metrics.go\<close>) read and change a
  queue from the outside, and \<^emph>\<open>subscribers\<close> (\<open>events.go\<close>) follow its event stream.  What happens is
  told to the backends a client was given (\<open>observability.go\<close> and the adapters under
  \<open>observability/\<close>).

  \<^bold>\<open>The model.\<close>  Stateful code is a state monad action on a \<open>world\<close>: the external state, the table
  of loaded scripts, and the trace of what the code did.  Redis, the clock, random numbers, contexts
  and user callbacks are the functions of a \<open>services\<close> record, about which nothing is assumed unless
  a theorem says so; \<open>does m Q\<close> states that whatever they answer, the result of \<open>m\<close> and the events it
  appends satisfy \<open>Q\<close>.  Integers are \<open>int\<close> with the 64-bit wrap-around written out, errors are
  values, panics are values of \<open>outcome\<close>, and a loop without a bound of its own takes fuel.

  \<^bold>\<open>The theories.\<close>
  \<^item> \<open>Mkq_Prelude\<close>, \<open>Errors\<close>, \<open>Go_Float\<close>, \<open>Json\<close>, \<open>Env\<close>: the language and its library, the
    contracts \<open>codec\<close>, \<open>bounded_loop\<close> and \<open>trace_law\<close> (locales), the world and the rules for \<open>does\<close>.
  \<^item> \<open>Keys\<close>: the key layout.  A queue's own keys do not collide and are no keys of another queue; the
    keys of jobs are shared exactly between names of which one continues the other after a colon.
  \<^item> \<open>Options\<close>, \<open>Proto\<close>, \<open>JobOpts\<close>, \<open>Replies\<close>: what goes over the wire and how it is read back.
    Round trips of replies, failure history and templates; pooled encoders do not leak.
  \<^item> \<open>Opts_Trip\<close>: the options given to \<open>Add\<close> are what the worker reads back.
  \<^item> \<open>Scripts\<close>: \<open>Scripter.Run\<close> sends a call at most twice, the second time only after NOSCRIPT.
  \<^item> \<open>Flight\<close>: any number of goroutines in \<open>Run\<close> as a step relation over the shared table with its
    read-write lock and the singleflight group, a parameter with its documented contract.  A script
    is uploaded by one of them at a time, the table is not read while it is written, each gets the
    answer to its own call or the error of loading its own script, and each can come back; a caller
    that is alone behaves as in \<open>Scripts\<close>.
  \<^item> \<open>Preprocess\<close>: the include expansion refines a big-step relation of in-place inlining, and inlines
    every file once, after what it includes.
  \<^item> \<open>Backoff\<close>, \<open>Retry\<close>, \<open>Finalise\<close>: the delay of a retry with its saturation and jitter, the policy,
    and \<open>finalise\<close>, which carries the policy out by one script call and sends a job back only while
    attempts are left.
  \<^item> \<open>Cron\<close>, \<open>Schedule\<close>: pattern validation with a cache that is invisible, the upserts with the
    fields they send, and \<open>rescheduleNext\<close>, which calls exactly when the stored fields say that an
    iteration is due.
  \<^item> \<open>Dispatch\<close>, \<open>Dispatcher\<close>: a job from acquisition to settlement, and the dispatcher's loop over
    many jobs: its ledger balances, its calls are well keyed, its idle wait stays in range.  The
    locale \<open>dispatcher_law\<close> says what the parts of a dispatcher owe for a law to hold of its trace;
    the stalled-jobs loop scans once per round until the shutdown.
  \<^item> \<open>Heartbeat\<close>: the goroutines of \<open>processJob\<close> as a step relation, their own steps (\<open>job_own\<close>) kept
    apart from those of \<open>Stop\<close> and of others.  The sequential model of \<open>Dispatch\<close> is one of the
    interleavings, every interleaving settles the job in the same way, the lock is never extended
    behind the terminal call, and from every point the own steps alone lead to the end.
  \<^item> \<open>Lifecycle\<close>: \<open>Process\<close>, and \<open>Stop\<close> and \<open>Drain\<close> as a step relation with any number of callers.
  \<^item> \<open>Queue_Add\<close>, \<open>Client\<close>: adding and reading jobs; connecting, which leaves no open pool behind an
    error, and discovering queues.
  \<^item> \<open>Inspector\<close>, \<open>Admin\<close>: counts, listings, administration, job mutation and metrics.
  \<^item> \<open>Events_Stream\<close>: the event decoder, the subscription loop and \<open>Close\<close>.
  \<^item> \<open>Observability\<close>: the adapters for Prometheus, OpenTelemetry and slog, and the no-ops.  Signals
    reach their collectors with the declared labels, spans are well formed, the gauge returns.
  \<^item> \<open>Bench\<close>: the benchmark's loops, handlers, figures, modes and \<open>main\<close>.
  \<^item> \<open>Scenario\<close>: concrete services and worlds for the witnesses.
  This theory holds the properties that span components.

  \<^bold>\<open>Fuel.\<close>  \<open>dispatchLoop\<close>, \<open>stalledLoop\<close> and \<open>Subscribe\<close> run until they are stopped: their theorems
  hold for every fuel, and after a shutdown two rounds are shown to be enough for a dispatcher.
  \<open>Pause\<close> and \<open>Resume\<close> get the 100 rounds the code allows, which are shown to be enough; SCAN loops
  return with any fuel above the distance its cursor has to go; include expansion is bounded by the
  depth limit of the code; the JSON parser gets more fuel than the text is long.

  \<^bold>\<open>Not modelled.\<close>  What the Lua scripts do inside Redis (vendored third-party code); the connection
  pool and cluster routing inside the driver; the inside of the singleflight group; the
  serialisation of payload trees to msgpack bytes, with the aliasing of pooled buffers; what Prometheus, OpenTelemetry and slog do with
  the calls the adapters make; the interleaving of several dispatchers with each other
  below the level of their calls (other goroutines only change what the services answer); the parsing
  of the benchmark's flags and the bytes of its output.
\<close>

section \<open>The worker\<close>

text \<open>
  C1: A dispatcher that returns has accounted for every job it took.  The jobs handed to it by the
  replies of \<open>moveToActive\<close> and of \<open>moveToFinished\<close> (the prefetched ones) are, in the order they
  came, exactly the jobs it made a terminal call for, followed by the one it may still hold, whose
  lock its last script call releases; and the in-flight gauge is back at its start.  This holds
  for every behaviour of Redis, the clock, the contexts and the handler.
\<close>

theorem dispatchLoop_accounts_for_jobs:
  assumes "marshal_total sv" "run_state (dispatchLoop sv w fuel) wd = (Some (), wd')"
  shows "\<exists>es pf. trace wd' = trace wd @ es \<and> acquired es = settled es @ held pf \<and> inFlight es = 0 \<and>
     (\<forall>pj. pf = Some pj \<longrightarrow> last (calls es) = releaseCall w (pj_token pj) (pj_jobID pj))"
  by (rule doesD [OF dispatchLoop_balanced [OF assms(1)] assms(2)]) (auto simp: balanced_def split: option.splits)

theorem dispatchLoop_accounts_for_jobs_witness:
  "\<exists>es pf. trace (snd (run_state (dispatchLoop demo demo_worker 5) demo_run)) = trace demo_run @ es \<and>
     acquired es = settled es @ held pf \<and> acquired es = [''7'', ''8''] \<and> settled es = [''7'']"
proof -
  let ?r = "run_state (dispatchLoop demo demo_worker 5) demo_run"
  have f: "fst ?r = Some ()" by code_simp
  have t: "trace demo_run = []" by code_simp
  have a: "acquired (trace (snd ?r)) = [''7'', ''8'']" by code_simp
  have s: "settled (trace (snd ?r)) = [''7'']" by code_simp
  have "?r = (Some (), snd ?r)" using f by (simp add: prod_eq_iff)
  from dispatchLoop_accounts_for_jobs [OF demo_marshal(1) this] a s t show ?thesis by auto
qed

text \<open>
  C6: After a shutdown began, a dispatcher takes no new job and is done at once: from any point of
  its loop, holding a prefetched job or not, it returns within two rounds, makes no
  \<open>moveToActive\<close> call and gets no further job prefetched; it leaves holding nothing, or the very job
  it held (whose lock \<open>dispatchLoop\<close> then releases).
\<close>

theorem dispatchLoop_leaves_after_shutdown:
  assumes "shut sv" "2 \<le> fuel"
  shows "\<exists>pf wd' es. run_state (loop fuel (dispatchBody sv w) l) wd = (Some pf, wd') \<and>
     trace wd' = trace wd @ es \<and> MoveToActive \<notin> callName ` set (calls es) \<and> (pf = None \<or> pf = fst l)"
proof -
  have "(if fst l = None then 0 else 1) < fuel" using assms(2) by simp
  with dispatch_stop.loop_returns [OF assms(1)] obtain pf wd'
    where r: "run_state (loop fuel (dispatchBody sv w) l) wd = (Some pf, wd')" by blast
  let ?J = "\<lambda>pf es. MoveToActive \<notin> callName ` set (calls es) \<and> (pf = None \<or> pf = fst l)"
  have "does (loop fuel (dispatchBody sv w) l) (\<lambda>r es'. case r of None \<Rightarrow> True | Some pf \<Rightarrow> ?J pf ([] @ es'))"
  proof (rule does_loop [where J = "\<lambda>l'. ?J (fst l')"])
    fix l' :: dispatchState and es
    assume "?J (fst l') es"
    then show "does (dispatchBody sv w l') (\<lambda>r es'. case r of
        Inl l'' \<Rightarrow> ?J (fst l'') (es @ es') | Inr x \<Rightarrow> ?J x (es @ es'))"
      by (intro does_weaken [OF dispatchBody_shut [OF assms(1)]]) (auto split: sum.splits)
  qed simp
  from doesD [OF this r] r show ?thesis by fastforce
qed

theorem dispatchLoop_leaves_after_shutdown_witness:
  "\<exists>pf wd'. run_state (loop 2 (dispatchBody demo_stopped demo_worker)
     (Some \<lparr>pj_jobMap = [(''name'', ''mail'')], pj_jobID = ''8'', pj_token = ''tok''\<rparr>, Second)) demo_run = (Some pf, wd')"
  using dispatchLoop_leaves_after_shutdown [OF demo_shut, of 2] by fastforce

text \<open>
  C3: An acquired job is settled: \<open>runJob\<close> extends the lock any number of times, then makes exactly
  one terminal call, for the verdict of the policy (or, for a job that carries a default failure,
  for failing it without running the handler); when that call fails the lock is released, and only a
  scheduled job is followed by a rescheduling call.  The handler runs exactly once when the payload
  decodes, the processed-jobs counter moves exactly for accepted completions and failures, the gauge
  returns to its value, and a prefetched job comes with the token of this job and only from an
  accepted completion or failure.
\<close>

theorem runJob_settles_the_job:
  assumes "marshal_total sv" "run_state (runJob sv w token jobID jobMap) wd = (pf, wd')"
  shows "\<exists>es. trace wd' = trace wd @ es \<and> settles sv w token jobID jobMap pf es"
  by (rule doesD [OF runJob_settles [OF assms(1)] assms(2)]) blast

theorem runJob_settles_the_job_witness:
  "\<exists>es pf wd'. run_state (runJob demo demo_worker ''tok'' ''7'' [(''name'', ''mail'')]) demo_run = (pf, wd') \<and>
     trace wd' = trace demo_run @ es \<and> settles demo demo_worker ''tok'' ''7'' [(''name'', ''mail'')] pf es"
proof -
  obtain pf wd' where r: "run_state (runJob demo demo_worker ''tok'' ''7'' [(''name'', ''mail'')]) demo_run = (pf, wd')"
    by fastforce
  from runJob_settles_the_job [OF demo_marshal(1) r] r show ?thesis by blast
qed

text \<open>
  C2: \<open>finalise\<close> implements the retry policy: whatever Redis answers, it makes exactly one script
  call, the one for the verdict that the policy gives from the handler's outcome, the attempts
  stored in Redis (or in the snapshot, when Redis does not answer) and the random number drawn.
  It reports the status of that verdict exactly when Redis accepted the call, an error status
  otherwise, and hands on a prefetched job only for a completion or a failure.
\<close>

theorem finalise_carries_out_policy:
  assumes "marshal_total sv" "run_state (finalise sv w jobID token jobMap out) wd = (res, wd')"
  shows "\<exists>es. trace wd' = trace wd @ es \<and> carries_out sv w jobID token jobMap out res es"
  by (rule doesD [OF finalise_refines_policy [OF assms(1)] assms(2)]) blast

theorem finalise_carries_out_policy_witness:
  "\<exists>es res wd'. run_state (finalise demo demo_worker ''7'' ''tok'' [(''opts'', ''3'')] (failedOutcome (PlainErr ''x'') ''x''))
       demo_run = (res, wd') \<and> trace wd' = trace demo_run @ es \<and>
     carries_out demo demo_worker ''7'' ''tok'' [(''opts'', ''3'')] (failedOutcome (PlainErr ''x'') ''x'') res es"
proof -
  obtain res wd' where r: "run_state (finalise demo demo_worker ''7'' ''tok'' [(''opts'', ''3'')]
      (failedOutcome (PlainErr ''x'') ''x'')) demo_run = (res, wd')" by fastforce
  from finalise_carries_out_policy [OF demo_marshal(1) r] r show ?thesis by blast
qed

section \<open>The heartbeat beside the handler at concrete inputs\<close>

theorem interleaved_job_settles_witness:
  "\<exists>es pf wd'. concurrentJob demo demo_worker ''tok'' ''7'' [(''name'', ''mail'')] demo_run pf wd' \<and>
     trace wd' = trace demo_run @ es \<and> settles demo demo_worker ''tok'' ''7'' [(''name'', ''mail'')] pf
      (GaugeAdd MetricJobsInFlight 1 [(AttrQueue, w_queueName demo_worker)] # es @
       [GaugeAdd MetricJobsInFlight (- 1) [(AttrQueue, w_queueName demo_worker)]])"
proof -
  obtain pf wd' where "run_state (processJob demo demo_worker ''tok'' ''7'' [(''name'', ''mail'')]) demo_run = (pf, wd')"
    by fastforce
  then have c: "concurrentJob demo demo_worker ''tok'' ''7'' [(''name'', ''mail'')] demo_run pf wd'"
    by (rule processJob_concurrent)
  have d: "hlookup [(''name'', ''mail'')] ''defa'' = []" by code_simp
  from interleaved_job_settles [OF demo_marshal(1) d c] c show ?thesis by blast
qed

text \<open>The heartbeat finds the lock lost while the handler is still to be started.\<close>

definition demo_lost :: "script_state world" where
  "demo_lost = demo_world [Inr (GInt64 0)] []"

lemma demo_lost_steps:
  "job_steps demo demo_worker ''tok'' ''7'' [] (jobStarted demo_lost)
     ((jobStarted (snd (run_state (extendLock demo demo_worker ''tok'' ''7'') demo_lost)))
        \<lparr>hbAt := HbExited, jobDone := True, lockLost := True\<rparr>)"
proof -
  let ?r = "run_state (extendLock demo demo_worker ''tok'' ''7'') demo_lost"
  have "\<not> fst ?r" by code_simp
  then have "run_state (heartbeat_ticks demo demo_worker ''tok'' ''7'' 1) demo_lost = (True, snd ?r)"
    by (cases ?r) simp
  then show ?thesis using own_steps_job_steps [OF ticks_steps [of demo demo_worker "''tok''" "''7''" 1 "jobStarted demo_lost"]] by (simp add: jobStarted_def)
qed

theorem no_extension_after_terminal_call_witness:
  "\<exists>es n rest. trace (snd (run_state (extendLock demo demo_worker ''tok'' ''7'') demo_lost)) = trace demo_lost @ es \<and>
     calls es = replicate n (extendCall demo_worker ''tok'' ''7'') @ rest \<and> ExtendLock \<notin> callName ` set rest"
  using no_extension_after_terminal_call [OF demo_marshal(1) demo_lost_steps] by (auto simp: jobStarted_def)

theorem interleaved_job_can_finish_witness:
  "\<exists>s' pf. own_steps demo demo_worker ''tok'' ''7'' []
     ((jobStarted (snd (run_state (extendLock demo demo_worker ''tok'' ''7'') demo_lost)))
        \<lparr>hbAt := HbExited, jobDone := True, lockLost := True\<rparr>) s' \<and> mainAt s' = Over pf"
  by (rule interleaved_job_can_finish [OF demo_lost_steps])

section \<open>Concurrent script calls at concrete inputs\<close>

lemmas demo_flight = mapGroup_single_flight demo_runs_begin demo_schedule_steps

theorem one_upload_at_a_time_witness:
  "sr_at (demo_schedule [0, 0, 0, 0, 1, 1, 1, 1, 0, 1]) 1 = Waiting 0 \<and> flying (sr_at (demo_schedule [0, 0, 0, 0, 1, 1, 1, 1, 0, 1]) 0)"
proof -
  have "sr_at (demo_schedule [0, 0, 0, 0, 1, 1, 1, 1, 0, 1]) 1 = Waiting 0" by code_simp
  with one_upload_at_a_time [OF demo_flight, of "[0, 0, 0, 0, 1, 1, 1, 1, 0, 1]"] show ?thesis by blast
qed

theorem concurrent_runs_get_their_answers_witness:
  "\<exists>es. runResult demo_flushed (loaded (sr_world demo_runs)) es (demo_req 1) (Inr (GInt64 1))"
proof -
  have "sr_at (demo_schedule [1, 1, 1, 1, 1, 1, 1, 1, 1, 1, 1, 1]) 1 = Finished (Inr (GInt64 1))" by code_simp
  with concurrent_runs_get_their_answers [OF demo_flight, of "[1, 1, 1, 1, 1, 1, 1, 1, 1, 1, 1, 1]"] show ?thesis by blast
qed

text \<open>A goroutine that waits in \<open>Lock\<close> for a reader to leave, and one that has the lock.\<close>

theorem concurrent_run_can_finish_witness:
  "sr_at (demo_schedule [1, 1, 1, 1, 1, 1, 2, 1, 1]) 1 = Locking ''new'' \<and>
   (\<exists>s' r. run_steps demo_flushed mapGroup demo_req (demo_schedule [1, 1, 1, 1, 1, 1, 2, 1, 1]) s' \<and> sr_at s' 1 = Finished r)"
proof
  show "sr_at (demo_schedule [1, 1, 1, 1, 1, 1, 2, 1, 1]) 1 = Locking ''new''" by code_simp
qed (rule concurrent_run_can_finish [OF demo_flight])

theorem table_access_exclusive_witness:
  "storing (sr_at (demo_schedule [1, 1, 1, 1, 1, 1, 1, 1, 2]) 1) \<and> \<not> reading (sr_at (demo_schedule [1, 1, 1, 1, 1, 1, 1, 1, 2]) 2)"
proof -
  have s: "storing (sr_at (demo_schedule [1, 1, 1, 1, 1, 1, 1, 1, 2]) 1)" by code_simp
  with table_access_exclusive [OF demo_flight s] show ?thesis by blast
qed

text \<open>
  With a client that \<open>NewClient\<close> returned, no call of a vendored script fails for want of its SHA: an
  error is Redis's answer to the call, or comes from loading the script again after NOSCRIPT.
\<close>

lemma client_finds_its_scripts:
  assumes c: "run_state (NewClient sv masters cfg) w = (Inr c, sr_world s0)"
    and G: "single_flight G" "runsBegin G s0" "run_steps sv G req s0 s"
    and i: "sr_at s i = Finished (Inl err)" "rq_name (req i) \<in> set preloadNames"
  shows "\<exists>es. trace (sr_world s) = trace (sr_world s0) @ es \<and>
    ((\<exists>sha. Cmd (EvalSha (rq_ctx (req i)) sha (rq_keys (req i)) (rq_args (req i))) (Inl err) \<in> set es) \<or>
     (\<exists>e. loadFailed sv es (rq_name (req i)) e \<and> err = errorf (''reload '' @ rq_name (req i) @ '' after NOSCRIPT: '') e))"
  using loaded_script_is_found [OF G i(1)] NewClient_table [OF c] i(2) by blast

section \<open>Signals at concrete inputs\<close>

definition demo_buckets :: promConfig where
  "demo_buckets = \<lparr>pc_handlerBuckets = [1, 5], pc_dispatchBuckets = [1]\<rparr>"

theorem signals_reach_the_backends_witness:
  "does (dispatchLoop demo demo_worker 5) (\<lambda>_ es.
      list_all (metered (\<lambda>_. []) (newCollectors demo_buckets) 0 (w_queueName demo_worker)) es \<and>
      spanRun False (spanCalls es) = Some False)"
  using signals_reach_the_backends [of demo demo_worker 5] by simp

section \<open>Adding jobs: the properties at concrete inputs\<close>

theorem Add_makes_one_call_witness:
  "does (Add demo demo_queue ''payload'' [WithDelay (5 * Second)])
     (addPost demo demo_queue (apply_options [WithDelay (5 * Second)] zero_addConfig) ''payload'' ''payload'')"
  by (rule Add_makes_one_call [OF refl demo_marshal(1)]) code_simp+

theorem Add_refuses_bad_options_witness:
  "does (Add demo demo_queue ''payload'' [WithDelay (5 * Second), WithPriority 1])
     (\<lambda>res es. res = (None, Some (Sentinel ErrPriorityWithDelay)) \<and>
        es = [SpanStart SpanQueueAdd [(AttrQueue, q_name demo_queue)], SpanSetError (Sentinel ErrPriorityWithDelay), SpanEnd]) \<and>
   does (Add demo demo_queue ''payload'' [WithDeduplication [] 0])
     (\<lambda>res es. res = (None, Some (PlainErr ''mkq: WithDeduplication / WithUnique id must be non-empty'')) \<and>
        es = [SpanStart SpanQueueAdd [(AttrQueue, q_name demo_queue)],
          SpanSetError (PlainErr ''mkq: WithDeduplication / WithUnique id must be non-empty''), SpanEnd]) \<and>
   does (Add demo demo_queue ''payload'' [WithJobName []])
     (\<lambda>res es. res = (None, Some (PlainErr ''mkq: WithJobName name must be non-empty'')) \<and>
        es = [SpanStart SpanQueueAdd [(AttrQueue, q_name demo_queue)],
          SpanSetError (PlainErr ''mkq: WithJobName name must be non-empty''), SpanEnd])"
  by (intro conjI; rule Add_refuses_bad_options [OF refl])
    (simp_all add: apply_options_def zero_addConfig_def WithDelay_def WithPriority_def WithDeduplication_def WithJobName_def
      Millisecond_def Second_def)

section \<open>Further properties of the worker at concrete inputs\<close>

theorem delayed_error_keeps_attempts_witness:
  "does (finalise demo demo_worker ''7'' ''tok'' [] (failedOutcome (DelayedError (5 * Second)) ''later''))
     (\<lambda>res es. case res of (pf, st, err) \<Rightarrow> pf = None \<and>
       st = (if err = None then finaliseStatusDelayed else finaliseStatusError) \<and> (\<exists>now.
       obs es = [ScriptCall Background MoveToDelayed (moveToDelayedKeys (w_keys demo_worker) ''7'')
         [GStr (k_prefix (w_keys demo_worker)), GInt64 now, GStr ''7'', GStr ''tok'', GInt64 (max (Milliseconds (5 * Second)) 1),
          GStr ''1'', GStr [], GStr [], GStr []]]))"
  by (rule delayed_error_keeps_attempts) (simp_all add: failedOutcome_def)

theorem retry_needs_attempts_left_witness:
  "does (finalise demo demo_worker ''7'' ''tok'' two_attempts (failedOutcome (PlainErr ''x'') ''x''))
     (\<lambda>res. retryBounded demo_worker ''7'' two_attempts (failedOutcome (PlainErr ''x'') ''x'')) \<and>
   map callName (calls (trace (snd (run_state (finalise demo demo_worker ''7'' ''tok'' two_attempts
     (failedOutcome (PlainErr ''x'') ''x'')) (demo_world [Inr (GStr ''0'')] []))))) = [Scripts.RetryJob] \<and>
   map callName (calls (trace (snd (run_state (finalise demo demo_worker ''7'' ''tok'' two_attempts
     (failedOutcome (PlainErr ''x'') ''x'')) (demo_world [Inr (GStr ''1'')] []))))) = [MoveToFinished]"
proof (intro conjI)
  show "does (finalise demo demo_worker ''7'' ''tok'' two_attempts (failedOutcome (PlainErr ''x'') ''x''))
     (\<lambda>res. retryBounded demo_worker ''7'' two_attempts (failedOutcome (PlainErr ''x'') ''x''))"
    by (rule retry_needs_attempts_left [OF demo_marshal(1)])
  show "map callName (calls (trace (snd (run_state (finalise demo demo_worker ''7'' ''tok'' two_attempts
     (failedOutcome (PlainErr ''x'') ''x'')) (demo_world [Inr (GStr ''0'')] []))))) = [Scripts.RetryJob]" by code_simp
  show "map callName (calls (trace (snd (run_state (finalise demo demo_worker ''7'' ''tok'' two_attempts
     (failedOutcome (PlainErr ''x'') ''x'')) (demo_world [Inr (GStr ''1'')] []))))) = [MoveToFinished]" by code_simp
qed

theorem reschedule_when_due_witness:
  "does (rescheduleNext demo [] demo_worker ''nightly'' ''7'') (\<lambda>u es. \<exists>rep es'.
     es = Cmd (HMGet (Timeout (2 * Second)) (Schedule (k_builder (w_keys demo_worker)) ''nightly'')
       [''limit'', ''ic'', ''every'', ''startDate'', ''endDate'', ''pattern'', ''tz'', ''opts'']) rep # es' \<and>
     (case rep of
        Inr (GArr vals) \<Rightarrow> if length vals = 8
          then \<exists>s. calls es' = iterationCalls demo [] demo_worker ''nightly'' ''7'' (storedField vals) (fst (sv_now demo s))
          else calls es' = []
      | _ \<Rightarrow> calls es' = [])) \<and>
   map callName (calls (trace (snd (run_state (rescheduleNext demo [] demo_worker ''nightly'' ''7'')
     (demo_world [Inr (GArr demo_interval)] []))))) = [UpdateJobScheduler] \<and>
   due (sv_cron demo) [] (storedField demo_pattern) (- 59995000000) = Some ''5''"
proof (intro conjI)
  show "map callName (calls (trace (snd (run_state (rescheduleNext demo [] demo_worker ''nightly'' ''7'')
     (demo_world [Inr (GArr demo_interval)] []))))) = [UpdateJobScheduler]" by code_simp
  show "due (sv_cron demo) [] (storedField demo_pattern) (- 59995000000) = Some ''5''" by code_simp
qed (rule reschedule_when_due [OF demo_marshal(1)])

theorem every_schedule_sent_witness:
  "does (UpsertScheduleEvery demo demo_queue ''tick'' 500000 ''payload'' [])
     (everySent demo demo_queue ''tick'' 500000 ''payload'' zero_scheduleConfig) \<and>
   everyFields 500000 zero_scheduleConfig ''every'' = None \<and> everyFields (5 * Second) zero_scheduleConfig ''every'' = Some (MInt 5000)"
proof (intro conjI)
  have e: "sc_endDate zero_scheduleConfig = None" "sc_tz zero_scheduleConfig = []" "\<not> sc_immediately zero_scheduleConfig"
    "apply_options [] zero_scheduleConfig = zero_scheduleConfig" "sv_marshal_data demo ''payload'' = Inr ''payload''"
    by (simp_all add: zero_scheduleConfig_def apply_options_def demo_def)
  from every_schedule_sent [OF demo_marshal(1) _ _ e(5,4,2,3), of 500000 "''tick''" demo_queue]
  show "does (UpsertScheduleEvery demo demo_queue ''tick'' 500000 ''payload'' [])
     (everySent demo demo_queue ''tick'' 500000 ''payload'' zero_scheduleConfig)" by (simp add: e(1))
qed (simp_all add: everyFields_def Second_def)

theorem idle_wait_in_range_witness:
  "does (dispatchBody demo demo_worker (None, 20 * Second)) (\<lambda>r es. case r of
      Inl (pf', iw') \<Rightarrow> wc_idlePollInterval (w_cfg demo_worker) \<le> iw' \<and>
        iw' \<le> max (wc_idlePollInterval (w_cfg demo_worker)) maxIdleWait
    | Inr _ \<Rightarrow> True) \<and> 20 * Second \<le> nextIdleWait (20 * Second) (wc_idlePollInterval (w_cfg demo_worker))"
  by (rule idle_wait_in_range [OF demo_marshal(1)]) code_simp+

theorem dispatcher_calls_well_keyed_witness:
  "list_all well_keyed (calls (trace (snd (run_state (dispatchLoop demo demo_worker 5) demo_run)))) \<and>
   map callName (calls (trace (snd (run_state (dispatchLoop demo demo_worker 5) demo_run)))) =
     [MoveToActive, ExtendLock, MoveToFinished, ReleaseLock]"
proof
  let ?r = "run_state (dispatchLoop demo demo_worker 5) demo_run"
  have "trace demo_run = []" by code_simp
  moreover obtain es where "trace (snd ?r) = trace demo_run @ es" "list_all well_keyed (calls es)"
    using dispatcher_calls_well_keyed [OF demo_marshal(1), of demo_worker 5] surjective_pairing [of ?r] by (rule doesD)
  ultimately show "list_all well_keyed (calls (trace (snd ?r)))" by simp
  show "map callName (calls (trace (snd ?r))) = [MoveToActive, ExtendLock, MoveToFinished, ReleaseLock]" by code_simp
qed

theorem stalled_scans_witness:
  "does (stalledLoop demo demo_worker 1) (\<lambda>r es. list_all (stalledScan demo_worker) (calls es) \<and>
     (if r = None then length (calls es) = 1 else length (calls es) < 1)) \<and>
   does (loop (Suc 0) (stalledBody demo demo_worker) 0) (\<lambda>r es. r = Some () \<and> es = [])"
proof -
  have i: "Millisecond < wc_stalledInterval (w_cfg demo_worker)" by code_simp
  have t: "\<forall>d s. \<not> fst (sv_timer demo d s)" by (simp add: demo_def)
  from stalled_scans [OF i, of demo 1] stalled_scans [OF i, of demo 0 0] t show ?thesis by blast
qed

section \<open>The outside view of a queue at concrete inputs\<close>

theorem listing_keeps_order_witness:
  "\<exists>js. listedFrom demo (Inr (GArr (map (\<lambda>h. GArr (hgetall_reply h)) [[], [(''name'', ''mail'')]]))) 0 [''a'', ''b''] = Inr js \<and>
     map (\<lambda>j. j_ID (lj_Job j)) js = [''b'']"
proof -
  let ?l = "listedFrom demo (Inr (GArr (map (\<lambda>h. GArr (hgetall_reply h)) [[], [(''name'', ''mail'')]]))) 0 [''a'', ''b'']"
  have "\<not> isl ?l" by code_simp
  then obtain js where js: "?l = Inr js" by (cases ?l) auto
  with listing_keeps_order [OF js] show ?thesis by simp
qed

theorem DiscoverQueues_reports_queues_witness:
  "does (DiscoverQueues demo_scan demo_client 1 []) (\<lambda>r es. \<exists>res. r = Some (Returns res) \<and>
     (case res of Inl err \<Rightarrow> True | Inr names \<Rightarrow> discovered (c_keyPrefix demo_client) names es)) \<and>
   fst (run_state (DiscoverQueues demo_scan demo_client 1 []) demo_run) = Some (Returns (Inr [''mail'']))"
proof
  show "does (DiscoverQueues demo_scan demo_client 1 []) (\<lambda>r es. \<exists>res. r = Some (Returns res) \<and>
     (case res of Inl err \<Rightarrow> True | Inr names \<Rightarrow> discovered (c_keyPrefix demo_client) names es))"
    by (rule DiscoverQueues_reports_queues [OF glob_ok_glob demo_scan_contract]) simp
  show "fst (run_state (DiscoverQueues demo_scan demo_client 1 []) demo_run) = Some (Returns (Inr [''mail'']))" by code_simp
qed

end
